(* ===== verification/Json.thy ===== *)
theory Json
  imports Prelude
begin

text \<open>
  The generic JSON values of package \<^verbatim>\<open>policy\<close> (what \<^verbatim>\<open>encoding/json\<close> decodes into
  \<^verbatim>\<open>any\<close>) and \<^verbatim>\<open>merge.go\<close>: JSON Merge Patch, null stripping and deep copy. The
  theorems show that the merge follows the RFC 7386 rule key by key, that it does
  not depend on the order in which Go iterates a map, and that applying a patch
  twice is applying it once.
\<close>

section \<open>Values\<close>

text \<open>
  A number is a \<^verbatim>\<open>float64\<close>: \<open>JInt\<close> one whose value is integral, \<open>JFrac\<close> any other,
  kept as its text, since no integer field accepts it. An object is a Go map.
\<close>

datatype json =
    JNull
  | JBool bool
  | JInt int
  | JFrac string
  | JStr string
  | JArr "json list"
  | JObj "(string \<times> json) list"

abbreviation jentry :: "json gomap \<Rightarrow> string \<Rightarrow> json" where
  "jentry m k \<equiv> (case map_of m k of None \<Rightarrow> JNull | Some v \<Rightarrow> v)"

definition obj_entries :: "json \<Rightarrow> json gomap" where
  "obj_entries v = (case v of JObj m \<Rightarrow> m | _ \<Rightarrow> [])"

lemma obj_entries_JObj [simp]: "obj_entries (JObj m) = m"
  by (simp add: obj_entries_def)

text \<open>Every object has distinct keys, at every depth.\<close>

fun wf_json :: "json \<Rightarrow> bool" where
  "wf_json (JObj m) = (wf_map m \<and> (\<forall>kv \<in> set m. wf_json (snd kv)))"
| "wf_json (JArr vs) = (\<forall>v \<in> set vs. wf_json v)"
| "wf_json _ = True"

text \<open>\<^verbatim>\<open>cloneValue\<close>: the deep copy of a value.\<close>

fun cloneValue :: "json \<Rightarrow> json" where
  "cloneValue (JObj m) = JObj (map (\<lambda>(k, v). (k, cloneValue v)) m)"
| "cloneValue (JArr vs) = JArr (map cloneValue vs)"
| "cloneValue v = v"

lemma cloneValue_id [simp]: "cloneValue v = v"
  by (induction v rule: cloneValue.induct) (auto intro: map_idI)

section \<open>Merge patch\<close>

text \<open>
  \<^verbatim>\<open>mergePatch\<close>: \<open>mergeEntries\<close> is its second loop, over the patch's keys, with the
  copy of the target built so far.
\<close>

fun mergePatch :: "json \<Rightarrow> json \<Rightarrow> json"
  and mergeEntries :: "json gomap \<Rightarrow> json gomap \<Rightarrow> json gomap" where
  "mergePatch target (JObj pm) =
     JObj (mergeEntries
       (case target of JObj tm \<Rightarrow> map (\<lambda>(k, v). (k, cloneValue v)) tm | _ \<Rightarrow> []) pm)"
| "mergePatch target patch = cloneValue patch"
| "mergeEntries out [] = out"
| "mergeEntries out ((k, v) # pm) =
     (if v = JNull then mergeEntries (AList.delete k out) pm
      else mergeEntries (AList.update k (mergePatch (jentry out k) v) out) pm)"

text \<open>\<^verbatim>\<open>stripNulls\<close>: drops every null-valued key, at every depth of objects.\<close>

fun stripNulls :: "json \<Rightarrow> json" where
  "stripNulls (JObj m) =
     JObj (map (\<lambda>(k, v). (k, stripNulls v)) (filter (\<lambda>kv. snd kv \<noteq> JNull) m))"
| "stripNulls v = cloneValue v"

lemma target_entries [simp]:
  "(case t of JObj tm \<Rightarrow> map (\<lambda>(k, v). (k, cloneValue v)) tm | _ \<Rightarrow> []) = obj_entries t"
  by (cases t) (auto simp: obj_entries_def intro: map_idI)

lemma map_of_mergeEntries_other:
  "k \<notin> keys pm \<Longrightarrow> map_of (mergeEntries out pm) k = map_of out k"
  by (induction pm arbitrary: out) (auto simp: update_conv delete_conv)

lemma map_of_mergeEntries:
  "wf_map pm \<Longrightarrow>
   map_of (mergeEntries out pm) k =
     (case map_of pm k of
        None \<Rightarrow> map_of out k
      | Some v \<Rightarrow> if v = JNull then None else Some (mergePatch (jentry out k) v))"
proof (induction pm arbitrary: out)
  case Nil
  then show ?case by simp
next
  case (Cons kv pm)
  obtain k' v where kv: "kv = (k', v)" by (cases kv)
  with Cons.prems have wf: "wf_map pm" and new: "k' \<notin> keys pm"
    by (auto simp: wf_map_def)
  show ?case
  proof (cases "k = k'")
    case True
    with kv new show ?thesis
      by (auto simp: map_of_mergeEntries_other update_conv delete_conv)
  next
    case False
    with kv Cons.IH [OF wf] show ?thesis
      by (auto simp: update_conv delete_conv split: option.splits)
  qed
qed

lemma wf_mergeEntries: "wf_map out \<Longrightarrow> wf_map (mergeEntries out pm)"
  by (induction pm arbitrary: out) (auto simp: wf_map_update wf_map_delete)

lemma wf_obj_entries: "wf_json t \<Longrightarrow> wf_map (obj_entries t)"
  by (cases t) (auto simp: obj_entries_def)

lemma wf_json_entry: "wf_json (JObj m) \<Longrightarrow> map_of m k = Some v \<Longrightarrow> wf_json v"
  by (auto dest!: map_of_SomeD)

lemma wf_jentry: "wf_json (JObj m) \<Longrightarrow> wf_json (jentry m k)"
  by (auto split: option.splits dest!: map_of_SomeD)

lemma wf_json_obj_entries: "wf_json t \<Longrightarrow> wf_json (JObj (obj_entries t))"
  by (cases t) (auto simp: obj_entries_def)

lemma set_delete_subset_helper: "set (AList.delete k m) \<subseteq> set m"
  by (auto simp: AList.delete_eq)

lemma wf_json_delete: "wf_json (JObj m) \<Longrightarrow> wf_json (JObj (AList.delete k m))"
  using set_delete_subset_helper [of k m] by (auto simp: wf_map_delete)

lemma wf_json_update: "wf_json (JObj m) \<Longrightarrow> wf_json v \<Longrightarrow> wf_json (JObj (AList.update k v m))"
proof -
  assume a: "wf_json (JObj m)" "wf_json v"
  have "set (AList.update k v m) \<subseteq> insert (k, v) (set m)"
    by (induction m) auto
  with a show ?thesis by (auto simp: wf_map_update)
qed

lemma wf_mergePatch [inv_intros]:
  "wf_json t \<Longrightarrow> wf_json p \<Longrightarrow> wf_json (mergePatch t p)"
  and wf_json_mergeEntries:
  "wf_json (JObj out) \<Longrightarrow> wf_json (JObj pm) \<Longrightarrow> wf_json (JObj (mergeEntries out pm))"
proof (induction t p and out pm rule: mergePatch_mergeEntries.induct)
  case (1 target pm)
  then show ?case using wf_json_obj_entries [of target] by simp
next
  case (4 out k v pm)
  from "4.prems" have pm: "wf_json (JObj pm)" "wf_json v"
    by (auto simp: wf_map_def)
  show ?case
  proof (cases "v = JNull")
    case True
    with "4.IH"(1) [OF True] "4.prems" pm show ?thesis
      by (simp del: wf_json.simps add: wf_json_delete)
  next
    case False
    have "wf_json (jentry out k)" using "4.prems"(1) by (rule wf_jentry)
    then have "wf_json (mergePatch (jentry out k) v)"
      using "4.IH"(2) [OF False] pm by blast
    then have "wf_json (JObj (AList.update k (mergePatch (jentry out k) v) out))"
      using "4.prems"(1) by (rule wf_json_update [rotated])
    then show ?thesis using "4.IH"(3) [OF False] pm False by simp
  qed
qed auto


section \<open>Map order\<close>

text \<open>
  \<open>canon\<close> sorts the keys of every object, the order \<^verbatim>\<open>json.Marshal\<close> writes a map
  in: two values are the same JSON document exactly when their canonical forms are
  equal.
\<close>

fun canon :: "json \<Rightarrow> json" where
  "canon (JObj m) = JObj (sort_key fst (map (\<lambda>(k, v). (k, canon v)) m))"
| "canon (JArr vs) = JArr (map canon vs)"
| "canon v = v"

lemma wf_map_sort_key [simp]: "wf_map (sort_key fst m) \<longleftrightarrow> wf_map m"
  by (simp add: wf_map_def distinct_map)

lemma map_of_sort_key: "wf_map m \<Longrightarrow> map_of (sort_key fst m) = map_of m"
  unfolding wf_map_def
  by (intro map_of_inject_set [THEN iffD2])
     (auto simp: distinct_map inj_on_def)

lemma sorted_wf_map_eqI:
  assumes "wf_map a" "wf_map b" "map_of a = map_of b"
  shows "sort_key fst a = sort_key fst b"
proof -
  have "set a = set b"
    using assms map_of_inject_set [of a b] by (simp add: wf_map_def)
  moreover have inj: "inj_on fst (set a)" and "distinct a" "distinct b"
    using assms by (auto simp: wf_map_def distinct_map)
  ultimately have "mset a = mset b"
    by (simp add: set_eq_iff_mset_eq_distinct [symmetric])
  then show ?thesis using inj by (rule sort_key_eq_sort_key)
qed

lemma map_fst_canon_entries: "map fst (map (\<lambda>(k, v). (k, canon v)) m) = map fst m"
  by (induction m) auto

lemma map_of_canon_entries:
  "map_of (map (\<lambda>(k, v). (k, canon v)) m) k = map_option canon (map_of m k)"
  by (induction m) auto

lemma wf_map_canon_entries: "wf_map (map (\<lambda>(k, v). (k, canon v)) m) \<longleftrightarrow> wf_map m"
  by (simp only: wf_map_def map_fst_canon_entries)

lemma canon_JObj_eq_iff:
  assumes "wf_map a" "wf_map b"
  shows "canon (JObj a) = canon (JObj b) \<longleftrightarrow>
         (\<forall>k. map_option canon (map_of a k) = map_option canon (map_of b k))"
proof
  assume "canon (JObj a) = canon (JObj b)"
  then have "map_of (sort_key fst (map (\<lambda>(k, v). (k, canon v)) a)) =
             map_of (sort_key fst (map (\<lambda>(k, v). (k, canon v)) b))"
    by simp
  then show "\<forall>k. map_option canon (map_of a k) = map_option canon (map_of b k)"
    using assms by (simp add: map_of_sort_key wf_map_canon_entries map_of_canon_entries fun_eq_iff)
next
  assume "\<forall>k. map_option canon (map_of a k) = map_option canon (map_of b k)"
  then show "canon (JObj a) = canon (JObj b)"
    using assms by (simp add: sorted_wf_map_eqI wf_map_canon_entries map_of_canon_entries fun_eq_iff)
qed

lemma canon_eq_JObjD: "canon v = canon (JObj m) \<Longrightarrow> \<exists>m'. v = JObj m'"
  by (cases v) auto

lemma canon_eq_JNull_iff [simp]: "canon v = JNull \<longleftrightarrow> v = JNull"
  by (cases v) auto

lemma canon_jentry: "canon (jentry m k) = (case map_option canon (map_of m k) of None \<Rightarrow> JNull | Some v \<Rightarrow> v)"
  by (auto split: option.splits)

lemma canon_obj_entries:
  "canon t = canon t' \<Longrightarrow> wf_json t \<Longrightarrow> wf_json t' \<Longrightarrow>
   map_option canon (map_of (obj_entries t) k) = map_option canon (map_of (obj_entries t') k)"
proof (cases t)
  case (JObj m)
  assume a: "canon t = canon t'" "wf_json t" "wf_json t'"
  with JObj obtain m' where m': "t' = JObj m'" using canon_eq_JObjD [of t' m] by auto
  from a JObj m' show ?thesis
    by (auto simp: obj_entries_def simp del: canon.simps simp: canon_JObj_eq_iff)
qed (cases t'; auto simp: obj_entries_def)+

section \<open>Properties of the merge\<close>

text \<open>The RFC 7386 rule, key by key, for a patch that is an object.\<close>

lemma mergePatch_lookup:
  "wf_map pm \<Longrightarrow>
   map_of (obj_entries (mergePatch t (JObj pm))) k =
     (case map_of pm k of
        None \<Rightarrow> map_of (obj_entries t) k
      | Some v \<Rightarrow> if v = JNull then None else Some (mergePatch (jentry (obj_entries t) k) v))"
  by (simp add: map_of_mergeEntries)

lemma mergePatch_not_object:
  "(\<And>pm. p \<noteq> JObj pm) \<Longrightarrow> mergePatch t p = p"
  by (cases p) auto

lemma canon_mergePatch_scalar:
  "canon p = canon p' \<Longrightarrow> (\<And>pm. p \<noteq> JObj pm) \<Longrightarrow> canon (mergePatch t p) = canon (mergePatch t' p')"
  by (cases p; cases p') auto

lemma mergePatch_is_object: "mergePatch t (JObj pm) = JObj (obj_entries (mergePatch t (JObj pm)))"
  by simp

text \<open>
  Equal targets and patches up to map order give equal results up to map order: the
  order in which Go iterates either map cannot be observed.
\<close>

lemma mergePatch_canon:
  assumes "canon t = canon t'" "canon p = canon p'"
    and "wf_json t" "wf_json t'" "wf_json p" "wf_json p'"
  shows "canon (mergePatch t p) = canon (mergePatch t' p')"
  using assms
proof (induction p arbitrary: t t' p')
  case (JObj pm)
  then obtain pm' where p': "p' = JObj pm'"
    using canon_eq_JObjD [of p' pm] by auto
  have wf: "wf_map pm" "wf_map pm'" using JObj.prems p' by auto
  have pe: "map_option canon (map_of pm k) = map_option canon (map_of pm' k)" for k
    using JObj.prems(2) wf unfolding p' by (simp del: canon.simps add: canon_JObj_eq_iff)
  have te: "map_option canon (map_of (obj_entries t) k) = map_option canon (map_of (obj_entries t') k)" for k
    using JObj.prems(1,3,4) by (rule canon_obj_entries)
  have "map_option canon (map_of (obj_entries (mergePatch t (JObj pm))) k) =
        map_option canon (map_of (obj_entries (mergePatch t' (JObj pm'))) k)" for k
  proof (cases "map_of pm k")
    case None
    with pe [of k] have "map_of pm' k = None" by (cases "map_of pm' k") auto
    with None wf te [of k] show ?thesis by (simp only: mergePatch_lookup) simp
  next
    case (Some v)
    with pe [of k] obtain v' where v': "map_of pm' k = Some v'" "canon v = canon v'"
      by (cases "map_of pm' k") auto
    from v'(2) have nn: "v = JNull \<longleftrightarrow> v' = JNull" by (metis canon_eq_JNull_iff)
    have "(k, v) \<in> set pm" using Some by (rule map_of_SomeD)
    moreover have "wf_json v" "wf_json v'"
      using Some v' JObj.prems(5,6) p' wf_json_entry by blast+
    moreover have "wf_json (jentry (obj_entries u) k)" if "wf_json u" for u
      using that wf_json_obj_entries wf_jentry by blast
    moreover have "canon (jentry (obj_entries t) k) = canon (jentry (obj_entries t') k)"
      using te [of k] by (simp only: canon_jentry)
    ultimately have "canon (mergePatch (jentry (obj_entries t) k) v) =
                     canon (mergePatch (jentry (obj_entries t') k) v')"
      using JObj.IH [of "(k, v)" v] v'(2) JObj.prems(3,4) by auto
    with Some v' nn wf show ?thesis by (simp only: mergePatch_lookup) simp
  qed
  moreover have "wf_map (obj_entries (mergePatch t (JObj pm)))" "wf_map (obj_entries (mergePatch t' (JObj pm')))"
    using JObj.prems(3,4) by (auto intro!: wf_mergeEntries wf_obj_entries)
  ultimately show ?case
    unfolding p' by (metis canon_JObj_eq_iff mergePatch_is_object)
qed (rule canon_mergePatch_scalar, assumption, simp (no_asm))+

text \<open>A patch applied twice is the patch applied once.\<close>

lemma mergePatch_idem:
  assumes "wf_json t" "wf_json p"
  shows "canon (mergePatch (mergePatch t p) p) = canon (mergePatch t p)"
  using assms
proof (induction p arbitrary: t)
  case (JObj pm)
  have wf: "wf_map pm" using JObj.prems by simp
  let ?t1 = "mergePatch t (JObj pm)"
  have "map_option canon (map_of (obj_entries (mergePatch ?t1 (JObj pm))) k) =
        map_option canon (map_of (obj_entries ?t1) k)" for k
  proof (cases "map_of pm k")
    case None
    then show ?thesis using wf by (simp only: mergePatch_lookup) simp
  next
    case (Some v)
    have "(k, v) \<in> set pm" using Some by (rule map_of_SomeD)
    moreover have "wf_json v" using Some JObj.prems wf_json_entry by blast
    moreover have "wf_json (jentry (obj_entries t) k)"
      using JObj.prems wf_json_obj_entries wf_jentry by blast
    ultimately have "canon (mergePatch (mergePatch (jentry (obj_entries t) k) v) v) =
                     canon (mergePatch (jentry (obj_entries t) k) v)"
      using JObj.IH [of "(k, v)" v] by auto
    moreover have "map_of (obj_entries ?t1) k =
        (if v = JNull then None else Some (mergePatch (jentry (obj_entries t) k) v))"
      using Some wf by (simp only: mergePatch_lookup) simp
    ultimately show ?thesis
      using Some wf by (subst mergePatch_lookup) auto
  qed
  moreover have "wf_map (obj_entries ?t1)" using JObj.prems by (auto intro!: wf_mergeEntries wf_obj_entries)
  moreover have "wf_map (obj_entries (mergePatch ?t1 (JObj pm)))"
    using JObj.prems by (auto intro!: wf_mergeEntries wf_obj_entries)
  ultimately show ?case
    by (metis canon_JObj_eq_iff mergePatch_is_object)
qed auto

text \<open>\<open>no_nulls\<close>: no object of the value has a null entry.\<close>

fun no_nulls :: "json \<Rightarrow> bool" where
  "no_nulls (JObj m) = (\<forall>kv \<in> set m. snd kv \<noteq> JNull \<and> no_nulls (snd kv))"
| "no_nulls _ = True"

lemma stripNulls_no_nulls: "no_nulls (stripNulls v)"
proof (induction v rule: stripNulls.induct)
  case (1 m)
  have "stripNulls v \<noteq> JNull" if "v \<noteq> JNull" for v using that by (cases v) auto
  with 1 show ?case by (auto; metis snd_conv)
qed auto

lemma stripNulls_lookup:
  "wf_map m \<Longrightarrow> map_of (obj_entries (stripNulls (JObj m))) k =
     (case map_of m k of None \<Rightarrow> None | Some v \<Rightarrow> if v = JNull then None else Some (stripNulls v))"
proof (induction m)
  case (Cons kv m)
  then have "wf_map m" and "fst kv \<notin> keys m" by (auto simp: wf_map_def)
  moreover from this(2) have "map_of (map (\<lambda>(k, v). (k, stripNulls v)) (filter (\<lambda>kv. snd kv \<noteq> JNull) m)) (fst kv) = None"
    by (auto simp: map_of_eq_None_iff rev_image_eqI)
  ultimately show ?case using Cons.IH by (cases kv) auto
qed simp

lemma wf_stripNulls [inv_intros]: "wf_json v \<Longrightarrow> wf_json (stripNulls v)"
proof (induction v rule: stripNulls.induct)
  case (1 m)
  have "map fst (map (\<lambda>(k, v). (k, stripNulls v)) xs) = map fst xs" for xs by (induction xs) auto
  moreover have "distinct (map fst (filter P m))" for P
    using 1 by (auto simp: wf_map_def distinct_map_filter)
  ultimately have "wf_map (map (\<lambda>(k, v). (k, stripNulls v)) (filter (\<lambda>kv. snd kv \<noteq> JNull) m))"
    unfolding wf_map_def by metis
  with 1 show ?case by auto
qed auto

text \<open>
  Filling in defaults: a patch with no null never removes a key of the target.
\<close>

lemma mergePatch_no_nulls_keeps:
  assumes "wf_map pm" "no_nulls (JObj pm)" "k \<in> keys (obj_entries t)"
  shows "k \<in> keys (obj_entries (mergePatch t (JObj pm)))"
proof -
  have "map_of (obj_entries (mergePatch t (JObj pm))) k \<noteq> None"
  proof (cases "map_of pm k")
    case None
    moreover have "map_of (obj_entries t) k \<noteq> None" using assms(3) by (simp add: map_of_eq_None_iff)
    ultimately show ?thesis using assms(1) by (simp only: mergePatch_lookup) simp
  next
    case (Some v)
    then have "(k, v) \<in> set pm" by (rule map_of_SomeD)
    with assms(2) have "v \<noteq> JNull" by auto
    with Some assms(1) show ?thesis by (simp only: mergePatch_lookup) simp
  qed
  then show ?thesis by (simp add: map_of_eq_None_iff)
qed

end
