(* ===== verification/Decode.thy ===== *)
theory Decode
  imports Json
begin

text \<open>
  \<^verbatim>\<open>encoding/json\<close> between generic values and Go structs. A decoder takes a JSON
  value and the variable's current value to its new value, \<open>None\<close> when \<^verbatim>\<open>Unmarshal\<close>
  reports a type mismatch. A null leaves a scalar or struct as it is and resets a
  pointer, slice or map; an object key selects the struct field of that name, first
  by its exact spelling and then without case; an unknown key is ignored.

  The general lemma of the theory, \<open>dec_entries_field\<close>, says what a struct field
  holds after decoding an object whose keys are field names.
\<close>

type_synonym 'a decoder = "json \<Rightarrow> 'a \<Rightarrow> 'a option"

section \<open>Scalars, pointers, slices and maps\<close>

definition dec_string :: "string decoder" where
  "dec_string j cur = (case j of JNull \<Rightarrow> Some cur | JStr s \<Rightarrow> Some s | _ \<Rightarrow> None)"

definition dec_bool :: "bool decoder" where
  "dec_bool j cur = (case j of JNull \<Rightarrow> Some cur | JBool b \<Rightarrow> Some b | _ \<Rightarrow> None)"

text \<open>An \<^verbatim>\<open>int\<close> or \<^verbatim>\<open>int64\<close> field: an integral number in the 64-bit range.\<close>

definition dec_int :: "int decoder" where
  "dec_int j cur =
     (case j of JNull \<Rightarrow> Some cur | JInt n \<Rightarrow> (if in_int64 n then Some n else None) | _ \<Rightarrow> None)"

definition dec_ptr :: "'a \<Rightarrow> 'a decoder \<Rightarrow> 'a option decoder" where
  "dec_ptr z d j cur =
     (if j = JNull then Some None
      else map_option Some (d j (case cur of None \<Rightarrow> z | Some c \<Rightarrow> c)))"

fun dec_elems :: "'a \<Rightarrow> 'a decoder \<Rightarrow> json list \<Rightarrow> 'a list \<Rightarrow> 'a list option" where
  "dec_elems z d [] cur = Some []"
| "dec_elems z d (v # vs) cur =
     (case d v (case cur of [] \<Rightarrow> z | c # _ \<Rightarrow> c) of
        None \<Rightarrow> None
      | Some x \<Rightarrow> map_option ((#) x) (dec_elems z d vs (tl cur)))"

definition dec_slice :: "'a \<Rightarrow> 'a decoder \<Rightarrow> 'a list decoder" where
  "dec_slice z d j cur =
     (case j of JNull \<Rightarrow> Some [] | JArr vs \<Rightarrow> dec_elems z d vs cur | _ \<Rightarrow> None)"

fun dec_map_entries :: "'a \<Rightarrow> 'a decoder \<Rightarrow> json gomap \<Rightarrow> 'a gomap \<Rightarrow> 'a gomap option" where
  "dec_map_entries z d [] cur = Some cur"
| "dec_map_entries z d ((k, v) # m) cur =
     (case d v z of
        None \<Rightarrow> None
      | Some x \<Rightarrow> dec_map_entries z d m (AList.update k x cur))"

definition dec_map :: "'a \<Rightarrow> 'a decoder \<Rightarrow> 'a gomap decoder" where
  "dec_map z d j cur =
     (case j of JNull \<Rightarrow> Some [] | JObj m \<Rightarrow> dec_map_entries z d m cur | _ \<Rightarrow> None)"

abbreviation dec_strings :: "string list decoder" where
  "dec_strings \<equiv> dec_slice [] dec_string"

text \<open>An \<^verbatim>\<open>any\<close> takes the value as it is.\<close>

definition dec_any :: "json decoder" where
  "dec_any j cur = Some j"

section \<open>Structs\<close>

text \<open>
  A struct is the list of its fields: the JSON name and the decoder of that field
  within the whole struct. \<open>fld\<close> builds the latter from the field's own decoder, its
  selector and its update.
\<close>

type_synonym 'r fields = "(string \<times> (json \<Rightarrow> 'r \<Rightarrow> 'r option)) list"

definition fld :: "'a decoder \<Rightarrow> ('r \<Rightarrow> 'a) \<Rightarrow> (('a \<Rightarrow> 'a) \<Rightarrow> 'r \<Rightarrow> 'r) \<Rightarrow> json \<Rightarrow> 'r \<Rightarrow> 'r option" where
  "fld d get upd j r = map_option (\<lambda>x. upd (\<lambda>_. x) r) (d j (get r))"

fun find_fold :: "'r fields \<Rightarrow> string \<Rightarrow> (json \<Rightarrow> 'r \<Rightarrow> 'r option) option" where
  "find_fold [] k = None"
| "find_fold ((n, d) # fs) k = (if EqualFold n k then Some d else find_fold fs k)"

definition find_field :: "'r fields \<Rightarrow> string \<Rightarrow> (json \<Rightarrow> 'r \<Rightarrow> 'r option) option" where
  "find_field fs k = (case map_of fs k of Some d \<Rightarrow> Some d | None \<Rightarrow> find_fold fs k)"

fun dec_entries :: "'r fields \<Rightarrow> json gomap \<Rightarrow> 'r \<Rightarrow> 'r option" where
  "dec_entries fs [] r = Some r"
| "dec_entries fs ((k, v) # m) r =
     (case find_field fs k of
        None \<Rightarrow> dec_entries fs m r
      | Some d \<Rightarrow> (case d v r of None \<Rightarrow> None | Some r' \<Rightarrow> dec_entries fs m r'))"

definition dec_struct :: "'r fields \<Rightarrow> 'r decoder" where
  "dec_struct fs j r =
     (case j of JNull \<Rightarrow> Some r | JObj m \<Rightarrow> dec_entries fs m r | _ \<Rightarrow> None)"

section \<open>Encoding\<close>

text \<open>
  \<^verbatim>\<open>json.Marshal\<close> of the same types, as the generic value it reads back as. A nil
  slice is written as null; nil and empty slices are not told apart, both decode to
  a slice of length 0.
\<close>

definition enc_ptr :: "('a \<Rightarrow> json) \<Rightarrow> 'a option \<Rightarrow> json" where
  "enc_ptr e p = (case p of None \<Rightarrow> JNull | Some x \<Rightarrow> e x)"

definition enc_slice :: "('a \<Rightarrow> json) \<Rightarrow> 'a list \<Rightarrow> json" where
  "enc_slice e xs = (if xs = [] then JNull else JArr (map e xs))"

definition enc_map :: "('a \<Rightarrow> json) \<Rightarrow> 'a gomap \<Rightarrow> json" where
  "enc_map e m = JObj (map (\<lambda>(k, v). (k, e v)) m)"

lemmas dec_defs = dec_string_def dec_bool_def dec_int_def dec_ptr_def dec_slice_def dec_map_def
  dec_any_def dec_struct_def fld_def find_field_def

section \<open>Round trips\<close>

definition roundtrips :: "'a decoder \<Rightarrow> 'a \<Rightarrow> ('a \<Rightarrow> json) \<Rightarrow> ('a \<Rightarrow> bool) \<Rightarrow> bool" where
  "roundtrips d z e ok \<longleftrightarrow> (\<forall>x. ok x \<longrightarrow> d (canon (e x)) z = Some x)"

lemma roundtripsD: "roundtrips d z e ok \<Longrightarrow> ok x \<Longrightarrow> d (canon (e x)) z = Some x"
  by (simp add: roundtrips_def)

lemma roundtrips_string: "roundtrips dec_string [] JStr (\<lambda>_. True)"
  by (simp add: roundtrips_def dec_string_def)

lemma dec_elems_map:
  assumes "roundtrips d z e ok" "list_all ok xs"
  shows "dec_elems z d (map canon (map e xs)) [] = Some xs"
  using assms by (induction xs) (auto simp: roundtrips_def)

lemma dec_slice_enc:
  "roundtrips d z e ok \<Longrightarrow> list_all ok xs \<Longrightarrow> dec_slice z d (canon (enc_slice e xs)) [] = Some xs"
  using dec_elems_map [of d z e ok xs] by (simp add: dec_slice_def enc_slice_def)

lemma dec_strings_enc [simp]: "dec_strings (canon (enc_slice JStr xs)) [] = Some xs"
  by (rule dec_slice_enc [OF roundtrips_string]) (simp add: list_all_iff)

lemma dec_strings_enc' [simp]: "dec_strings (enc_slice JStr xs) [] = Some xs"
proof -
  have "canon (enc_slice JStr xs) = enc_slice JStr xs" by (simp add: enc_slice_def)
  then show ?thesis using dec_strings_enc [of xs] by simp
qed

lemma update_append_new:
  "k \<notin> keys m \<Longrightarrow> AList.update k v m = m @ [(k, v)]"
  by (induction m) auto

lemma dec_map_entries_enc:
  assumes "roundtrips d z e (\<lambda>_. True)" "distinct (map fst (cur @ m))"
  shows "dec_map_entries z d (map (\<lambda>(k, v). (k, canon (e v))) m) cur = Some (cur @ m)"
  using assms(2)
proof (induction m arbitrary: cur)
  case (Cons kv m)
  obtain k v where kv: "kv = (k, v)" by (cases kv)
  have "dec_map_entries z d (map (\<lambda>(k, v). (k, canon (e v))) m) (cur @ [(k, v)]) = Some ((cur @ [(k, v)]) @ m)"
    by (rule Cons.IH) (use Cons.prems kv in auto)
  moreover have "AList.update k v cur = cur @ [(k, v)]"
    by (rule update_append_new) (use Cons.prems kv in auto)
  ultimately show ?case using kv roundtripsD [OF assms(1), of v] by simp
qed simp

lemma insort_key_map_snd:
  "insort_key fst (k, f v) (map (\<lambda>(k, v). (k, f v)) m) = map (\<lambda>(k, v). (k, f v)) (insort_key fst (k, v) m)"
  by (induction m) auto

lemma sort_key_map_snd:
  "sort_key fst (map (\<lambda>(k, v). (k, f v)) m) = map (\<lambda>(k, v). (k, f v)) (sort_key fst m)"
  by (induction m) (auto simp: insort_key_map_snd)

text \<open>A map comes back as the same map, with its keys sorted.\<close>

lemma dec_map_enc:
  assumes rt: "roundtrips d z e (\<lambda>_. True)" and wf: "wf_map m"
  shows "dec_map z d (canon (enc_map e m)) [] = Some (sort_key fst m)"
proof -
  have "canon (enc_map e m) = JObj (map (\<lambda>(k, v). (k, canon (e v))) (sort_key fst m))"
    by (simp add: enc_map_def case_prod_unfold sort_key_map_snd [of "\<lambda>v. canon (e v)", unfolded case_prod_unfold] o_def)
  moreover have "distinct (map fst ([] @ sort_key fst m))"
    using wf wf_map_sort_key [of m] by (simp add: wf_map_def)
  ultimately show ?thesis
    using dec_map_entries_enc [OF rt, of "[]" "sort_key fst m"] by (simp add: dec_map_def)
qed

text \<open>The keys of a decoded map are distinct.\<close>

lemma wf_dec_map_entries: "dec_map_entries z d m cur = Some r \<Longrightarrow> wf_map cur \<Longrightarrow> wf_map r"
  by (induction m arbitrary: cur) (auto split: option.splits simp: wf_map_update)

lemma wf_dec_map: "dec_map z d j cur = Some r \<Longrightarrow> wf_map cur \<Longrightarrow> wf_map r"
  by (auto simp: dec_map_def wf_dec_map_entries split: json.splits)

section \<open>What a field holds after decoding\<close>

text \<open>
  \<open>field_of fs k get h\<close>: field \<open>k\<close> is read by \<open>get\<close> and decoded by \<open>h\<close>, and no other field
  of the struct changes it.
\<close>

definition field_of :: "'r fields \<Rightarrow> string \<Rightarrow> ('r \<Rightarrow> 'a) \<Rightarrow> 'a decoder \<Rightarrow> bool" where
  "field_of fs k get h \<longleftrightarrow>
     (\<forall>(n, d) \<in> set fs. \<forall>v r r'. d v r = Some r' \<longrightarrow>
        (if n = k then h v (get r) = Some (get r') else get r' = get r))"

lemma dec_entries_field:
  assumes f: "field_of fs k get h" and sub: "keys m \<subseteq> keys fs" and wf: "wf_map m"
    and dec: "dec_entries fs m r = Some r'"
  shows "(case map_of m k of None \<Rightarrow> Some (get r) | Some v \<Rightarrow> h v (get r)) = Some (get r')"
  using sub wf dec
proof (induction m arbitrary: r)
  case (Cons kv m)
  obtain n v where kv: "kv = (n, v)" by (cases kv)
  from Cons.prems kv obtain d where d: "map_of fs n = Some d"
    by (cases "map_of fs n") (auto simp: map_of_eq_None_iff)
  then have mem: "(n, d) \<in> set fs" by (rule map_of_SomeD)
  from Cons.prems(3) kv d obtain r1 where r1: "d v r = Some r1" "dec_entries fs m r1 = Some r'"
    by (auto simp: find_field_def split: option.splits)
  have new: "n \<notin> keys m" and wf': "wf_map m" using Cons.prems(2) kv by (auto simp: wf_map_def)
  have IH: "(case map_of m k of None \<Rightarrow> Some (get r1) | Some v \<Rightarrow> h v (get r1)) = Some (get r')"
    by (rule Cons.IH) (use Cons.prems kv r1 wf' in auto)
  have step: "if n = k then h v (get r) = Some (get r1) else get r1 = get r"
    using f mem r1(1) unfolding field_of_def by fast
  show ?case
  proof (cases "n = k")
    case True
    then have "map_of m k = None" using new by (simp add: map_of_eq_None_iff)
    with True IH step kv show ?thesis by simp
  next
    case False
    with IH step kv show ?thesis by (cases "map_of m k") auto
  qed
qed simp

lemma dec_struct_field:
  assumes "field_of fs k get h" "keys m \<subseteq> keys fs" "wf_map m" "dec_struct fs (JObj m) r = Some r'"
  shows "(case map_of m k of None \<Rightarrow> Some (get r) | Some v \<Rightarrow> h v (get r)) = Some (get r')"
  using dec_entries_field [OF assms(1-3)] assms(4) by (simp add: dec_struct_def)

end
