(* ===== verification/GoLib.thy ===== *)
theory GoLib
  imports Json "HOL-Library.Word"
begin

text \<open>
  What the program takes from outside the repository and from the text-parsing
  parts of the Go library, as one record of functions every definition that needs
  them takes as an argument: \<^verbatim>\<open>hashicorp/go-version\<close> (which strings are versions
  and which of two is older), the text of a JSON document, \<^verbatim>\<open>time.Parse\<close> for RFC 3339,
  \<^verbatim>\<open>net/url.Parse\<close>, \<^verbatim>\<open>net.ParseCIDR\<close> and \<^verbatim>\<open>net.ParseIP\<close>. The theorems hold for every choice of these
  functions; where one relies on the documented order of versions it says so with
  the hypothesis \<open>version_order\<close>. Address containment, which decides the site of a
  machine, is modelled on machine words.
\<close>

unbundle bit_operations_syntax

section \<open>IP addresses\<close>

text \<open>
  An address after \<^verbatim>\<open>To4\<close>: an IPv4-mapped IPv6 address is the IPv4 address it maps.
  A network is its base address and its mask, normalised the same way
  (\<^verbatim>\<open>networkNumberAndMask\<close>).
\<close>

datatype ip = IPv4 "32 word" | IPv6 "128 word"

datatype ipnet = Net4 "32 word" "32 word" | Net6 "128 word" "128 word"

text \<open>\<^verbatim>\<open>IPNet.Contains\<close>.\<close>

fun net_contains :: "ipnet \<Rightarrow> ip \<Rightarrow> bool" where
  "net_contains (Net4 nn m) (IPv4 a) = (nn AND m = a AND m)"
| "net_contains (Net6 nn m) (IPv6 a) = (nn AND m = a AND m)"
| "net_contains _ _ = False"

text \<open>\<^verbatim>\<open>net.CIDRMask(ones, 32)\<close>.\<close>

definition cidr_mask4 :: "nat \<Rightarrow> 32 word" where
  "cidr_mask4 n = NOT (mask (32 - n))"

lemma and_not_mask_eq_iff:
  fixes a b :: "'a::len word"
  shows "a AND NOT (mask k) = b AND NOT (mask k) \<longleftrightarrow> drop_bit k a = drop_bit k b"
proof
  assume eq: "a AND NOT (mask k) = b AND NOT (mask k)"
  show "drop_bit k a = drop_bit k b"
  proof (rule bit_word_eqI)
    fix n assume "n < LENGTH('a)"
    from eq have "bit (a AND NOT (mask k)) (k + n) = bit (b AND NOT (mask k)) (k + n)" by simp
    then show "bit (drop_bit k a) n = bit (drop_bit k b) n"
      by (cases "k + n < LENGTH('a)") (auto simp: bit_simps dest: bit_imp_le_length)
  qed
next
  assume eq: "drop_bit k a = drop_bit k b"
  show "a AND NOT (mask k) = b AND NOT (mask k)"
  proof (rule bit_word_eqI)
    fix n assume n: "n < LENGTH('a)"
    show "bit (a AND NOT (mask k)) n = bit (b AND NOT (mask k)) n"
    proof (cases "n < k")
      case False
      from eq have "bit (drop_bit k a) (n - k) = bit (drop_bit k b) (n - k)" by simp
      with False show ?thesis by (simp add: bit_simps)
    qed (use n in \<open>simp add: bit_simps\<close>)
  qed
qed

text \<open>An IPv4 network holds exactly the addresses that share its prefix bits.\<close>

lemma net_contains_cidr4:
  "net_contains (Net4 a (cidr_mask4 n)) (IPv4 b) \<longleftrightarrow> drop_bit (32 - n) a = drop_bit (32 - n) b"
  by (simp add: cidr_mask4_def and_not_mask_eq_iff)

section \<open>The library functions\<close>

record url =
  u_Scheme :: string
  u_Host :: string
  u_Path :: string
  u_RawQuery :: string
  u_Fragment :: string

record golib =
  NewVersion_ok :: "string \<Rightarrow> bool"
  LessThan :: "string \<Rightarrow> string \<Rightarrow> bool"
  ParseJSON :: "string \<Rightarrow> json option"
  ParseRFC3339 :: "string \<Rightarrow> time option"
  ParseURL :: "string \<Rightarrow> url option"
  ParseCIDR :: "string \<Rightarrow> (ip \<times> ipnet) option"
  ParseIP :: "string \<Rightarrow> ip option"

text \<open>
  The documented order of \<^verbatim>\<open>go-version\<close>: on strings it accepts, \<open>LessThan\<close> is a
  strict order in which being incomparable is an equivalence (versions that differ
  in spelling or build metadata only).
\<close>

definition version_order :: "golib \<Rightarrow> bool" where
  "version_order L \<longleftrightarrow>
     (\<forall>a. NewVersion_ok L a \<longrightarrow> \<not> LessThan L a a) \<and>
     (\<forall>a b c. NewVersion_ok L a \<longrightarrow> NewVersion_ok L b \<longrightarrow> NewVersion_ok L c \<longrightarrow>
        LessThan L a b \<longrightarrow> LessThan L b c \<longrightarrow> LessThan L a c) \<and>
     (\<forall>a b c. NewVersion_ok L a \<longrightarrow> NewVersion_ok L b \<longrightarrow> NewVersion_ok L c \<longrightarrow>
        LessThan L a c \<longrightarrow> LessThan L a b \<or> LessThan L b c)"

end
