(* ===== verification/PolicyDoc.thy ===== *)
theory PolicyDoc
  imports Decode GoLib
begin

text \<open>
  \<^verbatim>\<open>internal/policy/document.go\<close>: the typed remote configuration document, its
  sections, the values they hold when a document omits them, and the decoding of
  the generic JSON document into it. The record of each section has the fields of
  the Go struct, under a prefix that keeps names of different sections apart.
\<close>

section \<open>Constants\<close>

definition SchemaVersion :: int where "SchemaVersion = 1"
definition MaxDocumentSize :: nat where "MaxDocumentSize = 1048576"
definition ManifestPath :: string where "ManifestPath = ''/v2/updates/manifest''"

definition AppModeNormal :: string where "AppModeNormal = ''normal''"
definition AppModeReadOnly :: string where "AppModeReadOnly = ''readonly''"
definition AppModeMaintenance :: string where "AppModeMaintenance = ''maintenance''"

definition DefaultClientWSCommands :: "string list" where
  "DefaultClientWSCommands =
     [''machine.info'', ''emly.manifest.check'', ''updater.manifest.check'', ''apps.list_upgradable'']"

definition knownClientWSCommands :: "string list" where
  "knownClientWSCommands =
     [''machine.info'', ''emly.manifest.check'', ''updater.manifest.check'', ''apps.list_upgradable'',
      ''service.restart'', ''machine.reboot'']"

definition PatchableSections :: "string list" where
  "PatchableSections = [''control'', ''updater'', ''logging'', ''defaultServer'', ''clientWs'']"

definition mergedSections :: "string list" where
  "mergedSections = [''refresh'', ''control'', ''updater'', ''logging'', ''clientWs'']"

section \<open>The document's sections\<close>

record refresh =
  rf_IntervalMinutes :: int
  rf_StaleAfterDays :: int

record version_range =
  vr_Min :: "string option"
  vr_Max :: "string option"

record ipc_version =
  iv_Updater :: version_range
  iv_EMLy :: version_range
  iv_Enabled :: "bool option"

record ipc_protocol =
  ip_Versions :: "ipc_version gomap"
  ip_DefaultVersion :: int

record site =
  st_InternalSubnets :: "string list"
  st_BaseServer :: string
  st_BackupServer :: "string list"
  st_Enabled :: "bool option"

record whitelist =
  wl_Hostnames :: "string list"
  wl_HWIDs :: "string list"

record host_integrity =
  hi_Enabled :: bool
  hi_Whitelist :: whitelist

record control_updater =
  cu_Enabled :: bool
  cu_Reason :: "string option"
  cu_Until :: "string option"

record control_app =
  ca_Enabled :: bool
  ca_Mode :: string
  ca_Reason :: "string option"
  ca_Until :: "string option"

record control =
  co_Updater :: control_updater
  co_App :: control_app

record critical_warning =
  cw_Enabled :: bool
  cw_Seconds :: int

record dc_lookup_retry =
  dr_Attempts :: int
  dr_DelaySeconds :: int

record resolver_settings =
  rs_Attempts :: int
  rs_BaseBackoffSeconds :: int

record toggle =
  tg_Enabled :: bool

record updater_settings =
  us_PollIntervalMinutes :: int
  us_ChannelOverride :: "string option"
  us_CriticalWarning :: critical_warning
  us_DCLookupRetry :: dc_lookup_retry
  us_Resolver :: resolver_settings
  us_SelfUpdate :: toggle
  us_InstallCertificate :: toggle

record logging_settings =
  lg_Level :: string
  lg_MaxSizeMB :: int
  lg_Backups :: int
  lg_Compress :: bool
  lg_EventLog :: bool

record clientws_settings =
  cs_Enabled :: bool
  cs_Commands :: "string list"

record selector =
  sl_All :: bool
  sl_HWIDs :: "string list"
  sl_Hostnames :: "string list"
  sl_DCs :: "string list"
  sl_Subnets :: "string list"
  sl_Domains :: "string list"

record override =
  ov_ID :: string
  ov_Match :: selector
  ov_Except :: "selector option"
  ov_Until :: "string option"
  ov_Patch :: "json gomap option"

record document =
  d_SchemaVersion :: int
  d_Revision :: int
  d_GeneratedAt :: string
  d_Refresh :: refresh
  d_Servers :: "string gomap"
  d_DefaultServer :: string
  d_IPCProtocol :: ipc_protocol
  d_DCLookupMap :: "site gomap"
  d_HostIntegrity :: host_integrity
  d_Control :: control
  d_Updater :: updater_settings
  d_Logging :: logging_settings
  d_ClientWS :: clientws_settings
  d_Overrides :: "override list"

record host =
  h_HWID :: string
  h_Hostname :: string
  h_DC :: string
  h_Domain :: string
  h_IPs :: "string list"
  h_Now :: time

section \<open>Methods\<close>

definition ipc_version_IsEnabled :: "ipc_version \<Rightarrow> bool" where
  "ipc_version_IsEnabled v = (case iv_Enabled v of None \<Rightarrow> True | Some b \<Rightarrow> b)"

definition site_IsEnabled :: "site \<Rightarrow> bool" where
  "site_IsEnabled s = (case st_Enabled s of None \<Rightarrow> True | Some b \<Rightarrow> b)"

definition Allows :: "clientws_settings \<Rightarrow> string \<Rightarrow> bool" where
  "Allows c name \<longleftrightarrow> name \<in> set (cs_Commands c)"

text \<open>The duration helpers multiply 64-bit integers, wrapping around.\<close>

definition refresh_Interval :: "refresh \<Rightarrow> duration" where
  "refresh_Interval r = wrap64 (rf_IntervalMinutes r * Minute)"

definition StaleAfter :: "refresh \<Rightarrow> duration" where
  "StaleAfter r = wrap64 (wrap64 (rf_StaleAfterDays r * 24) * Hour)"

definition us_PollInterval :: "updater_settings \<Rightarrow> duration" where
  "us_PollInterval u = wrap64 (us_PollIntervalMinutes u * Minute)"

definition dr_Delay :: "dc_lookup_retry \<Rightarrow> duration" where
  "dr_Delay d = wrap64 (dr_DelaySeconds d * Second)"

definition rs_BaseBackoff :: "resolver_settings \<Rightarrow> duration" where
  "rs_BaseBackoff r = wrap64 (rs_BaseBackoffSeconds r * Second)"

definition us_Channel :: "updater_settings \<Rightarrow> string" where
  "us_Channel u = (case us_ChannelOverride u of None \<Rightarrow> [] | Some c \<Rightarrow> c)"

section \<open>Zero values and decoders\<close>

definition zero_refresh :: refresh where
  "zero_refresh = \<lparr>rf_IntervalMinutes = 0, rf_StaleAfterDays = 0\<rparr>"

definition dec_refresh :: "refresh decoder" where
  "dec_refresh = dec_struct
     [(''intervalMinutes'', fld dec_int rf_IntervalMinutes rf_IntervalMinutes_update),
      (''staleAfterDays'', fld dec_int rf_StaleAfterDays rf_StaleAfterDays_update)]"

definition zero_version_range :: version_range where
  "zero_version_range = \<lparr>vr_Min = None, vr_Max = None\<rparr>"

definition dec_version_range :: "version_range decoder" where
  "dec_version_range = dec_struct
     [(''min'', fld (dec_ptr [] dec_string) vr_Min vr_Min_update),
      (''max'', fld (dec_ptr [] dec_string) vr_Max vr_Max_update)]"

definition zero_ipc_version :: ipc_version where
  "zero_ipc_version =
     \<lparr>iv_Updater = zero_version_range, iv_EMLy = zero_version_range, iv_Enabled = None\<rparr>"

definition dec_ipc_version :: "ipc_version decoder" where
  "dec_ipc_version = dec_struct
     [(''updater'', fld dec_version_range iv_Updater iv_Updater_update),
      (''emly'', fld dec_version_range iv_EMLy iv_EMLy_update),
      (''enabled'', fld (dec_ptr False dec_bool) iv_Enabled iv_Enabled_update)]"

definition zero_ipc_protocol :: ipc_protocol where
  "zero_ipc_protocol = \<lparr>ip_Versions = [], ip_DefaultVersion = 0\<rparr>"

definition dec_ipc_protocol :: "ipc_protocol decoder" where
  "dec_ipc_protocol = dec_struct
     [(''versions'', fld (dec_map zero_ipc_version dec_ipc_version) ip_Versions ip_Versions_update),
      (''defaultVersion'', fld dec_int ip_DefaultVersion ip_DefaultVersion_update)]"

definition zero_site :: site where
  "zero_site = \<lparr>st_InternalSubnets = [], st_BaseServer = [], st_BackupServer = [], st_Enabled = None\<rparr>"

definition dec_site :: "site decoder" where
  "dec_site = dec_struct
     [(''internalSubnets'', fld dec_strings st_InternalSubnets st_InternalSubnets_update),
      (''baseServer'', fld dec_string st_BaseServer st_BaseServer_update),
      (''backupServer'', fld dec_strings st_BackupServer st_BackupServer_update),
      (''enabled'', fld (dec_ptr False dec_bool) st_Enabled st_Enabled_update)]"

definition zero_whitelist :: whitelist where
  "zero_whitelist = \<lparr>wl_Hostnames = [], wl_HWIDs = []\<rparr>"

definition dec_whitelist :: "whitelist decoder" where
  "dec_whitelist = dec_struct
     [(''hostnames'', fld dec_strings wl_Hostnames wl_Hostnames_update),
      (''hwids'', fld dec_strings wl_HWIDs wl_HWIDs_update)]"

definition zero_host_integrity :: host_integrity where
  "zero_host_integrity = \<lparr>hi_Enabled = False, hi_Whitelist = zero_whitelist\<rparr>"

definition dec_host_integrity :: "host_integrity decoder" where
  "dec_host_integrity = dec_struct
     [(''enabled'', fld dec_bool hi_Enabled hi_Enabled_update),
      (''whitelist'', fld dec_whitelist hi_Whitelist hi_Whitelist_update)]"

definition zero_control_updater :: control_updater where
  "zero_control_updater = \<lparr>cu_Enabled = False, cu_Reason = None, cu_Until = None\<rparr>"

definition dec_control_updater :: "control_updater decoder" where
  "dec_control_updater = dec_struct
     [(''enabled'', fld dec_bool cu_Enabled cu_Enabled_update),
      (''reason'', fld (dec_ptr [] dec_string) cu_Reason cu_Reason_update),
      (''until'', fld (dec_ptr [] dec_string) cu_Until cu_Until_update)]"

definition zero_control_app :: control_app where
  "zero_control_app = \<lparr>ca_Enabled = False, ca_Mode = [], ca_Reason = None, ca_Until = None\<rparr>"

definition dec_control_app :: "control_app decoder" where
  "dec_control_app = dec_struct
     [(''enabled'', fld dec_bool ca_Enabled ca_Enabled_update),
      (''mode'', fld dec_string ca_Mode ca_Mode_update),
      (''reason'', fld (dec_ptr [] dec_string) ca_Reason ca_Reason_update),
      (''until'', fld (dec_ptr [] dec_string) ca_Until ca_Until_update)]"

definition zero_control :: control where
  "zero_control = \<lparr>co_Updater = zero_control_updater, co_App = zero_control_app\<rparr>"

definition dec_control :: "control decoder" where
  "dec_control = dec_struct
     [(''updater'', fld dec_control_updater co_Updater co_Updater_update),
      (''app'', fld dec_control_app co_App co_App_update)]"

definition zero_critical_warning :: critical_warning where
  "zero_critical_warning = \<lparr>cw_Enabled = False, cw_Seconds = 0\<rparr>"

definition dec_critical_warning :: "critical_warning decoder" where
  "dec_critical_warning = dec_struct
     [(''enabled'', fld dec_bool cw_Enabled cw_Enabled_update),
      (''seconds'', fld dec_int cw_Seconds cw_Seconds_update)]"

definition zero_dc_lookup_retry :: dc_lookup_retry where
  "zero_dc_lookup_retry = \<lparr>dr_Attempts = 0, dr_DelaySeconds = 0\<rparr>"

definition dec_dc_lookup_retry :: "dc_lookup_retry decoder" where
  "dec_dc_lookup_retry = dec_struct
     [(''attempts'', fld dec_int dr_Attempts dr_Attempts_update),
      (''delaySeconds'', fld dec_int dr_DelaySeconds dr_DelaySeconds_update)]"

definition zero_resolver_settings :: resolver_settings where
  "zero_resolver_settings = \<lparr>rs_Attempts = 0, rs_BaseBackoffSeconds = 0\<rparr>"

definition dec_resolver_settings :: "resolver_settings decoder" where
  "dec_resolver_settings = dec_struct
     [(''attempts'', fld dec_int rs_Attempts rs_Attempts_update),
      (''baseBackoffSeconds'', fld dec_int rs_BaseBackoffSeconds rs_BaseBackoffSeconds_update)]"

definition zero_toggle :: toggle where
  "zero_toggle = \<lparr>tg_Enabled = False\<rparr>"

definition dec_toggle :: "toggle decoder" where
  "dec_toggle = dec_struct [(''enabled'', fld dec_bool tg_Enabled tg_Enabled_update)]"

definition zero_updater_settings :: updater_settings where
  "zero_updater_settings =
     \<lparr>us_PollIntervalMinutes = 0, us_ChannelOverride = None, us_CriticalWarning = zero_critical_warning,
      us_DCLookupRetry = zero_dc_lookup_retry, us_Resolver = zero_resolver_settings,
      us_SelfUpdate = zero_toggle, us_InstallCertificate = zero_toggle\<rparr>"

definition dec_updater_settings :: "updater_settings decoder" where
  "dec_updater_settings = dec_struct
     [(''pollIntervalMinutes'', fld dec_int us_PollIntervalMinutes us_PollIntervalMinutes_update),
      (''channelOverride'', fld (dec_ptr [] dec_string) us_ChannelOverride us_ChannelOverride_update),
      (''criticalWarning'', fld dec_critical_warning us_CriticalWarning us_CriticalWarning_update),
      (''dcLookupRetry'', fld dec_dc_lookup_retry us_DCLookupRetry us_DCLookupRetry_update),
      (''resolver'', fld dec_resolver_settings us_Resolver us_Resolver_update),
      (''selfUpdate'', fld dec_toggle us_SelfUpdate us_SelfUpdate_update),
      (''installCertificate'', fld dec_toggle us_InstallCertificate us_InstallCertificate_update)]"

definition zero_logging_settings :: logging_settings where
  "zero_logging_settings =
     \<lparr>lg_Level = [], lg_MaxSizeMB = 0, lg_Backups = 0, lg_Compress = False, lg_EventLog = False\<rparr>"

definition dec_logging_settings :: "logging_settings decoder" where
  "dec_logging_settings = dec_struct
     [(''level'', fld dec_string lg_Level lg_Level_update),
      (''maxSizeMB'', fld dec_int lg_MaxSizeMB lg_MaxSizeMB_update),
      (''backups'', fld dec_int lg_Backups lg_Backups_update),
      (''compress'', fld dec_bool lg_Compress lg_Compress_update),
      (''eventLog'', fld dec_bool lg_EventLog lg_EventLog_update)]"

definition zero_clientws_settings :: clientws_settings where
  "zero_clientws_settings = \<lparr>cs_Enabled = False, cs_Commands = []\<rparr>"

definition dec_clientws_settings :: "clientws_settings decoder" where
  "dec_clientws_settings = dec_struct
     [(''enabled'', fld dec_bool cs_Enabled cs_Enabled_update),
      (''commands'', fld dec_strings cs_Commands cs_Commands_update)]"

definition zero_selector :: selector where
  "zero_selector =
     \<lparr>sl_All = False, sl_HWIDs = [], sl_Hostnames = [], sl_DCs = [], sl_Subnets = [], sl_Domains = []\<rparr>"

definition dec_selector :: "selector decoder" where
  "dec_selector = dec_struct
     [(''all'', fld dec_bool sl_All sl_All_update),
      (''hwids'', fld dec_strings sl_HWIDs sl_HWIDs_update),
      (''hostnames'', fld dec_strings sl_Hostnames sl_Hostnames_update),
      (''dcs'', fld dec_strings sl_DCs sl_DCs_update),
      (''subnets'', fld dec_strings sl_Subnets sl_Subnets_update),
      (''domains'', fld dec_strings sl_Domains sl_Domains_update)]"

text \<open>A \<^verbatim>\<open>map[string]any\<close> whose nil is told apart from the empty map.\<close>

definition dec_patch :: "json gomap option decoder" where
  "dec_patch j cur =
     (case j of
        JNull \<Rightarrow> Some None
      | JObj m \<Rightarrow> map_option Some
          (dec_map_entries JNull dec_any m (case cur of None \<Rightarrow> [] | Some c \<Rightarrow> c))
      | _ \<Rightarrow> None)"

definition zero_override :: override where
  "zero_override =
     \<lparr>ov_ID = [], ov_Match = zero_selector, ov_Except = None, ov_Until = None, ov_Patch = None\<rparr>"

definition dec_override :: "override decoder" where
  "dec_override = dec_struct
     [(''id'', fld dec_string ov_ID ov_ID_update),
      (''match'', fld dec_selector ov_Match ov_Match_update),
      (''except'', fld (dec_ptr zero_selector dec_selector) ov_Except ov_Except_update),
      (''until'', fld (dec_ptr [] dec_string) ov_Until ov_Until_update),
      (''patch'', fld dec_patch ov_Patch ov_Patch_update)]"

definition zero_document :: document where
  "zero_document =
     \<lparr>d_SchemaVersion = 0, d_Revision = 0, d_GeneratedAt = [], d_Refresh = zero_refresh, d_Servers = [],
      d_DefaultServer = [], d_IPCProtocol = zero_ipc_protocol, d_DCLookupMap = [],
      d_HostIntegrity = zero_host_integrity, d_Control = zero_control, d_Updater = zero_updater_settings,
      d_Logging = zero_logging_settings, d_ClientWS = zero_clientws_settings, d_Overrides = []\<rparr>"

definition document_fields :: "document fields" where
  "document_fields =
     [(''schemaVersion'', fld dec_int d_SchemaVersion d_SchemaVersion_update),
      (''revision'', fld dec_int d_Revision d_Revision_update),
      (''generatedAt'', fld dec_string d_GeneratedAt d_GeneratedAt_update),
      (''refresh'', fld dec_refresh d_Refresh d_Refresh_update),
      (''servers'', fld (dec_map [] dec_string) d_Servers d_Servers_update),
      (''defaultServer'', fld dec_string d_DefaultServer d_DefaultServer_update),
      (''ipcProtocol'', fld dec_ipc_protocol d_IPCProtocol d_IPCProtocol_update),
      (''dcLookupMap'', fld (dec_map zero_site dec_site) d_DCLookupMap d_DCLookupMap_update),
      (''hostIntegrity'', fld dec_host_integrity d_HostIntegrity d_HostIntegrity_update),
      (''control'', fld dec_control d_Control d_Control_update),
      (''updater'', fld dec_updater_settings d_Updater d_Updater_update),
      (''logging'', fld dec_logging_settings d_Logging d_Logging_update),
      (''clientWs'', fld dec_clientws_settings d_ClientWS d_ClientWS_update),
      (''overrides'', fld (dec_slice zero_override dec_override) d_Overrides d_Overrides_update)]"

definition dec_document :: "document decoder" where
  "dec_document = dec_struct document_fields"

text \<open>
  \<^verbatim>\<open>decode\<close>: marshal, which writes the keys of every map in sorted order, and
  unmarshal into the typed document.
\<close>

definition decode :: "json gomap \<Rightarrow> document option" where
  "decode m = dec_document (canon (JObj m)) zero_document"

section \<open>Encoders\<close>

definition enc_refresh :: "refresh \<Rightarrow> json" where
  "enc_refresh r = JObj [(''intervalMinutes'', JInt (rf_IntervalMinutes r)),
     (''staleAfterDays'', JInt (rf_StaleAfterDays r))]"

definition enc_version_range :: "version_range \<Rightarrow> json" where
  "enc_version_range r = JObj [(''min'', enc_ptr JStr (vr_Min r)), (''max'', enc_ptr JStr (vr_Max r))]"

definition enc_ipc_version :: "ipc_version \<Rightarrow> json" where
  "enc_ipc_version v = JObj [(''updater'', enc_version_range (iv_Updater v)),
     (''emly'', enc_version_range (iv_EMLy v)), (''enabled'', enc_ptr JBool (iv_Enabled v))]"

definition enc_ipc_protocol :: "ipc_protocol \<Rightarrow> json" where
  "enc_ipc_protocol p = JObj [(''versions'', enc_map enc_ipc_version (ip_Versions p)),
     (''defaultVersion'', JInt (ip_DefaultVersion p))]"

definition enc_site :: "site \<Rightarrow> json" where
  "enc_site s = JObj [(''internalSubnets'', enc_slice JStr (st_InternalSubnets s)),
     (''baseServer'', JStr (st_BaseServer s)), (''backupServer'', enc_slice JStr (st_BackupServer s)),
     (''enabled'', enc_ptr JBool (st_Enabled s))]"

definition enc_whitelist :: "whitelist \<Rightarrow> json" where
  "enc_whitelist w = JObj [(''hostnames'', enc_slice JStr (wl_Hostnames w)),
     (''hwids'', enc_slice JStr (wl_HWIDs w))]"

definition enc_host_integrity :: "host_integrity \<Rightarrow> json" where
  "enc_host_integrity h = JObj [(''enabled'', JBool (hi_Enabled h)),
     (''whitelist'', enc_whitelist (hi_Whitelist h))]"

definition enc_control_updater :: "control_updater \<Rightarrow> json" where
  "enc_control_updater c = JObj [(''enabled'', JBool (cu_Enabled c)),
     (''reason'', enc_ptr JStr (cu_Reason c)), (''until'', enc_ptr JStr (cu_Until c))]"

definition enc_control_app :: "control_app \<Rightarrow> json" where
  "enc_control_app c = JObj [(''enabled'', JBool (ca_Enabled c)), (''mode'', JStr (ca_Mode c)),
     (''reason'', enc_ptr JStr (ca_Reason c)), (''until'', enc_ptr JStr (ca_Until c))]"

definition enc_control :: "control \<Rightarrow> json" where
  "enc_control c = JObj [(''updater'', enc_control_updater (co_Updater c)),
     (''app'', enc_control_app (co_App c))]"

definition enc_critical_warning :: "critical_warning \<Rightarrow> json" where
  "enc_critical_warning c = JObj [(''enabled'', JBool (cw_Enabled c)), (''seconds'', JInt (cw_Seconds c))]"

definition enc_dc_lookup_retry :: "dc_lookup_retry \<Rightarrow> json" where
  "enc_dc_lookup_retry d = JObj [(''attempts'', JInt (dr_Attempts d)),
     (''delaySeconds'', JInt (dr_DelaySeconds d))]"

definition enc_resolver_settings :: "resolver_settings \<Rightarrow> json" where
  "enc_resolver_settings r = JObj [(''attempts'', JInt (rs_Attempts r)),
     (''baseBackoffSeconds'', JInt (rs_BaseBackoffSeconds r))]"

definition enc_toggle :: "toggle \<Rightarrow> json" where
  "enc_toggle t = JObj [(''enabled'', JBool (tg_Enabled t))]"

definition enc_updater_settings :: "updater_settings \<Rightarrow> json" where
  "enc_updater_settings u = JObj
     [(''pollIntervalMinutes'', JInt (us_PollIntervalMinutes u)),
      (''channelOverride'', enc_ptr JStr (us_ChannelOverride u)),
      (''criticalWarning'', enc_critical_warning (us_CriticalWarning u)),
      (''dcLookupRetry'', enc_dc_lookup_retry (us_DCLookupRetry u)),
      (''resolver'', enc_resolver_settings (us_Resolver u)),
      (''selfUpdate'', enc_toggle (us_SelfUpdate u)),
      (''installCertificate'', enc_toggle (us_InstallCertificate u))]"

definition enc_logging_settings :: "logging_settings \<Rightarrow> json" where
  "enc_logging_settings l = JObj
     [(''level'', JStr (lg_Level l)), (''maxSizeMB'', JInt (lg_MaxSizeMB l)),
      (''backups'', JInt (lg_Backups l)), (''compress'', JBool (lg_Compress l)),
      (''eventLog'', JBool (lg_EventLog l))]"

definition enc_clientws_settings :: "clientws_settings \<Rightarrow> json" where
  "enc_clientws_settings c = JObj [(''enabled'', JBool (cs_Enabled c)),
     (''commands'', enc_slice JStr (cs_Commands c))]"

text \<open>
  \<^verbatim>\<open>toMap\<close> of a document that has no overrides (the key is deleted by its only
  caller right after).
\<close>

definition enc_selector :: "selector \<Rightarrow> json" where
  "enc_selector s =
     JObj [(''all'', JBool (sl_All s)), (''hwids'', enc_slice JStr (sl_HWIDs s)),
           (''hostnames'', enc_slice JStr (sl_Hostnames s)), (''dcs'', enc_slice JStr (sl_DCs s)),
           (''subnets'', enc_slice JStr (sl_Subnets s)), (''domains'', enc_slice JStr (sl_Domains s))]"

definition enc_override :: "override \<Rightarrow> json" where
  "enc_override o1 =
     JObj [(''id'', JStr (ov_ID o1)), (''match'', enc_selector (ov_Match o1)),
           (''except'', enc_ptr enc_selector (ov_Except o1)), (''until'', enc_ptr JStr (ov_Until o1)),
           (''patch'', enc_ptr JObj (ov_Patch o1))]"

definition enc_document :: "document \<Rightarrow> json gomap" where
  "enc_document d =
     [(''schemaVersion'', JInt (d_SchemaVersion d)), (''revision'', JInt (d_Revision d)),
      (''generatedAt'', JStr (d_GeneratedAt d)), (''refresh'', enc_refresh (d_Refresh d)),
      (''servers'', enc_map JStr (d_Servers d)), (''defaultServer'', JStr (d_DefaultServer d)),
      (''ipcProtocol'', enc_ipc_protocol (d_IPCProtocol d)),
      (''dcLookupMap'', enc_map enc_site (d_DCLookupMap d)),
      (''hostIntegrity'', enc_host_integrity (d_HostIntegrity d)),
      (''control'', enc_control (d_Control d)), (''updater'', enc_updater_settings (d_Updater d)),
      (''logging'', enc_logging_settings (d_Logging d)),
      (''clientWs'', enc_clientws_settings (d_ClientWS d)), (''overrides'', enc_slice enc_override (d_Overrides d))]"

section \<open>Round trips\<close>

lemma dec_scalar [simp]:
  "dec_string (JStr s) c = Some s" "dec_bool (JBool b) c' = Some b" "in_int64 n \<Longrightarrow> dec_int (JInt n) c'' = Some n"
  by (simp_all add: dec_defs)

lemma canon_enc_ptr [simp]:
  "canon (enc_ptr JStr p) = enc_ptr JStr p" "canon (enc_ptr JBool b) = enc_ptr JBool b"
  by (cases p; simp add: enc_ptr_def) (cases b; simp add: enc_ptr_def)

lemma canon_enc_strs [simp]: "canon (enc_slice JStr xs) = enc_slice JStr xs"
  by (simp add: enc_slice_def)

lemma dec_enc_ptr [simp]:
  "dec_ptr [] dec_string (enc_ptr JStr p) None = Some p"
  "dec_ptr False dec_bool (enc_ptr JBool b) None = Some b"
  by (cases p; simp add: enc_ptr_def dec_defs) (cases b; simp add: enc_ptr_def dec_defs)

lemmas struct_eval = dec_struct_def find_field_def fld_def

text \<open>The integer fields of a section hold 64-bit values.\<close>

definition ints_refresh :: "refresh \<Rightarrow> bool" where
  "ints_refresh r \<longleftrightarrow> in_int64 (rf_IntervalMinutes r) \<and> in_int64 (rf_StaleAfterDays r)"

definition ints_updater_settings :: "updater_settings \<Rightarrow> bool" where
  "ints_updater_settings u \<longleftrightarrow>
     in_int64 (us_PollIntervalMinutes u) \<and> in_int64 (cw_Seconds (us_CriticalWarning u)) \<and>
     in_int64 (dr_Attempts (us_DCLookupRetry u)) \<and> in_int64 (dr_DelaySeconds (us_DCLookupRetry u)) \<and>
     in_int64 (rs_Attempts (us_Resolver u)) \<and> in_int64 (rs_BaseBackoffSeconds (us_Resolver u))"

definition ints_logging_settings :: "logging_settings \<Rightarrow> bool" where
  "ints_logging_settings l \<longleftrightarrow> in_int64 (lg_MaxSizeMB l) \<and> in_int64 (lg_Backups l)"

lemma refresh_roundtrip:
  "ints_refresh r \<Longrightarrow> dec_refresh (canon (enc_refresh r)) zero_refresh = Some r"
  by (simp add: enc_refresh_def dec_refresh_def zero_refresh_def struct_eval ints_refresh_def)

lemma version_range_roundtrip:
  "dec_version_range (canon (enc_version_range r)) zero_version_range = Some r"
  by (simp add: enc_version_range_def dec_version_range_def zero_version_range_def struct_eval)

lemma ipc_version_roundtrip:
  "dec_ipc_version (canon (enc_ipc_version v)) zero_ipc_version = Some v"
  by (simp add: enc_ipc_version_def dec_ipc_version_def zero_ipc_version_def struct_eval version_range_roundtrip)

lemma site_roundtrip: "dec_site (canon (enc_site s)) zero_site = Some s"
  by (simp add: enc_site_def dec_site_def zero_site_def struct_eval)

lemma whitelist_roundtrip: "dec_whitelist (canon (enc_whitelist w)) zero_whitelist = Some w"
  by (simp add: enc_whitelist_def dec_whitelist_def zero_whitelist_def struct_eval)

lemma host_integrity_roundtrip:
  "dec_host_integrity (canon (enc_host_integrity h)) zero_host_integrity = Some h"
  by (simp add: enc_host_integrity_def dec_host_integrity_def zero_host_integrity_def struct_eval whitelist_roundtrip)

lemma control_updater_roundtrip:
  "dec_control_updater (canon (enc_control_updater c)) zero_control_updater = Some c"
  by (simp add: enc_control_updater_def dec_control_updater_def zero_control_updater_def struct_eval)

lemma control_app_roundtrip: "dec_control_app (canon (enc_control_app c)) zero_control_app = Some c"
  by (simp add: enc_control_app_def dec_control_app_def zero_control_app_def struct_eval)

lemma control_roundtrip: "dec_control (canon (enc_control c)) zero_control = Some c"
  by (simp add: enc_control_def dec_control_def zero_control_def struct_eval
      control_updater_roundtrip control_app_roundtrip)

lemma critical_warning_roundtrip:
  "in_int64 (cw_Seconds c) \<Longrightarrow>
   dec_critical_warning (canon (enc_critical_warning c)) zero_critical_warning = Some c"
  by (simp add: enc_critical_warning_def dec_critical_warning_def zero_critical_warning_def struct_eval)

lemma dc_lookup_retry_roundtrip:
  "in_int64 (dr_Attempts d) \<Longrightarrow> in_int64 (dr_DelaySeconds d) \<Longrightarrow>
   dec_dc_lookup_retry (canon (enc_dc_lookup_retry d)) zero_dc_lookup_retry = Some d"
  by (simp add: enc_dc_lookup_retry_def dec_dc_lookup_retry_def zero_dc_lookup_retry_def struct_eval)

lemma resolver_settings_roundtrip:
  "in_int64 (rs_Attempts r) \<Longrightarrow> in_int64 (rs_BaseBackoffSeconds r) \<Longrightarrow>
   dec_resolver_settings (canon (enc_resolver_settings r)) zero_resolver_settings = Some r"
  by (simp add: enc_resolver_settings_def dec_resolver_settings_def zero_resolver_settings_def struct_eval)

lemma toggle_roundtrip: "dec_toggle (canon (enc_toggle t)) zero_toggle = Some t"
  by (simp add: enc_toggle_def dec_toggle_def zero_toggle_def struct_eval)

lemma updater_settings_roundtrip:
  "ints_updater_settings u \<Longrightarrow>
   dec_updater_settings (canon (enc_updater_settings u)) zero_updater_settings = Some u"
  by (simp add: enc_updater_settings_def dec_updater_settings_def zero_updater_settings_def struct_eval
      ints_updater_settings_def critical_warning_roundtrip dc_lookup_retry_roundtrip
      resolver_settings_roundtrip toggle_roundtrip)

lemma logging_settings_roundtrip:
  "ints_logging_settings l \<Longrightarrow>
   dec_logging_settings (canon (enc_logging_settings l)) zero_logging_settings = Some l"
  by (simp add: enc_logging_settings_def dec_logging_settings_def zero_logging_settings_def struct_eval
      ints_logging_settings_def)

lemma clientws_settings_roundtrip:
  "dec_clientws_settings (canon (enc_clientws_settings c)) zero_clientws_settings = Some c"
  by (simp add: enc_clientws_settings_def dec_clientws_settings_def zero_clientws_settings_def struct_eval)

text \<open>The compiled-in IPC matrix comes back with its versions in key order.\<close>

lemma ipc_protocol_roundtrip:
  assumes "wf_map (ip_Versions p)" "in_int64 (ip_DefaultVersion p)"
  shows "dec_ipc_protocol (canon (enc_ipc_protocol p)) zero_ipc_protocol =
         Some (p\<lparr>ip_Versions := sort_key fst (ip_Versions p)\<rparr>)"
proof -
  have "roundtrips dec_ipc_version zero_ipc_version enc_ipc_version (\<lambda>_. True)"
    by (simp add: roundtrips_def ipc_version_roundtrip)
  from dec_map_enc [OF this assms(1)] show ?thesis
    by (simp add: enc_ipc_protocol_def dec_ipc_protocol_def zero_ipc_protocol_def struct_eval assms)
qed

lemma servers_roundtrip:
  "wf_map m \<Longrightarrow> dec_map [] dec_string (canon (enc_map JStr m)) [] = Some (sort_key fst m)"
  by (rule dec_map_enc [OF roundtrips_string])

lemma sites_roundtrip:
  "wf_map m \<Longrightarrow> dec_map zero_site dec_site (canon (enc_map enc_site m)) [] = Some (sort_key fst m)"
  by (rule dec_map_enc) (simp_all add: roundtrips_def site_roundtrip)

section \<open>Fields of a decoded document\<close>

lemma document_field_of:
  "field_of document_fields ''revision'' d_Revision dec_int"
  "field_of document_fields ''generatedAt'' d_GeneratedAt dec_string"
  "field_of document_fields ''refresh'' d_Refresh dec_refresh"
  "field_of document_fields ''servers'' d_Servers (dec_map [] dec_string)"
  "field_of document_fields ''defaultServer'' d_DefaultServer dec_string"
  "field_of document_fields ''ipcProtocol'' d_IPCProtocol dec_ipc_protocol"
  "field_of document_fields ''dcLookupMap'' d_DCLookupMap (dec_map zero_site dec_site)"
  "field_of document_fields ''hostIntegrity'' d_HostIntegrity dec_host_integrity"
  "field_of document_fields ''control'' d_Control dec_control"
  "field_of document_fields ''updater'' d_Updater dec_updater_settings"
  "field_of document_fields ''logging'' d_Logging dec_logging_settings"
  "field_of document_fields ''clientWs'' d_ClientWS dec_clientws_settings"
  "field_of document_fields ''overrides'' d_Overrides (dec_slice zero_override dec_override)"
  by (auto simp: field_of_def document_fields_def fld_def)

lemma canon_JObj_eq: "canon (JObj m) = JObj (sort_key fst (map (\<lambda>(k, v). (k, canon v)) m))"
  by simp

text \<open>
  When every key of the generic document is a field name, a field is decoded from
  the entry of its name, or keeps its zero value.
\<close>

lemma decode_field:
  assumes f: "field_of document_fields k get h"
    and dec: "decode m = Some doc" and sub: "keys m \<subseteq> keys document_fields" and wf: "wf_map m"
  shows "(case map_of m k of None \<Rightarrow> Some (get zero_document) | Some v \<Rightarrow> h (canon v) (get zero_document)) =
         Some (get doc)"
proof -
  let ?m = "sort_key fst (map (\<lambda>(k, v). (k, canon v)) m)"
  have wf': "wf_map (map (\<lambda>(k, v). (k, canon v)) m)" using wf by (simp add: wf_map_canon_entries)
  have "keys ?m \<subseteq> keys document_fields" using sub by (simp add: image_image case_prod_unfold)
  moreover have "wf_map ?m" using wf' by simp
  moreover have "dec_struct document_fields (JObj ?m) zero_document = Some doc"
    using dec unfolding decode_def dec_document_def canon_JObj_eq .
  ultimately have "(case map_of ?m k of None \<Rightarrow> Some (get zero_document) | Some v \<Rightarrow> h v (get zero_document)) = Some (get doc)"
    by (rule dec_struct_field [OF f])
  moreover have "map_of ?m k = map_option canon (map_of m k)"
    using wf' by (simp add: map_of_sort_key map_of_canon_entries)
  ultimately show ?thesis by (cases "map_of m k") auto
qed

end
