(* ===== verification/Manifest.thy ===== *)
theory Manifest
  imports Decode GoLib
begin

text \<open>
  \<^verbatim>\<open>internal/manifest\<close> (\<^verbatim>\<open>manifest.go\<close>, \<^verbatim>\<open>updater.go\<close>) and \<^verbatim>\<open>ResolveTarget\<close> of
  \<^verbatim>\<open>internal/source/http.go\<close>: EMLy's update manifest and the updater's own, the
  channel rule, the forced rule, and the checksum every installable target carries.
\<close>

section \<open>Versions\<close>

datatype manifest_error =
    InvalidVersion string
  | InvalidJSON
  | MissingStable
  | NoChannelTarget string
  | NoChecksum string
  | NoDownloadURL string

text \<open>\<^verbatim>\<open>Less\<close>: whether version \<open>a\<close> is strictly older than \<open>b\<close>; either may not parse.\<close>

definition Less :: "golib \<Rightarrow> string \<Rightarrow> string \<Rightarrow> manifest_error + bool" where
  "Less L a b =
     (if \<not> NewVersion_ok L a then Inl (InvalidVersion a)
      else if \<not> NewVersion_ok L b then Inl (InvalidVersion b)
      else Inr (LessThan L a b))"

lemma Less_Inr_iff: "Less L a b = Inr r \<longleftrightarrow> NewVersion_ok L a \<and> NewVersion_ok L b \<and> r = LessThan L a b"
  by (auto simp: Less_def)

lemma Less_irrefl: "version_order L \<Longrightarrow> Less L a a \<noteq> Inr True"
  by (auto simp: Less_Inr_iff version_order_def)

lemma Less_asym: "version_order L \<Longrightarrow> Less L a b = Inr True \<Longrightarrow> Less L b a = Inr False"
  unfolding Less_Inr_iff version_order_def by blast

section \<open>EMLy's manifest\<close>

record detailed_note =
  dn_SeverityType :: string
  dn_Description :: "string gomap"

record manifest =
  m_StableVersion :: string
  m_BetaVersion :: string
  m_StableDownload :: string
  m_BetaDownload :: string
  m_IsCritical :: bool
  m_MinRequiredVersion :: string
  m_SHA256Checksums :: "string gomap"
  m_ReleaseNotes :: "string gomap"
  m_DetailedReleaseNotes :: "detailed_note gomap"

record target =
  t_Version :: string
  t_DownloadRef :: string
  t_SHA256 :: string

definition zero_detailed_note :: detailed_note where
  "zero_detailed_note = \<lparr>dn_SeverityType = [], dn_Description = []\<rparr>"

definition dec_detailed_note :: "detailed_note decoder" where
  "dec_detailed_note = dec_struct
     [(''severityType'', fld dec_string dn_SeverityType dn_SeverityType_update),
      (''description'', fld (dec_map [] dec_string) dn_Description dn_Description_update)]"

definition zero_manifest :: manifest where
  "zero_manifest =
     \<lparr>m_StableVersion = [], m_BetaVersion = [], m_StableDownload = [], m_BetaDownload = [],
      m_IsCritical = False, m_MinRequiredVersion = [], m_SHA256Checksums = [], m_ReleaseNotes = [],
      m_DetailedReleaseNotes = []\<rparr>"

definition dec_manifest :: "manifest decoder" where
  "dec_manifest = dec_struct
     [(''stableVersion'', fld dec_string m_StableVersion m_StableVersion_update),
      (''betaVersion'', fld dec_string m_BetaVersion m_BetaVersion_update),
      (''stableDownload'', fld dec_string m_StableDownload m_StableDownload_update),
      (''betaDownload'', fld dec_string m_BetaDownload m_BetaDownload_update),
      (''isCritical'', fld dec_bool m_IsCritical m_IsCritical_update),
      (''minRequiredVersion'', fld dec_string m_MinRequiredVersion m_MinRequiredVersion_update),
      (''sha256Checksums'', fld (dec_map [] dec_string) m_SHA256Checksums m_SHA256Checksums_update),
      (''releaseNotes'', fld (dec_map [] dec_string) m_ReleaseNotes m_ReleaseNotes_update),
      (''detailedReleaseNotes'',
         fld (dec_map zero_detailed_note dec_detailed_note) m_DetailedReleaseNotes m_DetailedReleaseNotes_update)]"

text \<open>\<^verbatim>\<open>bytes.TrimPrefix\<close> of a UTF-8 byte order mark.\<close>

definition BOM :: string where
  "BOM = [CHR 0xEF, CHR 0xBB, CHR 0xBF]"

definition trim_bom :: "string \<Rightarrow> string" where
  "trim_bom data = (if HasPrefix data BOM then drop 3 data else data)"

definition Parse_manifest :: "golib \<Rightarrow> string \<Rightarrow> manifest_error + manifest" where
  "Parse_manifest L data =
     (case ParseJSON L (trim_bom data) of
        None \<Rightarrow> Inl InvalidJSON
      | Some j \<Rightarrow> (case dec_manifest j zero_manifest of
          None \<Rightarrow> Inl InvalidJSON
        | Some m \<Rightarrow>
            if m_StableVersion m = [] \<or> m_StableDownload m = [] then Inl MissingStable else Inr m))"

definition ChannelVersion :: "golib \<Rightarrow> manifest \<Rightarrow> string \<Rightarrow> manifest_error + (string \<times> string)" where
  "ChannelVersion L m channel =
     (if channel \<noteq> ''beta'' then
        (if m_StableVersion m = [] \<or> m_StableDownload m = [] then Inl (NoChannelTarget channel)
         else Inr (m_StableVersion m, m_StableDownload m))
      else if m_BetaVersion m = [] \<or> m_BetaDownload m = [] then Inl (NoChannelTarget channel)
      else if m_StableVersion m \<noteq> [] \<and> m_StableDownload m \<noteq> [] then
        (case Less L (m_BetaVersion m) (m_StableVersion m) of
           Inl e \<Rightarrow> Inl e
         | Inr True \<Rightarrow> Inr (m_StableVersion m, m_StableDownload m)
         | Inr False \<Rightarrow> Inr (m_BetaVersion m, m_BetaDownload m))
      else Inr (m_BetaVersion m, m_BetaDownload m))"

definition Forced :: "golib \<Rightarrow> manifest \<Rightarrow> string \<Rightarrow> manifest_error + bool" where
  "Forced L m installed =
     (if m_IsCritical m then Inr True
      else if m_MinRequiredVersion m = [] then Inr False
      else Less L installed (m_MinRequiredVersion m))"

definition ResolveTarget :: "golib \<Rightarrow> manifest \<Rightarrow> string \<Rightarrow> manifest_error + target" where
  "ResolveTarget L m channel =
     (case ChannelVersion L m channel of
        Inl e \<Rightarrow> Inl e
      | Inr (version, downloadURL) \<Rightarrow>
          (case map_of (m_SHA256Checksums m) version of
             None \<Rightarrow> Inl (NoChecksum version)
           | Some sha \<Rightarrow>
               if sha = [] then Inl (NoChecksum version)
               else Inr \<lparr>t_Version = version, t_DownloadRef = downloadURL, t_SHA256 = sha\<rparr>))"

section \<open>The updater's own manifest\<close>

record updater_manifest =
  um_Version :: string
  um_Download :: string
  um_SHA256 :: string
  um_Size :: int
  um_PublishedAt :: string
  um_ReleaseNotes :: "string gomap"

definition zero_updater_manifest :: updater_manifest where
  "zero_updater_manifest =
     \<lparr>um_Version = [], um_Download = [], um_SHA256 = [], um_Size = 0, um_PublishedAt = [], um_ReleaseNotes = []\<rparr>"

definition dec_updater_manifest :: "updater_manifest decoder" where
  "dec_updater_manifest = dec_struct
     [(''version'', fld dec_string um_Version um_Version_update),
      (''download'', fld dec_string um_Download um_Download_update),
      (''sha256'', fld dec_string um_SHA256 um_SHA256_update),
      (''size'', fld dec_int um_Size um_Size_update),
      (''publishedAt'', fld dec_string um_PublishedAt um_PublishedAt_update),
      (''releaseNotes'', fld (dec_map [] dec_string) um_ReleaseNotes um_ReleaseNotes_update)]"

definition ParseUpdater :: "golib \<Rightarrow> string \<Rightarrow> manifest_error + updater_manifest" where
  "ParseUpdater L data =
     (case ParseJSON L (trim_bom data) of
        None \<Rightarrow> Inl InvalidJSON
      | Some j \<Rightarrow> (case dec_updater_manifest j zero_updater_manifest of
          None \<Rightarrow> Inl InvalidJSON
        | Some m0 \<Rightarrow>
            (let m = m0\<lparr>um_Version := TrimSpace (um_Version m0),
                        um_Download := TrimSpace (um_Download m0),
                        um_SHA256 := TrimSpace (um_SHA256 m0)\<rparr>
             in if um_Version m = [] then Inr m
                else if um_Download m = [] then Inl (NoDownloadURL (um_Version m))
                else if um_SHA256 m = [] then Inl (NoChecksum (um_Version m))
                else Inr m)))"

text \<open>\<^verbatim>\<open>Offered\<close> is called on a pointer that may be nil.\<close>

definition Offered :: "updater_manifest option \<Rightarrow> bool" where
  "Offered m = (case m of None \<Rightarrow> False | Some m \<Rightarrow> um_Version m \<noteq> [])"

definition um_Target :: "updater_manifest \<Rightarrow> target" where
  "um_Target m = \<lparr>t_Version = um_Version m, t_DownloadRef = um_Download m, t_SHA256 = um_SHA256 m\<rparr>"

definition Notes :: "updater_manifest \<Rightarrow> string \<Rightarrow> string" where
  "Notes m lang =
     (case map_of (um_ReleaseNotes m) lang of
        Some (c # note) \<Rightarrow> c # note
      | _ \<Rightarrow> (case map_of (um_ReleaseNotes m) ''en'' of
          Some (c # note) \<Rightarrow> c # note
        | _ \<Rightarrow> (case find (\<lambda>kv. snd kv \<noteq> []) (um_ReleaseNotes m) of
            Some (_, note) \<Rightarrow> note
          | None \<Rightarrow> [])))"

section \<open>Lemmas\<close>

lemma ChannelVersion_stable:
  "channel \<noteq> ''beta'' \<Longrightarrow> ChannelVersion L m channel = Inr (v, d) \<Longrightarrow>
   v = m_StableVersion m \<and> d = m_StableDownload m"
  by (auto simp: ChannelVersion_def split: if_splits)

lemma ChannelVersion_pair:
  "ChannelVersion L m channel = Inr (v, d) \<Longrightarrow>
   v \<noteq> [] \<and> d \<noteq> [] \<and>
   (v = m_StableVersion m \<and> d = m_StableDownload m \<or> v = m_BetaVersion m \<and> d = m_BetaDownload m)"
  by (auto simp: ChannelVersion_def split: if_splits sum.splits bool.splits)

lemma ChannelVersion_not_behind_stable:
  assumes "version_order L" "ChannelVersion L m channel = Inr (v, d)"
    "m_StableVersion m \<noteq> []" "m_StableDownload m \<noteq> []"
  shows "Less L v (m_StableVersion m) \<noteq> Inr True"
  using assms Less_irrefl [of L "m_StableVersion m"]
  by (auto simp: ChannelVersion_def split: if_splits sum.splits bool.splits)

text \<open>
  A target the updater may install always carries a checksum: \<^verbatim>\<open>ResolveTarget\<close>
  succeeds only with the non-empty SHA-256 the manifest lists for exactly the version
  it returns, the version and the download reference come from the same channel of the
  manifest, any channel other than beta gets the stable release, and on no channel
  is the target older than the manifest's stable release.
\<close>

theorem ResolveTarget_checked:
  assumes "version_order L" "ResolveTarget L m channel = Inr t"
    and "m_StableVersion m \<noteq> []" "m_StableDownload m \<noteq> []"
  shows "t_SHA256 t \<noteq> [] \<and> map_of (m_SHA256Checksums m) (t_Version t) = Some (t_SHA256 t) \<and>
    ((t_Version t, t_DownloadRef t) = (m_StableVersion m, m_StableDownload m) \<or>
     channel = ''beta'' \<and> (t_Version t, t_DownloadRef t) = (m_BetaVersion m, m_BetaDownload m)) \<and>
    Less L (t_Version t) (m_StableVersion m) \<noteq> Inr True"
proof -
  obtain v d sha where *: "ChannelVersion L m channel = Inr (v, d)"
    "map_of (m_SHA256Checksums m) v = Some sha" "sha \<noteq> []"
    "t = \<lparr>t_Version = v, t_DownloadRef = d, t_SHA256 = sha\<rparr>"
    using assms(2) by (auto simp: ResolveTarget_def split: sum.splits option.splits if_splits)
  with assms ChannelVersion_pair [OF *(1)] ChannelVersion_stable [OF _ *(1)]
    ChannelVersion_not_behind_stable [OF _ *(1)]
  show ?thesis by auto
qed

end
