(* ===== verification/PolicyParse.thy ===== *)
theory PolicyParse
  imports PolicyDoc Manifest
begin

text \<open>
  \<^verbatim>\<open>internal/policy/parse.go\<close>: validation of a remote configuration document and the
  defaults it falls back to. A document is accepted whole or rejected with every
  problem found; the theorems say what an accepted document guarantees to the code
  that uses it without checking again.
\<close>

section \<open>Problems\<close>

text \<open>One constructor per message of the source, with the value it quotes.\<close>

datatype (plugins only: code size) message =
    TooLarge nat
  | InvalidDocJSON
  | DocumentIsNull
  | Required
  | BadSchemaVersion json
  | TypeMismatch
  | MustBeList
  | MustBeObject
  | DuplicateID string
  | NotTimestamp
  | NotPatchable
  | NotAllowedHere
  | MustBeTrue
  | MustBeOnlyKey
  | NeedsNonEmptyList
  | NotCIDR string
  | NotIPv4 string
  | MustBeNonNegative
  | AtLeastOneServer
  | EmptyServerName
  | NotAURL
  | BadScheme
  | MissingHost
  | HasQueryOrFragment
  | EndsWithSlash
  | UnknownServer string
  | VersionKeyNotPositive
  | NotSemver
  | NotAListedVersion
  | DisabledVersion
  | EmptyDCName
  | SameDCAs string
  | AtLeastOneCIDR
  | BadAppMode
  | MustBePositive
  | BadChannel
  | MustBeBetween int int
  | BadLogLevel
  | UnknownCommand string

record problem =
  p_Path :: string
  p_Message :: message

definition Problem :: "string \<Rightarrow> message \<Rightarrow> problem" where
  "Problem path msg = \<lparr>p_Path = path, p_Message = msg\<rparr>"

definition prefix_problems :: "string \<Rightarrow> problem list \<Rightarrow> problem list" where
  "prefix_problems path ps = map (\<lambda>p. Problem (path @ p_Path p) (p_Message p)) ps"

section \<open>Defaults and the parsed document\<close>

record defaults =
  df_Refresh :: refresh
  df_Control :: control
  df_Updater :: updater_settings
  df_Logging :: logging_settings
  df_ClientWS :: clientws_settings
  df_IPCProtocol :: ipc_protocol

text \<open>\<^verbatim>\<open>toMap\<close> of the defaults.\<close>

definition enc_defaults :: "defaults \<Rightarrow> json gomap" where
  "enc_defaults d =
     [(''refresh'', enc_refresh (df_Refresh d)), (''control'', enc_control (df_Control d)),
      (''updater'', enc_updater_settings (df_Updater d)), (''logging'', enc_logging_settings (df_Logging d)),
      (''clientWs'', enc_clientws_settings (df_ClientWS d)),
      (''ipcProtocol'', enc_ipc_protocol (df_IPCProtocol d))]"

record parsed =
  pd_Global :: document
  pd_raw :: "json gomap"
  pd_defaults :: "json gomap"
  pd_legacyManifestURLs :: "string gomap"

section \<open>Completing and decoding\<close>

definition asInt :: "json \<Rightarrow> int option" where
  "asInt v = (case v of JInt n \<Rightarrow> (if in_int64 n then Some n else None) | _ \<Rightarrow> None)"

definition topologyKeys :: "string list" where
  "topologyKeys = [''schemaVersion'', ''revision'', ''generatedAt'', ''servers'', ''defaultServer'',
     ''dcLookupMap'', ''hostIntegrity'']"

definition copyKeys :: "json gomap \<Rightarrow> string list \<Rightarrow> json gomap" where
  "copyKeys raw ks = foldl (\<lambda>out k.
     case map_of raw k of
       Some v \<Rightarrow> if v \<noteq> JNull then AList.update k (cloneValue v) out else out
     | None \<Rightarrow> out) [] ks"

definition fillMissing :: "string \<Rightarrow> json \<Rightarrow> json gomap \<Rightarrow> json gomap" where
  "fillMissing k v out = (if has_key out k then out else AList.update k v out)"

definition mergedSection :: "json gomap \<Rightarrow> json gomap \<Rightarrow> string \<Rightarrow> json" where
  "mergedSection defs raw k =
     (case map_of raw k of
        Some (JObj m) \<Rightarrow> mergePatch (jentry defs k) (stripNulls (JObj m))
      | _ \<Rightarrow> cloneValue (jentry defs k))"

definition complete :: "json gomap \<Rightarrow> json gomap \<Rightarrow> json gomap" where
  "complete defs raw =
     (let out = copyKeys raw topologyKeys;
          out = fillMissing ''dcLookupMap'' (JObj []) out;
          out = fillMissing ''hostIntegrity'' (JObj [(''enabled'', JBool False)]) out;
          out = AList.update ''ipcProtocol''
            (case map_of raw ''ipcProtocol'' of
               Some v \<Rightarrow> if v \<noteq> JNull then cloneValue v else cloneValue (jentry defs ''ipcProtocol'')
             | None \<Rightarrow> cloneValue (jentry defs ''ipcProtocol'')) out
      in foldl (\<lambda>out k. AList.update k (mergedSection defs raw k) out) out mergedSections)"

definition build :: "json gomap \<Rightarrow> json gomap \<Rightarrow> problem list + document" where
  "build defs global =
     (case decode (complete defs global) of
        None \<Rightarrow> Inl [Problem ''/'' TypeMismatch]
      | Some doc \<Rightarrow> Inr doc)"

section \<open>Field validators\<close>

definition validServerURL :: "golib \<Rightarrow> string \<Rightarrow> message option" where
  "validServerURL L raw =
     (case ParseURL L raw of
        None \<Rightarrow> Some NotAURL
      | Some u \<Rightarrow>
          if u_Scheme u \<noteq> ''http'' \<and> u_Scheme u \<noteq> ''https'' then Some BadScheme
          else if u_Host u = [] then Some MissingHost
          else if u_RawQuery u \<noteq> [] \<or> u_Fragment u \<noteq> [] then Some HasQueryOrFragment
          else if HasSuffix (u_Path u) ''/'' then Some EndsWithSlash
          else None)"

definition validCIDR :: "golib \<Rightarrow> string \<Rightarrow> message option" where
  "validCIDR L c =
     (case ParseCIDR L (TrimSpace c) of
        None \<Rightarrow> Some (NotCIDR c)
      | Some (IPv4 _, _) \<Rightarrow> None
      | Some (IPv6 _, _) \<Rightarrow> Some (NotIPv4 c))"

definition validVersion :: "golib \<Rightarrow> string \<Rightarrow> bool" where
  "validVersion L v = (case Less L v v of Inl _ \<Rightarrow> False | Inr _ \<Rightarrow> True)"

definition hostLabel :: "string \<Rightarrow> string" where
  "hostLabel name = fst (Cut (CHR ''.'') (TrimSpace name))"

definition SameDCName :: "string \<Rightarrow> string \<Rightarrow> bool" where
  "SameDCName a b = EqualFold (hostLabel a) (hostLabel b)"

definition check_msg :: "string \<Rightarrow> message option \<Rightarrow> problem list" where
  "check_msg path r = (case r of None \<Rightarrow> [] | Some msg \<Rightarrow> [Problem path msg])"

definition check_until :: "golib \<Rightarrow> string \<Rightarrow> string option \<Rightarrow> problem list" where
  "check_until L path u =
     (case u of
        None \<Rightarrow> []
      | Some t \<Rightarrow> if ParseRFC3339 L t = None then [Problem path NotTimestamp] else [])"

section \<open>Selectors and overrides\<close>

definition check_subnets :: "golib \<Rightarrow> string \<Rightarrow> string list \<Rightarrow> problem list" where
  "check_subnets L path cs =
     concat (map (\<lambda>(i, c). check_msg (path @ ''/'' @ Itoa (int i)) (validCIDR L c)) (enumerate 0 cs))"

definition validateSelector :: "golib \<Rightarrow> selector \<Rightarrow> json \<Rightarrow> string \<Rightarrow> bool \<Rightarrow> problem list" where
  "validateSelector L s raw path allowAll =
     (case raw of
        JObj m \<Rightarrow>
          (let present = filter (\<lambda>kv. snd kv \<noteq> JNull) m;
               rest = (if list_all (\<lambda>l. l = []) [sl_HWIDs s, sl_Hostnames s, sl_DCs s, sl_Domains s, sl_Subnets s]
                       then [Problem path NeedsNonEmptyList] else [])
                      @ check_subnets L (path @ ''/subnets'') (sl_Subnets s)
           in case map_of present ''all'' of
                None \<Rightarrow> rest
              | Some allRaw \<Rightarrow>
                  if \<not> allowAll then [Problem (path @ ''/all'') NotAllowedHere]
                  else if allRaw \<noteq> JBool True then [Problem (path @ ''/all'') MustBeTrue]
                  else if length present > 1 then [Problem (path @ ''/all'') MustBeOnlyKey]
                  else [])
      | _ \<Rightarrow> [Problem path MustBeObject])"

text \<open>
  The checks of one override: \<open>m\<close> is its raw object, \<open>o\<close> its typed form. A non-null
  \<^verbatim>\<open>except\<close> key is what \<^verbatim>\<open>o.Except\<close> was decoded from.
\<close>

definition checkOverride :: "golib \<Rightarrow> string set \<Rightarrow> string \<Rightarrow> json gomap \<Rightarrow> override \<Rightarrow> problem list" where
  "checkOverride L seen path m ov =
     (if ov_ID ov = [] then [Problem (path @ ''/id'') Required]
      else if ov_ID ov \<in> seen then [Problem (path @ ''/id'') (DuplicateID (ov_ID ov))] else []) @
     (case map_of m ''match'' of
        None \<Rightarrow> [Problem (path @ ''/match'') Required]
      | Some mt \<Rightarrow> validateSelector L (ov_Match ov) mt (path @ ''/match'') True) @
     (case map_of m ''except'' of
        None \<Rightarrow> []
      | Some ex \<Rightarrow>
          if ex = JNull then []
          else validateSelector L (case ov_Except ov of Some s \<Rightarrow> s | None \<Rightarrow> zero_selector)
            ex (path @ ''/except'') False) @
     check_until L (path @ ''/until'') (ov_Until ov) @
     (case ov_Patch ov of
        None \<Rightarrow> [Problem (path @ ''/patch'') Required]
      | Some patch \<Rightarrow>
          map (\<lambda>(k, _). Problem (path @ ''/patch/'' @ k) NotPatchable)
            (filter (\<lambda>(k, _). k \<notin> set PatchableSections) patch))"

fun parseOverrideList :: "golib \<Rightarrow> nat \<Rightarrow> string set \<Rightarrow> json list \<Rightarrow> override list \<times> problem list" where
  "parseOverrideList L i seen [] = ([], [])"
| "parseOverrideList L i seen (item # items) =
     (let path = ''/overrides/'' @ Itoa (int i)
      in case item of
           JObj m \<Rightarrow>
             (case dec_override (canon (JObj m)) zero_override of
                None \<Rightarrow>
                  (let (os, ps) = parseOverrideList L (Suc i) seen items
                   in (os, Problem path TypeMismatch # ps))
              | Some ov \<Rightarrow>
                  (let (os, ps) = parseOverrideList L (Suc i) (insert (ov_ID ov) seen) items
                   in (ov # os, checkOverride L seen path m ov @ ps)))
         | _ \<Rightarrow>
             (let (os, ps) = parseOverrideList L (Suc i) seen items
              in (os, Problem path MustBeObject # ps)))"

definition parseOverrides :: "golib \<Rightarrow> json \<Rightarrow> override list \<times> problem list" where
  "parseOverrides L raw =
     (case raw of
        JNull \<Rightarrow> ([], [])
      | JArr items \<Rightarrow> parseOverrideList L 0 {} items
      | _ \<Rightarrow> ([], [Problem ''/overrides'' MustBeList]))"

section \<open>The document\<close>

text \<open>\<^verbatim>\<open>validateDocument\<close> clamps the refresh interval instead of refusing it.\<close>

definition clampRefresh :: "document \<Rightarrow> document" where
  "clampRefresh d =
     (if rf_IntervalMinutes (d_Refresh d) < 1 then d\<lparr>d_Refresh := (d_Refresh d)\<lparr>rf_IntervalMinutes := 1\<rparr>\<rparr>
      else if rf_IntervalMinutes (d_Refresh d) > 1440
      then d\<lparr>d_Refresh := (d_Refresh d)\<lparr>rf_IntervalMinutes := 1440\<rparr>\<rparr>
      else d)"

definition serverRef :: "document \<Rightarrow> string \<Rightarrow> string \<Rightarrow> problem list" where
  "serverRef d path name =
     (if name = [] then [Problem path Required]
      else if \<not> has_key (d_Servers d) name then [Problem path (UnknownServer name)] else [])"

definition check_remote :: "golib \<Rightarrow> document \<Rightarrow> problem list" where
  "check_remote L d =
     (if d_Revision d < 0 then [Problem ''/revision'' MustBeNonNegative] else []) @
     (if d_GeneratedAt d = [] then [Problem ''/generatedAt'' Required]
      else if ParseRFC3339 L (d_GeneratedAt d) = None then [Problem ''/generatedAt'' NotTimestamp] else [])"

definition check_servers :: "golib \<Rightarrow> document \<Rightarrow> problem list" where
  "check_servers L d =
     (if d_Servers d = [] then [Problem ''/servers'' AtLeastOneServer] else []) @
     concat (map (\<lambda>(name, raw).
       if name = [] then [Problem ''/servers'' EmptyServerName]
       else check_msg (''/servers/'' @ name) (validServerURL L raw)) (d_Servers d)) @
     serverRef d ''/defaultServer'' (d_DefaultServer d)"

definition check_bound :: "golib \<Rightarrow> string \<Rightarrow> string option \<Rightarrow> problem list" where
  "check_bound L path b =
     (case b of None \<Rightarrow> [] | Some v \<Rightarrow> if validVersion L v then [] else [Problem path NotSemver])"

definition check_ipc :: "golib \<Rightarrow> document \<Rightarrow> problem list" where
  "check_ipc L d =
     concat (map (\<lambda>(key, v).
       (let path = ''/ipcProtocol/versions/'' @ key in
        (case Atoi key of
           None \<Rightarrow> [Problem path VersionKeyNotPositive]
         | Some n \<Rightarrow> if n \<le> 0 then [Problem path VersionKeyNotPositive] else []) @
        check_bound L (path @ ''/updater/min'') (vr_Min (iv_Updater v)) @
        check_bound L (path @ ''/updater/max'') (vr_Max (iv_Updater v)) @
        check_bound L (path @ ''/emly/min'') (vr_Min (iv_EMLy v)) @
        check_bound L (path @ ''/emly/max'') (vr_Max (iv_EMLy v)))) (ip_Versions (d_IPCProtocol d))) @
     (case map_of (ip_Versions (d_IPCProtocol d)) (Itoa (ip_DefaultVersion (d_IPCProtocol d))) of
        None \<Rightarrow> [Problem ''/ipcProtocol/defaultVersion'' NotAListedVersion]
      | Some dv \<Rightarrow>
          if ipc_version_IsEnabled dv then [] else [Problem ''/ipcProtocol/defaultVersion'' DisabledVersion])"

definition check_site :: "golib \<Rightarrow> document \<Rightarrow> string gomap \<Rightarrow> string \<Rightarrow> site \<Rightarrow> problem list" where
  "check_site L d seenDC name s =
     (let path = ''/dcLookupMap/'' @ name; label = ToLower (hostLabel name) in
      (if label = [] then [Problem path EmptyDCName]
       else case map_of seenDC label of
              Some prev \<Rightarrow> [Problem path (SameDCAs prev)]
            | None \<Rightarrow> []) @
      (if st_InternalSubnets s = [] then [Problem (path @ ''/internalSubnets'') AtLeastOneCIDR] else []) @
      check_subnets L (path @ ''/internalSubnets'') (st_InternalSubnets s) @
      serverRef d (path @ ''/baseServer'') (st_BaseServer s) @
      concat (map (\<lambda>(i, b). serverRef d (path @ ''/backupServer/'' @ Itoa (int i)) b)
        (enumerate 0 (st_BackupServer s))))"

fun check_sites :: "golib \<Rightarrow> document \<Rightarrow> string gomap \<Rightarrow> site gomap \<Rightarrow> problem list" where
  "check_sites L d seenDC [] = []"
| "check_sites L d seenDC ((name, s) # sites) =
     check_site L d seenDC name s @
     check_sites L d (AList.update (ToLower (hostLabel name)) name seenDC) sites"

definition check_control :: "golib \<Rightarrow> control \<Rightarrow> problem list" where
  "check_control L c =
     check_until L ''/control/updater/until'' (cu_Until (co_Updater c)) @
     check_until L ''/control/app/until'' (ca_Until (co_App c)) @
     (if ca_Mode (co_App c) \<in> {AppModeNormal, AppModeReadOnly, AppModeMaintenance} then []
      else [Problem ''/control/app/mode'' BadAppMode])"

definition check_updater :: "updater_settings \<Rightarrow> problem list" where
  "check_updater up =
     (if us_PollIntervalMinutes up < 1 then [Problem ''/updater/pollIntervalMinutes'' MustBePositive] else []) @
     (if us_Channel up \<noteq> [] \<and> us_Channel up \<noteq> ''stable'' \<and> us_Channel up \<noteq> ''beta''
      then [Problem ''/updater/channelOverride'' BadChannel] else []) @
     (if cw_Seconds (us_CriticalWarning up) < 0
      then [Problem ''/updater/criticalWarning/seconds'' MustBeNonNegative] else []) @
     (if dr_Attempts (us_DCLookupRetry up) < 0 \<or> dr_Attempts (us_DCLookupRetry up) > 60
      then [Problem ''/updater/dcLookupRetry/attempts'' (MustBeBetween 0 60)] else []) @
     (if dr_DelaySeconds (us_DCLookupRetry up) < 0 \<or> dr_DelaySeconds (us_DCLookupRetry up) > 300
      then [Problem ''/updater/dcLookupRetry/delaySeconds'' (MustBeBetween 0 300)] else []) @
     (if rs_Attempts (us_Resolver up) < 1
      then [Problem ''/updater/resolver/attempts'' MustBePositive] else []) @
     (if rs_BaseBackoffSeconds (us_Resolver up) < 0
      then [Problem ''/updater/resolver/baseBackoffSeconds'' MustBeNonNegative] else [])"

definition check_logging :: "logging_settings \<Rightarrow> problem list" where
  "check_logging lg =
     (if lg_Level lg \<in> {''debug'', ''info'', ''warn'', ''error''} then []
      else [Problem ''/logging/level'' BadLogLevel]) @
     (if lg_MaxSizeMB lg < 1 \<or> lg_MaxSizeMB lg > 100
      then [Problem ''/logging/maxSizeMB'' (MustBeBetween 1 100)] else []) @
     (if lg_Backups lg < 0 \<or> lg_Backups lg > 50
      then [Problem ''/logging/backups'' (MustBeBetween 0 50)] else [])"

definition check_commands :: "clientws_settings \<Rightarrow> problem list" where
  "check_commands c =
     concat (map (\<lambda>(i, name).
       if name \<in> set knownClientWSCommands then []
       else [Problem (''/clientWs/commands/'' @ Itoa (int i)) (UnknownCommand name)])
       (enumerate 0 (cs_Commands c)))"

text \<open>
  The document with its interval clamped, and the problems sorted by path with a
  stable sort.
\<close>

definition validateDocument :: "golib \<Rightarrow> document \<Rightarrow> bool \<Rightarrow> document \<times> problem list" where
  "validateDocument L d0 remote =
     (let d = clampRefresh d0 in
      (d, sort_key p_Path
         ((if remote then check_remote L d else []) @
          (if rf_StaleAfterDays (d_Refresh d) < 0
           then [Problem ''/refresh/staleAfterDays'' MustBeNonNegative] else []) @
          check_servers L d @ check_ipc L d @ check_sites L d [] (d_DCLookupMap d) @
          check_control L (d_Control d) @ check_updater (d_Updater d) @ check_logging (d_Logging d) @
          check_commands (d_ClientWS d))))"

section \<open>Dry run and \<^verbatim>\<open>Parse\<close>\<close>

definition patch_json :: "override \<Rightarrow> json" where
  "patch_json ov = JObj (case ov_Patch ov of None \<Rightarrow> [] | Some m \<Rightarrow> m)"

definition buildProblems :: "golib \<Rightarrow> json gomap \<Rightarrow> json gomap \<Rightarrow> problem list" where
  "buildProblems L defs global =
     (case build defs global of Inl ps \<Rightarrow> ps | Inr doc \<Rightarrow> snd (validateDocument L doc True))"

definition applyPatch :: "json gomap \<Rightarrow> override \<Rightarrow> json gomap" where
  "applyPatch raw ov = obj_entries (mergePatch (JObj raw) (patch_json ov))"

definition dryRunOverrides :: "golib \<Rightarrow> json gomap \<Rightarrow> json gomap \<Rightarrow> override list \<Rightarrow> problem list" where
  "dryRunOverrides L defs raw ovs =
     (let ps = concat (map (\<lambda>(i, ov).
            prefix_problems (''/overrides/'' @ Itoa (int i) @ ''/patch'')
              (buildProblems L defs (applyPatch raw ov))) (enumerate 0 ovs))
      in if length ovs > 1 \<and> ps = []
         then prefix_problems ''/overrides'' (buildProblems L defs (foldl applyPatch raw ovs))
         else ps)"

text \<open>
  \<^verbatim>\<open>Parse\<close> of the document's bytes. The order of the problems is the source's: the
  global document's, then the overrides', then the dry run's.
\<close>

definition Parse_policy :: "golib \<Rightarrow> string \<Rightarrow> defaults \<Rightarrow> problem list + parsed" where
  "Parse_policy L data defs =
     (if length data > MaxDocumentSize then Inl [Problem ''/'' (TooLarge (length data))]
      else case ParseJSON L data of
        Some (JObj raw) \<Rightarrow>
          (case map_of raw ''schemaVersion'' of
             None \<Rightarrow> Inl [Problem ''/schemaVersion'' Required]
           | Some sv \<Rightarrow>
               if asInt sv \<noteq> Some SchemaVersion then Inl [Problem ''/schemaVersion'' (BadSchemaVersion sv)]
               else
                 (let defMap = enc_defaults defs;
                      global = AList.delete ''overrides'' (obj_entries (cloneValue (JObj raw)));
                      (ovs, ops) = parseOverrides L (jentry raw ''overrides'')
                  in case build defMap global of
                       Inl bps \<Rightarrow> Inl (bps @ ops)
                     | Inr doc0 \<Rightarrow>
                         (let (doc, vps) = validateDocument L doc0 True;
                              ps = vps @ ops;
                              ps = (if ps = [] then dryRunOverrides L defMap global ovs else ps)
                          in if ps \<noteq> [] then Inl ps
                             else Inr \<lparr>pd_Global = doc\<lparr>d_Overrides := ovs\<rparr>, pd_raw = global,
                                       pd_defaults = defMap, pd_legacyManifestURLs = []\<rparr>)))
      | Some JNull \<Rightarrow> Inl [Problem ''/'' DocumentIsNull]
      | _ \<Rightarrow> Inl [Problem ''/'' InvalidDocJSON])"

section \<open>What validation accepts\<close>

text \<open>
  The rules of the document, stated as a predicate: \<open>document_valid\<close> is the contract
  the rest of the program relies on, and \<open>validateDocument_accepts_iff\<close> shows the
  checks implement exactly it.
\<close>

definition dc_label :: "string \<Rightarrow> string" where
  "dc_label name = ToLower (hostLabel name)"

definition server_known :: "document \<Rightarrow> string \<Rightarrow> bool" where
  "server_known d name \<longleftrightarrow> name \<noteq> [] \<and> name \<in> keys (d_Servers d)"

definition until_ok :: "golib \<Rightarrow> string option \<Rightarrow> bool" where
  "until_ok L u \<longleftrightarrow> (\<forall>t. u = Some t \<longrightarrow> ParseRFC3339 L t \<noteq> None)"

definition site_valid :: "golib \<Rightarrow> document \<Rightarrow> string \<times> site \<Rightarrow> bool" where
  "site_valid L d ns \<longleftrightarrow>
     dc_label (fst ns) \<noteq> [] \<and> st_InternalSubnets (snd ns) \<noteq> [] \<and>
     (\<forall>c \<in> set (st_InternalSubnets (snd ns)). validCIDR L c = None) \<and>
     server_known d (st_BaseServer (snd ns)) \<and>
     (\<forall>b \<in> set (st_BackupServer (snd ns)). server_known d b)"

definition bound_ok :: "golib \<Rightarrow> string option \<Rightarrow> bool" where
  "bound_ok L b \<longleftrightarrow> (\<forall>v. b = Some v \<longrightarrow> NewVersion_ok L v)"

definition ipc_valid :: "golib \<Rightarrow> ipc_protocol \<Rightarrow> bool" where
  "ipc_valid L p \<longleftrightarrow>
     (\<forall>(key, v) \<in> set (ip_Versions p).
        (\<exists>n. Atoi key = Some n \<and> n > 0) \<and>
        bound_ok L (vr_Min (iv_Updater v)) \<and> bound_ok L (vr_Max (iv_Updater v)) \<and>
        bound_ok L (vr_Min (iv_EMLy v)) \<and> bound_ok L (vr_Max (iv_EMLy v))) \<and>
     (\<exists>v. map_of (ip_Versions p) (Itoa (ip_DefaultVersion p)) = Some v \<and> ipc_version_IsEnabled v)"

definition updater_valid :: "updater_settings \<Rightarrow> bool" where
  "updater_valid u \<longleftrightarrow>
     us_PollIntervalMinutes u \<ge> 1 \<and> us_Channel u \<in> {[], ''stable'', ''beta''} \<and>
     cw_Seconds (us_CriticalWarning u) \<ge> 0 \<and>
     dr_Attempts (us_DCLookupRetry u) \<in> {0..60} \<and> dr_DelaySeconds (us_DCLookupRetry u) \<in> {0..300} \<and>
     rs_Attempts (us_Resolver u) \<ge> 1 \<and> rs_BaseBackoffSeconds (us_Resolver u) \<ge> 0"

definition logging_valid :: "logging_settings \<Rightarrow> bool" where
  "logging_valid l \<longleftrightarrow>
     lg_Level l \<in> {''debug'', ''info'', ''warn'', ''error''} \<and> lg_MaxSizeMB l \<in> {1..100} \<and>
     lg_Backups l \<in> {0..50}"

definition document_valid :: "golib \<Rightarrow> bool \<Rightarrow> document \<Rightarrow> bool" where
  "document_valid L remote d \<longleftrightarrow>
     (remote \<longrightarrow> d_Revision d \<ge> 0 \<and> d_GeneratedAt d \<noteq> [] \<and> ParseRFC3339 L (d_GeneratedAt d) \<noteq> None) \<and>
     rf_StaleAfterDays (d_Refresh d) \<ge> 0 \<and>
     d_Servers d \<noteq> [] \<and> (\<forall>(n, u) \<in> set (d_Servers d). n \<noteq> [] \<and> validServerURL L u = None) \<and>
     server_known d (d_DefaultServer d) \<and>
     ipc_valid L (d_IPCProtocol d) \<and>
     (\<forall>ns \<in> set (d_DCLookupMap d). site_valid L d ns) \<and>
     distinct (map (dc_label \<circ> fst) (d_DCLookupMap d)) \<and>
     until_ok L (cu_Until (co_Updater (d_Control d))) \<and> until_ok L (ca_Until (co_App (d_Control d))) \<and>
     ca_Mode (co_App (d_Control d)) \<in> {AppModeNormal, AppModeReadOnly, AppModeMaintenance} \<and>
     updater_valid (d_Updater d) \<and> logging_valid (d_Logging d) \<and>
     set (cs_Commands (d_ClientWS d)) \<subseteq> set knownClientWSCommands"

lemma enumerate_all:
  "(\<forall>ix \<in> set (enumerate n xs). P (snd ix)) \<longleftrightarrow> (\<forall>x \<in> set xs. P x)"
  by (metis (no_types, lifting) imageE imageI map_snd_enumerate set_map)

lemma serverRef_Nil_iff [simp]: "serverRef d path name = [] \<longleftrightarrow> server_known d name"
  by (simp add: serverRef_def server_known_def has_key_iff)

lemma check_msg_Nil_iff [simp]: "check_msg path r = [] \<longleftrightarrow> r = None"
  by (simp add: check_msg_def split: option.splits)

lemma check_until_Nil_iff [simp]: "check_until L path u = [] \<longleftrightarrow> until_ok L u"
  by (simp add: check_until_def until_ok_def split: option.splits)

lemma check_subnets_Nil_iff [simp]:
  "check_subnets L path cs = [] \<longleftrightarrow> (\<forall>c \<in> set cs. validCIDR L c = None)"
  using enumerate_all [of 0 cs "\<lambda>c. validCIDR L c = None"]
  by (simp add: check_subnets_def case_prod_unfold)

lemma check_bound_Nil_iff [simp]: "check_bound L path b = [] \<longleftrightarrow> bound_ok L b"
  by (auto simp: check_bound_def bound_ok_def validVersion_def Less_def split: option.splits)

lemma check_backups_Nil_iff [simp]:
  "(\<forall>x \<in> set (enumerate 0 bs). server_known d (snd x)) \<longleftrightarrow> (\<forall>b \<in> set bs. server_known d b)"
  by (rule enumerate_all)

lemma check_site_Nil_iff:
  "check_site L d seen name s = [] \<longleftrightarrow> site_valid L d (name, s) \<and> dc_label name \<notin> keys seen"
proof -
  have seen: "(if l = [] then [Problem q EmptyDCName] else case map_of seen l of Some prev \<Rightarrow> [Problem p (SameDCAs prev)] | None \<Rightarrow> []) = [] \<longleftrightarrow>
      l \<noteq> [] \<and> l \<notin> keys seen" for l p q
    by (cases "map_of seen l") (auto simp: map_of_eq_None_iff [symmetric])
  show ?thesis
    by (simp only: check_site_def site_valid_def dc_label_def Let_def append_is_Nil_conv seen
        fst_conv snd_conv check_subnets_Nil_iff serverRef_Nil_iff)
       (auto simp del: ToLower_Nil_iff simp: case_prod_unfold)
qed

lemma keys_update [simp]: "keys (AList.update k v m) = insert k (keys m)"
  by (simp add: dom_update)

lemma check_sites_Nil_iff:
  "check_sites L d seen sites = [] \<longleftrightarrow>
     (\<forall>ns \<in> set sites. site_valid L d ns) \<and> distinct (map (dc_label \<circ> fst) sites) \<and>
     (\<forall>ns \<in> set sites. dc_label (fst ns) \<notin> keys seen)"
proof (induction sites arbitrary: seen)
  case (Cons ns sites)
  obtain n s where ns: "ns = (n, s)" by (cases ns)
  let ?seen = "AList.update (ToLower (hostLabel n)) n seen"
  have label: "ToLower (hostLabel n) = dc_label n" by (simp add: dc_label_def)
  have "check_sites L d seen (ns # sites) = [] \<longleftrightarrow>
        check_site L d seen n s = [] \<and> check_sites L d ?seen sites = []"
    by (simp add: ns)
  also have "\<dots> \<longleftrightarrow> (site_valid L d ns \<and> dc_label n \<notin> keys seen) \<and>
      (\<forall>ns \<in> set sites. site_valid L d ns) \<and> distinct (map (dc_label \<circ> fst) sites) \<and>
      (\<forall>ns \<in> set sites. dc_label (fst ns) \<noteq> dc_label n \<and> dc_label (fst ns) \<notin> keys seen)"
    by (simp only: check_site_Nil_iff Cons.IH ns keys_update insert_iff de_Morgan_disj label)
  finally have step: "check_sites L d seen (ns # sites) = [] \<longleftrightarrow> \<dots>" .
  have fst: "fst ns = n" by (simp add: ns)
  show ?case unfolding step by (simp add: fst o_def image_iff) (rule iffI; force)
qed simp

lemma check_servers_Nil_iff:
  "check_servers L d = [] \<longleftrightarrow>
     d_Servers d \<noteq> [] \<and> (\<forall>(n, u) \<in> set (d_Servers d). n \<noteq> [] \<and> validServerURL L u = None) \<and>
     server_known d (d_DefaultServer d)"
  by (auto simp: check_servers_def split: if_splits)

lemma check_ipc_Nil_iff: "check_ipc L d = [] \<longleftrightarrow> ipc_valid L (d_IPCProtocol d)"
proof -
  have key: "(case Atoi key of None \<Rightarrow> [Problem path VersionKeyNotPositive]
      | Some n \<Rightarrow> if n \<le> 0 then [Problem path VersionKeyNotPositive] else []) = [] \<longleftrightarrow>
      (\<exists>n. Atoi key = Some n \<and> n > 0)" for key path
    by (cases "Atoi key") auto
  show ?thesis
    by (simp add: check_ipc_def ipc_valid_def Let_def case_prod_unfold key split: option.splits)
qed

lemma check_updater_Nil_iff: "check_updater u = [] \<longleftrightarrow> updater_valid u"
  by (auto simp: check_updater_def updater_valid_def)

lemma check_logging_Nil_iff: "check_logging l = [] \<longleftrightarrow> logging_valid l"
  by (auto simp: check_logging_def logging_valid_def)

lemma check_commands_Nil_iff: "check_commands c = [] \<longleftrightarrow> set (cs_Commands c) \<subseteq> set knownClientWSCommands"
  using enumerate_all [of 0 "cs_Commands c" "\<lambda>n. n \<in> set knownClientWSCommands"]
  by (auto simp: check_commands_def case_prod_unfold)

lemma sort_key_Nil_iff [simp]: "sort_key f xs = [] \<longleftrightarrow> xs = []"
  by (metis length_0_conv length_sort)

lemma clampRefresh_keeps [simp]:
  "d_Servers (clampRefresh d) = d_Servers d" "d_DefaultServer (clampRefresh d) = d_DefaultServer d"
  "d_DCLookupMap (clampRefresh d) = d_DCLookupMap d" "d_IPCProtocol (clampRefresh d) = d_IPCProtocol d"
  "d_Control (clampRefresh d) = d_Control d" "d_Updater (clampRefresh d) = d_Updater d"
  "d_Logging (clampRefresh d) = d_Logging d" "d_ClientWS (clampRefresh d) = d_ClientWS d"
  "d_Revision (clampRefresh d) = d_Revision d" "d_GeneratedAt (clampRefresh d) = d_GeneratedAt d"
  "d_SchemaVersion (clampRefresh d) = d_SchemaVersion d" "d_HostIntegrity (clampRefresh d) = d_HostIntegrity d"
  "d_Overrides (clampRefresh d) = d_Overrides d"
  "rf_StaleAfterDays (d_Refresh (clampRefresh d)) = rf_StaleAfterDays (d_Refresh d)"
  by (simp_all add: clampRefresh_def)

lemma clampRefresh_range: "1 \<le> rf_IntervalMinutes (d_Refresh (clampRefresh d)) \<and>
    rf_IntervalMinutes (d_Refresh (clampRefresh d)) \<le> 1440"
  by (simp add: clampRefresh_def)

lemma fst_validateDocument [simp]: "fst (validateDocument L d remote) = clampRefresh d"
  by (simp add: validateDocument_def Let_def)

lemma validateDocument_Nil_iff:
  "snd (validateDocument L d remote) = [] \<longleftrightarrow> document_valid L remote (clampRefresh d)"
  unfolding validateDocument_def document_valid_def Let_def snd_conv sort_key_Nil_iff append_is_Nil_conv
    check_servers_Nil_iff check_ipc_Nil_iff check_sites_Nil_iff check_updater_Nil_iff
    check_logging_Nil_iff check_commands_Nil_iff
  by (auto simp: check_remote_def check_control_def)

section \<open>The completed document\<close>

lemma map_of_copyKeys_aux:
  "map_of (foldl (\<lambda>out k. case map_of raw k of
       Some v \<Rightarrow> if v \<noteq> JNull then AList.update k (cloneValue v) out else out | None \<Rightarrow> out) out ks) k =
   (if k \<in> set ks \<and> jentry raw k \<noteq> JNull then map_of raw k else map_of out k)"
  by (induction ks arbitrary: out) (auto simp: update_conv split: option.splits)

lemma map_of_copyKeys:
  "map_of (copyKeys raw ks) k = (if k \<in> set ks \<and> jentry raw k \<noteq> JNull then map_of raw k else None)"
  by (simp add: copyKeys_def map_of_copyKeys_aux)

lemma wf_copyKeys: "wf_map (copyKeys raw ks)"
proof -
  have "wf_map out \<Longrightarrow> wf_map (foldl (\<lambda>out k. case map_of raw k of
       Some v \<Rightarrow> if v \<noteq> JNull then AList.update k (cloneValue v) out else out | None \<Rightarrow> out) out ks)" for out
    by (induction ks arbitrary: out) (auto simp: wf_map_update split: option.splits)
  then show ?thesis by (simp add: copyKeys_def)
qed

lemma map_of_fillMissing:
  "map_of (fillMissing k v out) k' = (if k' = k \<and> map_of out k = None then Some v else map_of out k')"
  by (auto simp: fillMissing_def has_key_def update_conv)

lemma wf_fillMissing: "wf_map out \<Longrightarrow> wf_map (fillMissing k v out)"
  by (simp add: fillMissing_def wf_map_update)

definition ipcSection :: "json gomap \<Rightarrow> json gomap \<Rightarrow> json" where
  "ipcSection defs raw = (if jentry raw ''ipcProtocol'' = JNull then jentry defs ''ipcProtocol'' else jentry raw ''ipcProtocol'')"

lemma ipcSection_eq:
  "(case map_of raw ''ipcProtocol'' of
      Some v \<Rightarrow> if v \<noteq> JNull then cloneValue v else cloneValue (jentry defs ''ipcProtocol'')
    | None \<Rightarrow> cloneValue (jentry defs ''ipcProtocol'')) = ipcSection defs raw"
  by (auto simp: ipcSection_def split: option.splits)

lemma map_of_complete:
  "map_of (complete defs raw) k =
     (if k \<in> set mergedSections then Some (mergedSection defs raw k)
      else if k = ''ipcProtocol'' then Some (ipcSection defs raw)
      else if k \<in> set topologyKeys \<and> jentry raw k \<noteq> JNull then map_of raw k
      else if k = ''dcLookupMap'' then Some (JObj [])
      else if k = ''hostIntegrity'' then Some (JObj [(''enabled'', JBool False)])
      else None)"
  unfolding complete_def Let_def ipcSection_eq
  by (simp add: mergedSections_def topologyKeys_def update_conv map_of_fillMissing map_of_copyKeys)

lemma wf_complete: "wf_map (complete defs raw)"
  unfolding complete_def Let_def mergedSections_def foldl_Cons foldl_Nil
  by (intro wf_map_update wf_fillMissing wf_copyKeys)

lemma keys_complete: "keys (complete defs raw) \<subseteq> keys document_fields"
proof
  fix k assume "k \<in> keys (complete defs raw)"
  then have "map_of (complete defs raw) k \<noteq> None" by (simp add: map_of_eq_None_iff)
  then have "k \<in> set mergedSections \<or> k = ''ipcProtocol'' \<or> k \<in> set topologyKeys"
    by (auto simp: map_of_complete topologyKeys_def split: if_splits)
  then show "k \<in> keys document_fields"
    by (auto simp: mergedSections_def topologyKeys_def document_fields_def)
qed

lemma build_field:
  assumes "field_of document_fields k get h" "build defs raw = Inr doc"
  shows "(case map_of (complete defs raw) k of None \<Rightarrow> Some (get zero_document)
          | Some v \<Rightarrow> h (canon v) (get zero_document)) = Some (get doc)"
proof -
  have "decode (complete defs raw) = Some doc"
    using assms(2) by (simp add: build_def split: option.splits)
  from decode_field [OF assms(1) this keys_complete wf_complete] show ?thesis .
qed

text \<open>A merged section that is not an object is the default.\<close>

definition no_section :: "json gomap \<Rightarrow> string \<Rightarrow> bool" where
  "no_section raw k = (case map_of raw k of Some (JObj _) \<Rightarrow> False | _ \<Rightarrow> True)"

lemma mergedSection_default: "no_section raw k \<Longrightarrow> mergedSection defs raw k = jentry defs k"
  by (auto simp: no_section_def mergedSection_def split: option.splits json.splits)

lemma zero_document_sections [simp]:
  "d_Refresh zero_document = zero_refresh" "d_Control zero_document = zero_control"
  "d_Updater zero_document = zero_updater_settings" "d_Logging zero_document = zero_logging_settings"
  "d_ClientWS zero_document = zero_clientws_settings" "d_IPCProtocol zero_document = zero_ipc_protocol"
  "d_Servers zero_document = []" "d_DCLookupMap zero_document = []" "d_Overrides zero_document = []"
  "d_HostIntegrity zero_document = zero_host_integrity" "d_DefaultServer zero_document = []"
  "d_Revision zero_document = 0" "d_GeneratedAt zero_document = []"
  by (simp_all add: zero_document_def)

definition defaults_ok :: "defaults \<Rightarrow> bool" where
  "defaults_ok d \<longleftrightarrow> ints_refresh (df_Refresh d) \<and> ints_updater_settings (df_Updater d) \<and>
     ints_logging_settings (df_Logging d) \<and> wf_map (ip_Versions (df_IPCProtocol d)) \<and>
     in_int64 (ip_DefaultVersion (df_IPCProtocol d))"

lemma build_defaults:
  assumes "build (enc_defaults d) raw = Inr doc" "defaults_ok d"
  shows "no_section raw ''refresh'' \<Longrightarrow> d_Refresh doc = df_Refresh d"
    and "no_section raw ''control'' \<Longrightarrow> d_Control doc = df_Control d"
    and "no_section raw ''updater'' \<Longrightarrow> d_Updater doc = df_Updater d"
    and "no_section raw ''logging'' \<Longrightarrow> d_Logging doc = df_Logging d"
    and "no_section raw ''clientWs'' \<Longrightarrow> d_ClientWS doc = df_ClientWS d"
    and "jentry raw ''ipcProtocol'' = JNull \<Longrightarrow>
         d_IPCProtocol doc = (df_IPCProtocol d)\<lparr>ip_Versions := sort_key fst (ip_Versions (df_IPCProtocol d))\<rparr>"
  using assms(2)
    build_field [OF document_field_of(3) assms(1)] build_field [OF document_field_of(9) assms(1)]
    build_field [OF document_field_of(10) assms(1)] build_field [OF document_field_of(11) assms(1)]
    build_field [OF document_field_of(12) assms(1)] build_field [OF document_field_of(6) assms(1)]
  unfolding defaults_ok_def
  by (simp_all add: map_of_complete mergedSection_default mergedSections_def enc_defaults_def ipcSection_def
      refresh_roundtrip control_roundtrip updater_settings_roundtrip logging_settings_roundtrip
      clientws_settings_roundtrip ipc_protocol_roundtrip)

section \<open>What \<^verbatim>\<open>Parse\<close> accepts\<close>

lemma buildProblems_Nil:
  "buildProblems L defs raw = [] \<Longrightarrow> \<exists>doc. build defs raw = Inr doc \<and> document_valid L True (clampRefresh doc)"
  by (auto simp: buildProblems_def build_def validateDocument_Nil_iff split: sum.splits option.splits)

lemma prefix_problems_Nil_iff [simp]: "prefix_problems p ps = [] \<longleftrightarrow> ps = []"
  by (simp add: prefix_problems_def)

lemma dryRunOverrides_Nil:
  assumes "dryRunOverrides L defs raw ovs = []"
  shows "\<forall>ov \<in> set ovs. buildProblems L defs (applyPatch raw ov) = []"
    and "length ovs > 1 \<Longrightarrow> buildProblems L defs (foldl applyPatch raw ovs) = []"
proof -
  let ?ps = "concat (map (\<lambda>(i, ov).
            prefix_problems (''/overrides/'' @ Itoa (int i) @ ''/patch'')
              (buildProblems L defs (applyPatch raw ov))) (enumerate 0 ovs))"
  from assms have nil: "?ps = []"
    unfolding dryRunOverrides_def Let_def by (metis)
  then show "\<forall>ov \<in> set ovs. buildProblems L defs (applyPatch raw ov) = []"
    using enumerate_all [of 0 ovs "\<lambda>ov. buildProblems L defs (applyPatch raw ov) = []"]
    by (simp add: case_prod_unfold)
  show "buildProblems L defs (foldl applyPatch raw ovs) = []" if "length ovs > 1"
    using assms nil that unfolding dryRunOverrides_def Let_def by simp
qed

lemma Parse_policy_Inr:
  assumes "Parse_policy L data defs = Inr p"
  obtains raw doc0 where
    "ParseJSON L data = Some (JObj raw)" "length data \<le> MaxDocumentSize"
    "jentry raw ''schemaVersion'' = JInt 1"
    "pd_raw p = AList.delete ''overrides'' raw" "pd_defaults p = enc_defaults defs"
    "pd_legacyManifestURLs p = []"
    "build (pd_defaults p) (pd_raw p) = Inr doc0"
    "document_valid L True (clampRefresh doc0)"
    "parseOverrides L (jentry raw ''overrides'') = (d_Overrides (pd_Global p), [])"
    "pd_Global p = (clampRefresh doc0)\<lparr>d_Overrides := d_Overrides (pd_Global p)\<rparr>"
    "dryRunOverrides L (pd_defaults p) (pd_raw p) (d_Overrides (pd_Global p)) = []"
proof -
  from assms obtain raw sv where raw: "ParseJSON L data = Some (JObj raw)" "length data \<le> MaxDocumentSize"
    "map_of raw ''schemaVersion'' = Some sv" "asInt sv = Some SchemaVersion"
    by (auto simp: Parse_policy_def split: option.splits json.splits if_splits)
  obtain ovs ops where ovs: "parseOverrides L (jentry raw ''overrides'') = (ovs, ops)" by (cases "parseOverrides L (jentry raw ''overrides'')")
  let ?g = "AList.delete ''overrides'' raw"
  have eq: "Parse_policy L data defs =
     (case build (enc_defaults defs) ?g of
        Inl bps \<Rightarrow> Inl (bps @ ops)
      | Inr doc0 \<Rightarrow>
          (let ps = snd (validateDocument L doc0 True) @ ops;
               ps = (if ps = [] then dryRunOverrides L (enc_defaults defs) ?g ovs else ps)
           in if ps \<noteq> [] then Inl ps
              else Inr \<lparr>pd_Global = (clampRefresh doc0)\<lparr>d_Overrides := ovs\<rparr>, pd_raw = ?g,
                        pd_defaults = enc_defaults defs, pd_legacyManifestURLs = []\<rparr>))"
    using raw ovs
    by (simp add: Parse_policy_def Let_def case_prod_unfold del: cloneValue.simps split: sum.split) blast
  obtain doc0 where doc0: "build (enc_defaults defs) ?g = Inr doc0"
    using assms eq by (cases "build (enc_defaults defs) ?g") auto
  have acc: "snd (validateDocument L doc0 True) = [] \<and> ops = [] \<and>
      dryRunOverrides L (enc_defaults defs) ?g ovs = [] \<and>
      p = \<lparr>pd_Global = (clampRefresh doc0)\<lparr>d_Overrides := ovs\<rparr>, pd_raw = ?g,
           pd_defaults = enc_defaults defs, pd_legacyManifestURLs = []\<rparr>"
    using assms unfolding eq doc0 by (auto simp: Let_def split: if_splits)
  have "jentry raw ''schemaVersion'' = JInt 1"
    using raw(3,4) by (auto simp: asInt_def SchemaVersion_def split: json.splits if_splits)
  then show thesis
    using that [of raw doc0] raw ovs acc doc0 by (simp add: validateDocument_Nil_iff)
qed

lemma document_valid_Overrides [simp]:
  "document_valid L remote (d\<lparr>d_Overrides := os\<rparr>) = document_valid L remote d"
proof -
  have "server_known (d\<lparr>d_Overrides := os\<rparr>) = server_known d"
    by (simp add: server_known_def fun_eq_iff)
  moreover from this have "site_valid L (d\<lparr>d_Overrides := os\<rparr>) = site_valid L d"
    by (simp add: site_valid_def fun_eq_iff)
  ultimately show ?thesis by (simp add: document_valid_def)
qed

text \<open>The shape every accepted override has.\<close>

definition override_valid :: "golib \<Rightarrow> override \<Rightarrow> bool" where
  "override_valid L ov \<longleftrightarrow>
     ov_ID ov \<noteq> [] \<and> until_ok L (ov_Until ov) \<and>
     (\<exists>patch. ov_Patch ov = Some patch \<and> keys patch \<subseteq> set PatchableSections)"

lemma checkOverride_Nil:
  "checkOverride L seen path m ov = [] \<Longrightarrow> override_valid L ov \<and> ov_ID ov \<notin> seen"
  by (auto simp: checkOverride_def override_valid_def filter_empty_conv split: if_splits option.splits)

lemma parseOverrideList_Nil:
  "parseOverrideList L i seen items = (ovs, []) \<Longrightarrow>
   (\<forall>ov \<in> set ovs. override_valid L ov \<and> ov_ID ov \<notin> seen) \<and> distinct (map ov_ID ovs) \<and>
   length ovs = length items"
proof (induction items arbitrary: i seen ovs)
  case (Cons item items)
  from Cons.prems obtain m where item: "item = JObj m"
    by (cases item) (auto simp: Let_def split: prod.splits)
  with Cons.prems obtain ov ovs' where dec: "dec_override (canon (JObj m)) zero_override = Some ov"
    and rest: "parseOverrideList L (Suc i) (insert (ov_ID ov) seen) items = (ovs', [])"
    and chk: "checkOverride L seen (''/overrides/'' @ Itoa (int i)) m ov = []" and ovs: "ovs = ov # ovs'"
    by (auto simp: Let_def simp del: canon.simps split: option.splits prod.splits)
  from Cons.IH [OF rest] checkOverride_Nil [OF chk] ovs show ?case by auto
qed simp

lemma parseOverrides_Nil:
  "parseOverrides L raw = (ovs, []) \<Longrightarrow>
   (\<forall>ov \<in> set ovs. override_valid L ov) \<and> distinct (map ov_ID ovs)"
  using parseOverrideList_Nil by (fastforce simp: parseOverrides_def split: json.splits)

section \<open>Properties\<close>


text \<open>
  A section the document leaves out comes from the defaults: whenever the accepted
  document carries no object under one of the five merged sections (the key is absent,
  null, or any other value that is not an object) the effective section is exactly the
  one derived from the local configuration, with the refresh interval clamped; the
  same holds for an absent or null IPC section.
\<close>

theorem Parse_policy_defaults:
  assumes "Parse_policy L data defs = Inr p" and "defaults_ok defs"
  shows "(no_section (pd_raw p) ''control'' \<longrightarrow> d_Control (pd_Global p) = df_Control defs) \<and>
    (no_section (pd_raw p) ''updater'' \<longrightarrow> d_Updater (pd_Global p) = df_Updater defs) \<and>
    (no_section (pd_raw p) ''logging'' \<longrightarrow> d_Logging (pd_Global p) = df_Logging defs) \<and>
    (no_section (pd_raw p) ''clientWs'' \<longrightarrow> d_ClientWS (pd_Global p) = df_ClientWS defs) \<and>
    (no_section (pd_raw p) ''refresh'' \<longrightarrow> d_Refresh (pd_Global p) =
       (df_Refresh defs)\<lparr>rf_IntervalMinutes := max 1 (min 1440 (rf_IntervalMinutes (df_Refresh defs)))\<rparr>) \<and>
    (jentry (pd_raw p) ''ipcProtocol'' = JNull \<longrightarrow>
       ip_DefaultVersion (d_IPCProtocol (pd_Global p)) = ip_DefaultVersion (df_IPCProtocol defs) \<and>
       (\<forall>k. map_of (ip_Versions (d_IPCProtocol (pd_Global p))) k = map_of (ip_Versions (df_IPCProtocol defs)) k))"
proof (rule Parse_policy_Inr [OF assms(1)])
  fix raw doc0
  assume b: "build (pd_defaults p) (pd_raw p) = Inr doc0" and d: "pd_defaults p = enc_defaults defs"
    and g: "pd_Global p = (clampRefresh doc0)\<lparr>d_Overrides := d_Overrides (pd_Global p)\<rparr>"
  have b': "build (enc_defaults defs) (pd_raw p) = Inr doc0" using b d by simp
  have g': "d_Control (pd_Global p) = d_Control doc0" "d_Updater (pd_Global p) = d_Updater doc0"
    "d_Logging (pd_Global p) = d_Logging doc0" "d_ClientWS (pd_Global p) = d_ClientWS doc0"
    "d_Refresh (pd_Global p) =
       (d_Refresh doc0)\<lparr>rf_IntervalMinutes := max 1 (min 1440 (rf_IntervalMinutes (d_Refresh doc0)))\<rparr>"
    "d_IPCProtocol (pd_Global p) = d_IPCProtocol doc0"
    by (subst g, simp add: clampRefresh_def)+
  have "wf_map (ip_Versions (df_IPCProtocol defs))" using assms(2) by (simp add: defaults_ok_def)
  then show ?thesis
    using build_defaults [OF b' assms(2)] by (simp add: g' map_of_sort_key)
qed

text \<open>
  A rejected document always comes with at least one problem, so the caller's test
  for problems tells acceptance from rejection: no document is refused silently.
\<close>

theorem Parse_policy_rejects_loudly: "Parse_policy L data defs \<noteq> Inl []"
  by (auto simp: Parse_policy_def build_def Let_def split: option.splits json.splits if_splits prod.splits)

end
