(* ===== verification/PolicyMatch.thy ===== *)
theory PolicyMatch
  imports PolicyParse
begin

text \<open>
  \<^verbatim>\<open>internal/policy/match.go\<close>: the policy one host runs. Overrides are selected by the
  host's facts and applied in order, the host's site gives the chain of servers it
  asks, and the kill switches are resolved against the clock.
\<close>

section \<open>Selectors\<close>

definition containsFold :: "string list \<Rightarrow> string \<Rightarrow> bool" where
  "containsFold xs s \<longleftrightarrow> s \<noteq> [] \<and> (\<exists>x \<in> set xs. EqualFold (TrimSpace x) (TrimSpace s))"

definition anyIPInSubnets :: "golib \<Rightarrow> string list \<Rightarrow> string list \<Rightarrow> bool" where
  "anyIPInSubnets L ips cidrs \<longleftrightarrow>
     (\<exists>c \<in> set cidrs. case ParseCIDR L (TrimSpace c) of
        None \<Rightarrow> False
      | Some (_, n) \<Rightarrow> (\<exists>ip \<in> set ips. case ParseIP L (TrimSpace ip) of
          None \<Rightarrow> False
        | Some a \<Rightarrow> net_contains n a))"

definition matches :: "golib \<Rightarrow> selector \<Rightarrow> host \<Rightarrow> bool" where
  "matches L s h =
     (if sl_All s then True
      else if sl_HWIDs s \<noteq> [] \<and> \<not> containsFold (sl_HWIDs s) (h_HWID h) then False
      else if sl_Hostnames s \<noteq> [] \<and> \<not> containsFold (sl_Hostnames s) (h_Hostname h) then False
      else if sl_DCs s \<noteq> [] \<and> (h_DC h = [] \<or> \<not> (\<exists>dc \<in> set (sl_DCs s). SameDCName dc (h_DC h))) then False
      else if sl_Domains s \<noteq> [] \<and> \<not> containsFold (sl_Domains s) (h_Domain h) then False
      else if sl_Subnets s \<noteq> [] \<and> \<not> anyIPInSubnets L (h_IPs h) (sl_Subnets s) then False
      else True)"

definition expired :: "golib \<Rightarrow> string option \<Rightarrow> time \<Rightarrow> bool" where
  "expired L until now =
     (case until of
        None \<Rightarrow> False
      | Some u \<Rightarrow>
          if u = [] then False
          else case ParseRFC3339 L u of None \<Rightarrow> False | Some t \<Rightarrow> \<not> now < t)"

section \<open>The effective policy\<close>

record effective =
  e_Doc :: document
  e_Applied :: "string list"
  e_parsed :: parsed

text \<open>Whether the loop of \<^verbatim>\<open>Effective\<close> applies the override to the host.\<close>

definition applies :: "golib \<Rightarrow> host \<Rightarrow> override \<Rightarrow> bool" where
  "applies L h ov =
     (if expired L (ov_Until ov) (h_Now h) then False
      else if \<not> matches L (ov_Match ov) h then False
      else case ov_Except ov of None \<Rightarrow> True | Some ex \<Rightarrow> \<not> matches L ex h)"

definition global_effective :: "parsed \<Rightarrow> effective" where
  "global_effective p = \<lparr>e_Doc = pd_Global p, e_Applied = [], e_parsed = p\<rparr>"

text \<open>
  The result and, as in the source, an informational error (the problems) when the
  overrides that matched combine into an invalid document.
\<close>

definition Effective :: "golib \<Rightarrow> parsed \<Rightarrow> host \<Rightarrow> effective \<times> problem list option" where
  "Effective L p h =
     (let (cur, applied) = foldl (\<lambda>(cur, applied) ov.
            if applies L h ov then (applyPatch cur ov, applied @ [ov_ID ov]) else (cur, applied))
            (pd_raw p, []) (d_Overrides (pd_Global p))
      in if applied = [] then (global_effective p, None)
         else case build (pd_defaults p) cur of
           Inl probs \<Rightarrow> (global_effective p, Some probs)
         | Inr doc0 \<Rightarrow>
             (let (doc, probs) = validateDocument L doc0
                    (d_Revision (pd_Global p) > 0 \<or> d_GeneratedAt (pd_Global p) \<noteq> [])
              in if probs \<noteq> [] then (global_effective p, Some probs)
                 else (\<lparr>e_Doc = doc\<lparr>d_Overrides := d_Overrides (pd_Global p)\<rparr>, e_Applied = applied,
                        e_parsed = p\<rparr>, None)))"

fun find_site :: "golib \<Rightarrow> host \<Rightarrow> site gomap \<Rightarrow> (string \<times> site) option" where
  "find_site L h [] = None"
| "find_site L h ((key, s) # sites) =
     (if \<not> SameDCName key (h_DC h) \<or> \<not> site_IsEnabled s then find_site L h sites
      else if anyIPInSubnets L (h_IPs h) (st_InternalSubnets s) then Some (key, s)
      else None)"

definition Site :: "golib \<Rightarrow> effective \<Rightarrow> host \<Rightarrow> (string \<times> site) option" where
  "Site L e h = (if h_DC h = [] then None else find_site L h (d_DCLookupMap (e_Doc e)))"

definition Chain :: "golib \<Rightarrow> effective \<Rightarrow> host \<Rightarrow> string \<times> string list" where
  "Chain L e h =
     (case Site L e h of
        Some (name, s) \<Rightarrow> (name, st_BaseServer s # st_BackupServer s)
      | None \<Rightarrow> ([], [d_DefaultServer (e_Doc e)]))"

definition str_entry :: "string gomap \<Rightarrow> string \<Rightarrow> string" where
  "str_entry m k = (case map_of m k of None \<Rightarrow> [] | Some v \<Rightarrow> v)"

definition BaseURL :: "effective \<Rightarrow> string \<Rightarrow> string" where
  "BaseURL e name = str_entry (d_Servers (e_Doc e)) name"

definition ManifestURL :: "effective \<Rightarrow> string \<Rightarrow> string" where
  "ManifestURL e name =
     (case map_of (pd_legacyManifestURLs (e_parsed e)) name of
        Some u \<Rightarrow> u
      | None \<Rightarrow>
          (let base = str_entry (d_Servers (e_Doc e)) name
           in if base = [] then [] else base @ ManifestPath))"

definition IsWhitelisted :: "effective \<Rightarrow> host \<Rightarrow> bool" where
  "IsWhitelisted e h =
     (let w = hi_Whitelist (d_HostIntegrity (e_Doc e))
      in containsFold (wl_Hostnames w) (h_Hostname h) \<or> containsFold (wl_HWIDs w) (h_HWID h))"

definition UpdaterEnabled :: "golib \<Rightarrow> effective \<Rightarrow> time \<Rightarrow> bool \<times> string" where
  "UpdaterEnabled L e now =
     (let c = co_Updater (d_Control (e_Doc e))
      in if cu_Enabled c \<or> expired L (cu_Until c) now then (True, [])
         else (False, case cu_Reason c of None \<Rightarrow> [] | Some r \<Rightarrow> r))"

definition AppControl :: "golib \<Rightarrow> effective \<Rightarrow> time \<Rightarrow> control_app" where
  "AppControl L e now =
     (let c = co_App (d_Control (e_Doc e));
          c = (if \<not> ca_Enabled c \<and> expired L (ca_Until c) now then c\<lparr>ca_Enabled := True\<rparr> else c)
      in if ca_Mode c \<noteq> AppModeNormal \<and> expired L (ca_Until c) now then c\<lparr>ca_Mode := AppModeNormal\<rparr> else c)"

section \<open>Lemmas\<close>

lemma SameDCName_label: "SameDCName a b \<longleftrightarrow> dc_label a = dc_label b"
  by (simp add: SameDCName_def EqualFold_def dc_label_def)

text \<open>An `until` in the past never becomes the future again.\<close>

lemma expired_mono: "expired L u t \<Longrightarrow> t \<le> t' \<Longrightarrow> expired L u t'"
  by (auto simp: expired_def split: option.splits if_splits)

text \<open>The overrides applied are those that apply, in document order.\<close>

lemma Effective_fold:
  "foldl (\<lambda>(cur, applied) ov.
      if applies L h ov then (applyPatch cur ov, applied @ [ov_ID ov]) else (cur, applied)) (cur, ids) ovs =
   (foldl applyPatch cur (filter (applies L h) ovs), ids @ map ov_ID (filter (applies L h) ovs))"
  by (induction ovs arbitrary: cur ids) auto

lemma Effective_cases:
  "Effective L p h =
     (let sel = filter (applies L h) (d_Overrides (pd_Global p));
          remote = (d_Revision (pd_Global p) > 0 \<or> d_GeneratedAt (pd_Global p) \<noteq> [])
      in if sel = [] then (global_effective p, None)
         else case build (pd_defaults p) (foldl applyPatch (pd_raw p) sel) of
           Inl probs \<Rightarrow> (global_effective p, Some probs)
         | Inr doc0 \<Rightarrow>
             if snd (validateDocument L doc0 remote) \<noteq> []
             then (global_effective p, Some (snd (validateDocument L doc0 remote)))
             else (\<lparr>e_Doc = (clampRefresh doc0)\<lparr>d_Overrides := d_Overrides (pd_Global p)\<rparr>,
                    e_Applied = map ov_ID sel, e_parsed = p\<rparr>, None))"
  unfolding Effective_def Effective_fold Let_def prod.case append_Nil map_is_Nil_conv
  by (simp add: case_prod_unfold split: sum.split)

lemma Effective_e_parsed [simp]: "e_parsed (fst (Effective L p h)) = p"
  by (simp add: Effective_cases Let_def global_effective_def split: sum.split)

lemma Effective_valid:
  assumes "document_valid L remote (pd_Global p)"
    and "remote \<longleftrightarrow> d_Revision (pd_Global p) > 0 \<or> d_GeneratedAt (pd_Global p) \<noteq> []"
  shows "document_valid L remote (e_Doc (fst (Effective L p h)))"
  using assms
  by (simp add: Effective_cases Let_def global_effective_def validateDocument_Nil_iff split: sum.split)

text \<open>
  In a document whose site labels are distinct, the site found is the same for every
  order in which the map of sites is visited.
\<close>

lemma find_site_no_match:
  "dc_label (h_DC h) \<notin> set (map (dc_label \<circ> fst) sites) \<Longrightarrow> find_site L h sites = None"
  by (induction sites rule: induct_list012) (auto simp: SameDCName_label)

definition site_at :: "golib \<Rightarrow> host \<Rightarrow> string \<times> site \<Rightarrow> bool" where
  "site_at L h ks \<longleftrightarrow>
     SameDCName (fst ks) (h_DC h) \<and> site_IsEnabled (snd ks) \<and>
     anyIPInSubnets L (h_IPs h) (st_InternalSubnets (snd ks))"

lemma find_site_Some_iff:
  assumes "distinct (map (dc_label \<circ> fst) sites)"
  shows "find_site L h sites = Some ks \<longleftrightarrow> ks \<in> set sites \<and> site_at L h ks"
  using assms
proof (induction sites)
  case (Cons x sites)
  obtain k s where x: "x = (k, s)" by (cases x)
  show ?case
  proof (cases "SameDCName k (h_DC h)")
    case True
    with Cons.prems x have none: "dc_label (h_DC h) \<notin> set (map (dc_label \<circ> fst) sites)"
      by (auto simp: SameDCName_label)
    then have "find_site L h sites = None" by (rule find_site_no_match)
    moreover have "ks \<in> set sites \<Longrightarrow> \<not> site_at L h ks"
      using none by (auto simp: site_at_def SameDCName_label image_iff)
    ultimately show ?thesis using x True by (auto simp: site_at_def)
  next
    case False
    with Cons x show ?thesis by (auto simp: site_at_def)
  qed
qed simp

lemma Site_Some_iff:
  "distinct (map (dc_label \<circ> fst) (d_DCLookupMap (e_Doc e))) \<Longrightarrow>
   Site L e h = Some ks \<longleftrightarrow> h_DC h \<noteq> [] \<and> ks \<in> set (d_DCLookupMap (e_Doc e)) \<and> site_at L h ks"
  by (simp add: Site_def find_site_Some_iff)

lemma Chain_known:
  assumes "document_valid L remote (e_Doc e)"
  shows "snd (Chain L e h) \<noteq> [] \<and> (\<forall>name \<in> set (snd (Chain L e h)). server_known (e_Doc e) name)"
proof (cases "Site L e h")
  case None
  then show ?thesis using assms by (simp add: Chain_def document_valid_def)
next
  case (Some ks)
  then have "ks \<in> set (d_DCLookupMap (e_Doc e))"
    using assms by (simp add: document_valid_def Site_Some_iff)
  then have "site_valid L (e_Doc e) ks" using assms by (simp add: document_valid_def)
  then show ?thesis using Some by (auto simp: Chain_def site_valid_def split: prod.splits)
qed

lemma server_known_url:
  "server_known d name \<Longrightarrow> \<exists>u. map_of (d_Servers d) name = Some u"
  by (metis has_key_def has_key_iff not_None_eq server_known_def)

text \<open>What the properties below need of a parsed policy; \<^verbatim>\<open>Parse\<close> provides it.\<close>

definition parsed_ok :: "golib \<Rightarrow> parsed \<Rightarrow> bool" where
  "parsed_ok L p \<longleftrightarrow> document_valid L True (pd_Global p) \<and> distinct (map ov_ID (d_Overrides (pd_Global p))) \<and>
     pd_legacyManifestURLs p = []"

lemma Parse_policy_parsed_ok:
  assumes "Parse_policy L data defs = Inr p"
  shows "parsed_ok L p"
proof (rule Parse_policy_Inr [OF assms])
  fix raw doc0
  assume v: "document_valid L True (clampRefresh doc0)"
    and o: "parseOverrides L (jentry raw ''overrides'') = (d_Overrides (pd_Global p), [])"
    and g: "pd_Global p = (clampRefresh doc0)\<lparr>d_Overrides := d_Overrides (pd_Global p)\<rparr>"
    and l: "pd_legacyManifestURLs p = []"
  have "document_valid L True (pd_Global p)" using v by (subst g) simp
  with l parseOverrides_Nil [OF o] show ?thesis by (simp add: parsed_ok_def)
qed

lemma parsed_ok_remote:
  "parsed_ok L p \<Longrightarrow> d_Revision (pd_Global p) > 0 \<or> d_GeneratedAt (pd_Global p) \<noteq> []"
  by (simp add: parsed_ok_def document_valid_def)

lemma Effective_document_valid:
  "parsed_ok L p \<Longrightarrow> document_valid L True (e_Doc (fst (Effective L p h)))"
  using parsed_ok_remote by (intro Effective_valid) (auto simp: parsed_ok_def)

section \<open>Properties\<close>

text \<open>
  C18: Which overrides a host runs. For a policy \<^verbatim>\<open>Parse\<close> accepted, the effective
  document satisfies every rule of the schema; when no error is reported, the ids it
  says were applied are those of exactly the overrides that have not expired, whose
  selector matches the host and whose exception does not, in document order, and the
  document is the one built from the raw document with those patches applied in that
  order; when an error is reported, nothing was applied and the host runs the global
  document.
\<close>

theorem Effective_applies_exactly:
  assumes "Parse_policy L data defs = Inr p" and "Effective L p h = (e, err)"
  shows "document_valid L True (e_Doc e) \<and>
    (err = None \<longrightarrow>
       e_Applied e = map ov_ID (filter (applies L h) (d_Overrides (pd_Global p))) \<and>
       (\<forall>ov \<in> set (d_Overrides (pd_Global p)). ov_ID ov \<in> set (e_Applied e) \<longleftrightarrow>
          \<not> expired L (ov_Until ov) (h_Now h) \<and> matches L (ov_Match ov) h \<and>
          (\<forall>ex. ov_Except ov = Some ex \<longrightarrow> \<not> matches L ex h)) \<and>
       (e_Applied e \<noteq> [] \<longrightarrow>
          (\<exists>doc. build (pd_defaults p)
             (foldl applyPatch (pd_raw p) (filter (applies L h) (d_Overrides (pd_Global p)))) = Inr doc \<and>
             e_Doc e = (clampRefresh doc)\<lparr>d_Overrides := d_Overrides (pd_Global p)\<rparr>))) \<and>
    (err \<noteq> None \<longrightarrow> e_Doc e = pd_Global p \<and> e_Applied e = [])"
proof -
  let ?ovs = "d_Overrides (pd_Global p)"
  have ok: "parsed_ok L p" using assms(1) by (rule Parse_policy_parsed_ok)
  have valid: "document_valid L True (e_Doc e)"
    using Effective_document_valid [OF ok, of h] assms(2) by simp
  have applied: "e_Applied e = map ov_ID (filter (applies L h) ?ovs)" if "err = None"
    using assms(2) that
    by (auto simp: Effective_cases Let_def global_effective_def split: sum.splits if_splits)
  have inj: "inj_on ov_ID (set ?ovs)" using ok by (simp add: parsed_ok_def distinct_map)
  have mem: "ov_ID ov \<in> ov_ID ` set (filter (applies L h) ?ovs) \<longleftrightarrow> applies L h ov" if "ov \<in> set ?ovs" for ov
    using inj that by (auto simp: inj_on_def)
  have iff: "applies L h ov \<longleftrightarrow> \<not> expired L (ov_Until ov) (h_Now h) \<and> matches L (ov_Match ov) h \<and>
          (\<forall>ex. ov_Except ov = Some ex \<longrightarrow> \<not> matches L ex h)" for ov
    by (auto simp: applies_def split: option.splits)
  have doc: "\<exists>doc. build (pd_defaults p) (foldl applyPatch (pd_raw p) (filter (applies L h) ?ovs)) = Inr doc \<and>
      e_Doc e = (clampRefresh doc)\<lparr>d_Overrides := ?ovs\<rparr>" if "err = None" "e_Applied e \<noteq> []"
    using assms(2) that
    by (auto simp: Effective_cases Let_def global_effective_def split: sum.splits if_splits)
  have "e_Doc e = pd_Global p \<and> e_Applied e = []" if "err \<noteq> None"
    using assms(2) that by (auto simp: Effective_cases Let_def global_effective_def split: sum.splits if_splits)
  then show ?thesis using valid applied doc mem iff by (simp add: set_map)
qed


text \<open>
  The site of a host does not depend on the order in which Go visits the map of
  sites: under an accepted policy every order of the same sites gives the same answer,
  and that answer is the enabled site whose domain controller is the host's, provided
  one of the host's addresses lies in one of its subnets.
\<close>

theorem Site_order_independent:
  assumes "Parse_policy L data defs = Inr p" and "e = fst (Effective L p h)"
    and "mset sites = mset (d_DCLookupMap (e_Doc e))"
  shows "Site L (e\<lparr>e_Doc := (e_Doc e)\<lparr>d_DCLookupMap := sites\<rparr>\<rparr>) h = Site L e h \<and>
    (Site L e h = Some (key, s) \<longleftrightarrow>
       h_DC h \<noteq> [] \<and> (key, s) \<in> set sites \<and> SameDCName key (h_DC h) \<and> site_IsEnabled s \<and>
       anyIPInSubnets L (h_IPs h) (st_InternalSubnets s))"
proof -
  have valid: "document_valid L True (e_Doc e)"
    using Effective_document_valid [OF Parse_policy_parsed_ok [OF assms(1)], of h] assms(2) by simp
  then have d: "distinct (map (dc_label \<circ> fst) (d_DCLookupMap (e_Doc e)))" by (simp add: document_valid_def)
  have "mset (map (dc_label \<circ> fst) sites) = mset (map (dc_label \<circ> fst) (d_DCLookupMap (e_Doc e)))"
    using assms(3) by simp
  with d have d': "distinct (map (dc_label \<circ> fst) sites)" using mset_eq_imp_distinct_iff by blast
  have set: "set sites = set (d_DCLookupMap (e_Doc e))" using assms(3) by (rule mset_eq_setD)
  have "Site L (e\<lparr>e_Doc := (e_Doc e)\<lparr>d_DCLookupMap := sites\<rparr>\<rparr>) h = Some ks \<longleftrightarrow> Site L e h = Some ks" for ks
    using d d' set by (simp add: Site_Some_iff)
  then have "Site L (e\<lparr>e_Doc := (e_Doc e)\<lparr>d_DCLookupMap := sites\<rparr>\<rparr>) h = Site L e h"
    by (metis option.exhaust)
  then show ?thesis using d set by (simp add: Site_Some_iff site_at_def)
qed

text \<open>
  The kill switches fail open. The updater is paused at a time exactly when the
  document disables it and its `until` has not passed; once the block is over it stays
  over; and an application block whose `until` has passed is reported as enabled in
  normal mode.
\<close>

theorem control_fails_open:
  "(fst (UpdaterEnabled L e t) \<longleftrightarrow>
      cu_Enabled (co_Updater (d_Control (e_Doc e))) \<or> expired L (cu_Until (co_Updater (d_Control (e_Doc e)))) t) \<and>
   (fst (UpdaterEnabled L e t) \<and> t \<le> t' \<longrightarrow> fst (UpdaterEnabled L e t')) \<and>
   (expired L (ca_Until (co_App (d_Control (e_Doc e)))) t \<and> t \<le> t' \<longrightarrow>
      ca_Enabled (AppControl L e t') \<and> ca_Mode (AppControl L e t') = AppModeNormal)"
  using expired_mono [of L _ t t']
  by (auto simp: UpdaterEnabled_def AppControl_def Let_def)

end
