(* ===== verification/PolicyWitness.thy ===== *)
theory PolicyWitness
  imports PolicyMatch
begin

text \<open>
  A concrete configuration document, with concrete library functions, that the policy
  engine accepts: two servers, one site, an override for one host, and the sections
  \<^verbatim>\<open>control\<close> and \<^verbatim>\<open>updater\<close> left to the defaults. The properties of the policy theories
  are applied to it.
\<close>

definition sample_raw :: "string \<Rightarrow> json gomap" where
  "sample_raw srv =
     [(''schemaVersion'', JInt 1), (''revision'', JInt 7), (''generatedAt'', JStr ''2026-09-04T10:00:00Z''),
      (''servers'', JObj [(''ext'', JStr ''https://ext''), (''int'', JStr ''https://int'')]),
      (''defaultServer'', JStr srv),
      (''dcLookupMap'', JObj [(''DC-RM2'', JObj [(''internalSubnets'', JArr [JStr ''10.1.0.0/16'']),
         (''baseServer'', JStr ''int''), (''backupServer'', JArr [JStr ''ext''])])]),
      (''refresh'', JObj [(''intervalMinutes'', JInt 5000)])]"

definition sample_doc :: "json gomap" where
  "sample_doc = sample_raw ''ext'' @ [(''overrides'', JArr [JObj [(''id'', JStr ''o1''),
         (''match'', JObj [(''hostnames'', JArr [JStr ''PC1''])]),
         (''patch'', JObj [(''defaultServer'', JStr ''int'')])]])]"

definition sample_lib :: golib where
  "sample_lib = \<lparr>NewVersion_ok = (\<lambda>v. v \<noteq> []), LessThan = (\<lambda>a b. length a < length b),
     ParseJSON = (\<lambda>s. if s = ''doc'' then Some (JObj sample_doc) else None),
     ParseRFC3339 = (\<lambda>s. if length s = 20 then Some 1000 else None),
     ParseURL = (\<lambda>s. if HasPrefix s ''https://'' then
        Some \<lparr>u_Scheme = ''https'', u_Host = drop 8 s, u_Path = [], u_RawQuery = [], u_Fragment = []\<rparr> else None),
     ParseCIDR = (\<lambda>s. if s = ''10.1.0.0/16''
        then Some (IPv4 0x0A010000, Net4 0x0A010000 0xFFFF0000) else None),
     ParseIP = (\<lambda>s. if s = ''10.1.2.3'' then Some (IPv4 0x0A010203) else None)\<rparr>"

definition sample_defaults :: defaults where
  "sample_defaults =
     \<lparr>df_Refresh = \<lparr>rf_IntervalMinutes = 30, rf_StaleAfterDays = 7\<rparr>,
      df_Control = \<lparr>co_Updater = \<lparr>cu_Enabled = True, cu_Reason = None, cu_Until = None\<rparr>,
        co_App = \<lparr>ca_Enabled = True, ca_Mode = ''normal'', ca_Reason = None, ca_Until = None\<rparr>\<rparr>,
      df_Updater = \<lparr>us_PollIntervalMinutes = 30, us_ChannelOverride = None,
        us_CriticalWarning = \<lparr>cw_Enabled = True, cw_Seconds = 60\<rparr>,
        us_DCLookupRetry = \<lparr>dr_Attempts = 5, dr_DelaySeconds = 10\<rparr>,
        us_Resolver = \<lparr>rs_Attempts = 3, rs_BaseBackoffSeconds = 5\<rparr>,
        us_SelfUpdate = \<lparr>tg_Enabled = True\<rparr>, us_InstallCertificate = \<lparr>tg_Enabled = True\<rparr>\<rparr>,
      df_Logging = \<lparr>lg_Level = ''info'', lg_MaxSizeMB = 2, lg_Backups = 5, lg_Compress = True, lg_EventLog = True\<rparr>,
      df_ClientWS = \<lparr>cs_Enabled = False, cs_Commands = DefaultClientWSCommands\<rparr>,
      df_IPCProtocol = \<lparr>ip_Versions = [(''1'', \<lparr>iv_Updater = zero_version_range,
        iv_EMLy = zero_version_range, iv_Enabled = None\<rparr>)], ip_DefaultVersion = 1\<rparr>\<rparr>"

definition sample_override :: override where
  "sample_override =
     \<lparr>ov_ID = ''o1'', ov_Match = zero_selector\<lparr>sl_Hostnames := [''PC1'']\<rparr>, ov_Except = None, ov_Until = None,
      ov_Patch = Some [(''defaultServer'', JStr ''int'')]\<rparr>"

definition sample_site :: site where
  "sample_site = \<lparr>st_InternalSubnets = [''10.1.0.0/16''], st_BaseServer = ''int'',
     st_BackupServer = [''ext''], st_Enabled = None\<rparr>"

text \<open>The typed document, before the refresh interval is clamped.\<close>

definition sample_document :: "string \<Rightarrow> document" where
  "sample_document srv =
     \<lparr>d_SchemaVersion = 1, d_Revision = 7, d_GeneratedAt = ''2026-09-04T10:00:00Z'',
      d_Refresh = \<lparr>rf_IntervalMinutes = 5000, rf_StaleAfterDays = 7\<rparr>,
      d_Servers = [(''ext'', ''https://ext''), (''int'', ''https://int'')], d_DefaultServer = srv,
      d_IPCProtocol = df_IPCProtocol sample_defaults, d_DCLookupMap = [(''DC-RM2'', sample_site)],
      d_HostIntegrity = zero_host_integrity, d_Control = df_Control sample_defaults,
      d_Updater = df_Updater sample_defaults, d_Logging = df_Logging sample_defaults,
      d_ClientWS = df_ClientWS sample_defaults, d_Overrides = []\<rparr>"

definition sample_parsed :: parsed where
  "sample_parsed = \<lparr>pd_Global = (clampRefresh (sample_document ''ext''))\<lparr>d_Overrides := [sample_override]\<rparr>,
     pd_raw = sample_raw ''ext'', pd_defaults = enc_defaults sample_defaults, pd_legacyManifestURLs = []\<rparr>"

definition sample_host :: host where
  "sample_host = \<lparr>h_HWID = ''hw'', h_Hostname = ''pc1'', h_DC = ''dc-rm2.tregcc.local'', h_Domain = ''TREGCC'',
     h_IPs = [''10.1.2.3''], h_Now = 500\<rparr>"

lemmas sample_enc = enc_defaults_def enc_refresh_def enc_control_def enc_control_updater_def
  enc_control_app_def enc_updater_settings_def enc_critical_warning_def enc_dc_lookup_retry_def
  enc_resolver_settings_def enc_toggle_def enc_logging_settings_def enc_clientws_settings_def
  enc_ipc_protocol_def enc_ipc_version_def enc_version_range_def enc_ptr_def enc_slice_def enc_map_def
  DefaultClientWSCommands_def

lemmas sample_dec = dec_document_def document_fields_def dec_refresh_def dec_control_def
  dec_control_updater_def dec_control_app_def dec_updater_settings_def dec_critical_warning_def
  dec_dc_lookup_retry_def dec_resolver_settings_def dec_toggle_def dec_logging_settings_def
  dec_clientws_settings_def dec_ipc_protocol_def dec_ipc_version_def dec_version_range_def dec_site_def
  dec_host_integrity_def dec_whitelist_def dec_defs

lemmas sample_zero = zero_document_def zero_refresh_def zero_control_def zero_control_updater_def
  zero_control_app_def zero_updater_settings_def zero_critical_warning_def zero_dc_lookup_retry_def
  zero_resolver_settings_def zero_toggle_def zero_logging_settings_def zero_clientws_settings_def
  zero_ipc_protocol_def zero_ipc_version_def zero_version_range_def zero_site_def zero_host_integrity_def
  zero_whitelist_def

lemma sample_complete:
  "complete (enc_defaults sample_defaults) (sample_raw srv) =
     [(''schemaVersion'', JInt 1), (''revision'', JInt 7), (''generatedAt'', JStr ''2026-09-04T10:00:00Z''),
      (''servers'', JObj [(''ext'', JStr ''https://ext''), (''int'', JStr ''https://int'')]),
      (''defaultServer'', JStr srv),
      (''dcLookupMap'', JObj [(''DC-RM2'', JObj [(''internalSubnets'', JArr [JStr ''10.1.0.0/16'']),
         (''baseServer'', JStr ''int''), (''backupServer'', JArr [JStr ''ext''])])]),
      (''hostIntegrity'', JObj [(''enabled'', JBool False)]),
      (''ipcProtocol'', enc_ipc_protocol (df_IPCProtocol sample_defaults)),
      (''refresh'', JObj [(''intervalMinutes'', JInt 5000), (''staleAfterDays'', JInt 7)]),
      (''control'', enc_control (df_Control sample_defaults)),
      (''updater'', enc_updater_settings (df_Updater sample_defaults)),
      (''logging'', enc_logging_settings (df_Logging sample_defaults)),
      (''clientWs'', enc_clientws_settings (df_ClientWS sample_defaults))]"
  by (simp add: complete_def copyKeys_def topologyKeys_def fillMissing_def has_key_def mergedSections_def
      mergedSection_def sample_raw_def enc_defaults_def enc_refresh_def
      sample_defaults_def Let_def)

lemma sample_ints: "ints_refresh (df_Refresh sample_defaults)" "ints_updater_settings (df_Updater sample_defaults)"
  "ints_logging_settings (df_Logging sample_defaults)" "wf_map (ip_Versions (df_IPCProtocol sample_defaults))"
  "in_int64 (ip_DefaultVersion (df_IPCProtocol sample_defaults))"
  by (simp_all add: sample_defaults_def ints_refresh_def ints_updater_settings_def
      ints_logging_settings_def in_int64_def min_int64_def max_int64_def wf_map_def)

lemma sample_int64 [simp]: "in_int64 1" "in_int64 7" "in_int64 5000"
  by (simp_all add: in_int64_def min_int64_def max_int64_def)

lemma sample_ipc: "sort_key fst (ip_Versions (df_IPCProtocol sample_defaults)) = ip_Versions (df_IPCProtocol sample_defaults)"
  by (simp add: sample_defaults_def)

lemmas sample_roundtrips = control_roundtrip updater_settings_roundtrip [OF sample_ints(2)]
  logging_settings_roundtrip [OF sample_ints(3)] clientws_settings_roundtrip
  ipc_protocol_roundtrip [OF sample_ints(4,5), unfolded sample_ipc]

lemma sample_dec_parts:
  "dec_map [] dec_string (JObj [(''ext'', JStr ''https://ext''), (''int'', JStr ''https://int'')]) [] =
     Some [(''ext'', ''https://ext''), (''int'', ''https://int'')]"
  "dec_map zero_site dec_site (JObj [(''DC-RM2'', JObj [(''backupServer'', JArr [JStr ''ext'']),
         (''baseServer'', JStr ''int''), (''internalSubnets'', JArr [JStr ''10.1.0.0/16''])])]) [] = Some [(''DC-RM2'', sample_site)]"
  "dec_host_integrity (JObj [(''enabled'', JBool False)]) zero_host_integrity = Some zero_host_integrity"
  "dec_refresh (JObj [(''intervalMinutes'', JInt 5000), (''staleAfterDays'', JInt 7)]) zero_refresh =
     Some \<lparr>rf_IntervalMinutes = 5000, rf_StaleAfterDays = 7\<rparr>"
  by (simp_all add: dec_defs sample_dec zero_site_def sample_site_def zero_host_integrity_def zero_refresh_def)

lemma sample_sorted: "sort_key fst 
     [(''schemaVersion'', a1), (''revision'', a2), (''generatedAt'', a3),
      (''servers'', a4), (''defaultServer'', a5),
      (''dcLookupMap'', a6), (''hostIntegrity'', a7),
      (''ipcProtocol'', a8), (''refresh'', a9), (''control'', a10),
      (''updater'', a11), (''logging'', a12), (''clientWs'', a13)] =
   [(''clientWs'', a13),(''control'', a10), (''dcLookupMap'', a6),(''defaultServer'', a5),(''generatedAt'', a3),
    (''hostIntegrity'', a7),(''ipcProtocol'', a8),(''logging'', a12),(''refresh'', a9),
  (''revision'', a2),(''schemaVersion'', a1), (''servers'', a4), (''updater'', a11)]" by simp

lemma sample_build: "build (enc_defaults sample_defaults) (sample_raw srv) = Inr (sample_document srv)"
proof -
  note [simp] = sample_roundtrips sample_dec_parts
  have "decode (complete (enc_defaults sample_defaults) (sample_raw srv)) = Some (sample_document srv)"
    unfolding sample_complete decode_def canon_JObj_eq list.map prod.case sample_sorted dec_document_def
    by (simp add: dec_struct_def document_fields_def find_field_def fld_def zero_document_def sample_document_def)
  then show ?thesis by (simp add: build_def)
qed

lemma sample_version: "NewVersion_ok sample_lib v \<longleftrightarrow> v \<noteq> []"
  by (simp add: sample_lib_def)

lemma sample_valid:
  "srv \<in> {''ext'', ''int''} \<Longrightarrow> document_valid sample_lib True (clampRefresh (sample_document srv))"
  by (auto simp: document_valid_def sample_document_def clampRefresh_def sample_defaults_def sample_lib_def
      validServerURL_def server_known_def ipc_valid_def site_valid_def bound_ok_def updater_valid_def
      logging_valid_def until_ok_def validCIDR_def sample_site_def zero_version_range_def us_Channel_def
      AppModeNormal_def knownClientWSCommands_def DefaultClientWSCommands_def ipc_version_IsEnabled_def
      HasPrefix_def HasSuffix_def Itoa_def digits_of.simps Atoi_def is_digit_def nat_of_digits_def
      in_int64_def min_int64_def max_int64_def TrimSpace_def is_space_char_def dc_label_def hostLabel_def
      Cut_def)

lemma sample_override_parsed:
  "parseOverrides sample_lib (jentry sample_doc ''overrides'') = ([sample_override], [])"
  by (simp add: parseOverrides_def sample_doc_def sample_raw_def Let_def dec_override_def dec_defs
      zero_override_def zero_selector_def dec_selector_def dec_patch_def checkOverride_def
      validateSelector_def check_subnets_def check_until_def PatchableSections_def sample_override_def)

lemma sample_patch: "applyPatch (sample_raw ''ext'') sample_override = sample_raw ''int''"
  by (simp add: applyPatch_def patch_json_def sample_override_def sample_raw_def)

lemma sample_dry_run:
  "dryRunOverrides sample_lib (enc_defaults sample_defaults) (sample_raw ''ext'') [sample_override] = []"
proof -
  have "buildProblems sample_lib (enc_defaults sample_defaults) (sample_raw ''int'') = []"
    using sample_valid [of "''int''"] by (simp add: buildProblems_def sample_build validateDocument_Nil_iff)
  then show ?thesis by (simp add: dryRunOverrides_def sample_patch)
qed

lemma sample_delete: "AList.delete ''overrides'' sample_doc = sample_raw ''ext''"
  by (simp add: sample_doc_def sample_raw_def)

lemma sample_accepted: "Parse_policy sample_lib ''doc'' sample_defaults = Inr sample_parsed"
proof -
  have 1: "length ''doc'' \<le> MaxDocumentSize" "ParseJSON sample_lib ''doc'' = Some (JObj sample_doc)"
    "map_of sample_doc ''schemaVersion'' = Some (JInt 1)" "asInt (JInt 1) = Some SchemaVersion"
    by (simp_all add: MaxDocumentSize_def sample_lib_def sample_doc_def sample_raw_def asInt_def SchemaVersion_def)
  have 2: "validateDocument sample_lib (sample_document ''ext'') True = (clampRefresh (sample_document ''ext''), [])"
    using sample_valid [of "''ext''"]
    by (metis fst_validateDocument insertI1 prod.collapse validateDocument_Nil_iff)
  show ?thesis
    using 1 2 by (simp add: Parse_policy_def Let_def sample_override_parsed sample_delete sample_build
        sample_dry_run sample_parsed_def del: cloneValue.simps)
qed

lemma sample_defaults_ok: "defaults_ok sample_defaults"
  using sample_ints by (simp add: defaults_ok_def)

lemma sample_applies: "applies sample_lib sample_host sample_override"
proof -
  have "containsFold [''PC1''] ''pc1''" by code_simp
  then show ?thesis
    by (simp add: applies_def sample_override_def expired_def matches_def zero_selector_def sample_host_def)
qed

lemma sample_effective:
  "Effective sample_lib sample_parsed sample_host =
     (\<lparr>e_Doc = (clampRefresh (sample_document ''int''))\<lparr>d_Overrides := [sample_override]\<rparr>,
       e_Applied = [''o1''], e_parsed = sample_parsed\<rparr>, None)"
proof -
  have rev: "d_Revision (pd_Global sample_parsed) > 0" by (simp add: sample_parsed_def sample_document_def)
  have sel: "filter (applies sample_lib sample_host) (d_Overrides (pd_Global sample_parsed)) = [sample_override]"
    by (simp add: sample_parsed_def sample_applies)
  have b: "build (pd_defaults sample_parsed) (applyPatch (pd_raw sample_parsed) sample_override) =
      Inr (sample_document ''int'')"
    by (simp add: sample_parsed_def sample_patch sample_build)
  have v: "snd (validateDocument sample_lib (sample_document ''int'') True) = []"
    using sample_valid [of "''int''"] by (simp add: validateDocument_Nil_iff)
  have "d_Overrides (pd_Global sample_parsed) = [sample_override]" "ov_ID sample_override = ''o1''"
    by (simp_all add: sample_parsed_def sample_override_def)
  then show ?thesis using rev sel b v by (simp add: Effective_cases Let_def)
qed

section \<open>Witnesses\<close>


theorem Parse_policy_defaults_witness:
  "d_Control (pd_Global sample_parsed) = df_Control sample_defaults \<and>
   d_Updater (pd_Global sample_parsed) = df_Updater sample_defaults"
proof -
  have "no_section (pd_raw sample_parsed) ''control''" "no_section (pd_raw sample_parsed) ''updater''"
    by (simp_all add: no_section_def sample_parsed_def sample_raw_def)
  then show ?thesis using Parse_policy_defaults [OF sample_accepted sample_defaults_ok] by blast
qed

theorem Effective_applies_exactly_witness:
  "\<not> expired sample_lib (ov_Until sample_override) 500 \<and> matches sample_lib (ov_Match sample_override) sample_host"
proof -
  have "sample_override \<in> set (d_Overrides (pd_Global sample_parsed))" "h_Now sample_host = 500"
    "ov_ID sample_override = ''o1''"
    by (simp_all add: sample_parsed_def sample_host_def sample_override_def)
  then show ?thesis
    using Effective_applies_exactly [OF sample_accepted sample_effective] by simp
qed

lemma sample_site_at: "site_at sample_lib sample_host (''DC-RM2'', sample_site)"
proof -
  have "SameDCName ''DC-RM2'' ''dc-rm2.tregcc.local''" by code_simp
  moreover have "anyIPInSubnets sample_lib [''10.1.2.3''] [''10.1.0.0/16'']"
    by (simp add: anyIPInSubnets_def sample_lib_def TrimSpace_def is_space_char_def)
  ultimately show ?thesis
    by (simp add: site_at_def sample_host_def sample_site_def site_IsEnabled_def)
qed

lemma sample_chain: "snd (Chain sample_lib (fst (Effective sample_lib sample_parsed sample_host)) sample_host) = [''int'', ''ext'']"
proof -
  have "d_DCLookupMap (e_Doc (fst (Effective sample_lib sample_parsed sample_host))) = [(''DC-RM2'', sample_site)]"
    by (simp add: sample_effective sample_document_def)
  then have "Site sample_lib (fst (Effective sample_lib sample_parsed sample_host)) sample_host = Some (''DC-RM2'', sample_site)"
    using sample_site_at by (simp add: Site_def site_at_def sample_host_def)
  then show ?thesis by (simp add: Chain_def sample_site_def)
qed


theorem Site_order_independent_witness:
  "Site sample_lib (fst (Effective sample_lib sample_parsed sample_host)) sample_host = Some (''DC-RM2'', sample_site)"
proof -
  have "(''DC-RM2'', sample_site) \<in> set (d_DCLookupMap (e_Doc (fst (Effective sample_lib sample_parsed sample_host))))"
    by (simp add: sample_effective sample_document_def)
  moreover have "h_DC sample_host \<noteq> []" by (simp add: sample_host_def)
  ultimately show ?thesis
    using Site_order_independent [OF sample_accepted refl refl, of sample_host "''DC-RM2''" sample_site] sample_site_at
    by (simp add: site_at_def)
qed

theorem control_fails_open_witness:
  "fst (UpdaterEnabled sample_lib (global_effective sample_parsed) 2000)"
proof -
  have "fst (UpdaterEnabled sample_lib (global_effective sample_parsed) 1000)"
    by (simp add: UpdaterEnabled_def global_effective_def sample_parsed_def sample_document_def
        sample_defaults_def Let_def)
  then show ?thesis
    using control_fails_open [of sample_lib "global_effective sample_parsed" 1000 2000] by simp
qed

lemma sample_version_order: "version_order sample_lib"
  by (auto simp: version_order_def sample_lib_def)

definition sample_manifest :: manifest where
  "sample_manifest = zero_manifest\<lparr>m_StableVersion := ''1.10.0'', m_StableDownload := ''https://s'',
     m_BetaVersion := ''1.9.0'', m_BetaDownload := ''https://b'', m_SHA256Checksums := [(''1.10.0'', ''ab12'')]\<rparr>"

theorem ResolveTarget_checked_witness:
  "Less sample_lib ''1.10.0'' ''1.10.0'' \<noteq> Inr True \<and>
   ResolveTarget sample_lib sample_manifest ''beta'' =
     Inr \<lparr>t_Version = ''1.10.0'', t_DownloadRef = ''https://s'', t_SHA256 = ''ab12''\<rparr>"
proof -
  have r: "ResolveTarget sample_lib sample_manifest ''beta'' =
     Inr \<lparr>t_Version = ''1.10.0'', t_DownloadRef = ''https://s'', t_SHA256 = ''ab12''\<rparr>"
    by (simp add: ResolveTarget_def ChannelVersion_def Less_def sample_lib_def sample_manifest_def zero_manifest_def)
  have "m_StableVersion sample_manifest = ''1.10.0''" "m_StableDownload sample_manifest \<noteq> []"
    by (simp_all add: sample_manifest_def)
  then show ?thesis using ResolveTarget_checked [OF sample_version_order r] r by simp
qed

section \<open>A selector that is checked by another key than it is read by\<close>

text \<open>
  The decoder takes \<^verbatim>\<open>All\<close> for \<^verbatim>\<open>all\<close>, the check looks the raw key up as it is spelled: a selector
  for every host passes next to a list, and also where it is not allowed.
\<close>

lemma selector_all_case_bypass:
  "\<exists>s. dec_selector (JObj [(''All'', JBool True), (''hostnames'', JArr [JStr ''x''])]) zero_selector = Some s \<and> sl_All s \<and>
     validateSelector L s (JObj [(''All'', JBool True), (''hostnames'', JArr [JStr ''x''])]) path False = []"
proof -
  have f: "EqualFold ''all'' ''All''" by code_simp
  show ?thesis
    by (intro exI [of _ "zero_selector\<lparr>sl_All := True, sl_Hostnames := [''x'']\<rparr>"])
      (simp add: dec_selector_def dec_defs f validateSelector_def zero_selector_def check_subnets_def)
qed

end
