(* ===== verification/Files.thy ===== *)
theory Files
  imports Prelude
begin

text \<open>
  Files as the program uses them: a file system maps a path to its contents, every
  system call may fail, and the process may die between any two of them. The one
  protocol all persistent state goes through is the atomic replacement of a file
  (temporary file, write, close, rename); \<open>atomic_save\<close> returns the states a crash
  could leave behind as well as the final one. The interface \<open>record_store\<close> is what the
  clients of a store built on it rely on.
\<close>

type_synonym 'b fs = "string \<Rightarrow> 'b option"

section \<open>System calls\<close>

text \<open>
  Which calls of one operation succeed is part of the environment; \<open>torn\<close> is what a
  failed write leaves in the temporary file.
\<close>

datatype sysop =
    OpRead | OpMkdirAll | OpCreateTemp | OpWrite | OpSync | OpClose | OpRename | OpRemove | OpBackup

record 'b env =
  sys_ok :: "sysop \<Rightarrow> bool"
  sys_tmp :: string
  sys_torn :: 'b

abbreviation put :: "string \<Rightarrow> 'b \<Rightarrow> 'b fs \<Rightarrow> 'b fs" where
  "put path b f \<equiv> f(path \<mapsto> b)"

definition remove :: "'b env \<Rightarrow> string \<Rightarrow> 'b fs \<Rightarrow> 'b fs" where
  "remove e path f = (if sys_ok e OpRemove then f(path := None) else f)"

definition rename :: "string \<Rightarrow> string \<Rightarrow> 'b fs \<Rightarrow> 'b fs" where
  "rename a b f = (case f a of None \<Rightarrow> f | Some x \<Rightarrow> (f(b \<mapsto> x))(a := None))"

section \<open>Atomic replacement\<close>

text \<open>
  \<open>atomic_save e sync path data f\<close>: the list of states after each call, in order, and
  whether the operation reported success. \<open>sync\<close> says whether the caller flushes the
  temporary file before closing it.
\<close>

definition atomic_save :: "'b env \<Rightarrow> bool \<Rightarrow> string \<Rightarrow> 'b \<Rightarrow> 'b fs \<Rightarrow> 'b fs list \<times> bool" where
  "atomic_save e sync path data f =
     (let tmp = sys_tmp e in
      if \<not> sys_ok e OpMkdirAll then ([], False)
      else if \<not> sys_ok e OpCreateTemp then ([], False)
      else let f1 = put tmp (sys_torn e) f in
      if \<not> sys_ok e OpWrite then ([f1, remove e tmp f1], False)
      else let f2 = put tmp data f1 in
      if sync \<and> \<not> sys_ok e OpSync then ([f1, f2, remove e tmp f2], False)
      else if \<not> sys_ok e OpClose then ([f1, f2, remove e tmp f2], False)
      else if \<not> sys_ok e OpRename then ([f1, f2, remove e tmp f2], False)
      else ([f1, f2, rename tmp path f2], True))"

definition final :: "'b fs \<Rightarrow> 'b fs list \<times> bool \<Rightarrow> 'b fs" where
  "final f r = last (f # fst r)"

lemma final_fst [simp]: "final f (fst r, b) = final f r"
  by (simp add: final_def)

lemma atomic_save_success:
  assumes "atomic_save e sync path data f = (trace, True)" "sys_tmp e \<noteq> path"
  shows "final f (trace, True) = (f(path \<mapsto> data))(sys_tmp e := None)"
  using assms by (auto simp: atomic_save_def final_def rename_def Let_def split: if_splits)

lemma atomic_save_failure:
  assumes "atomic_save e sync path data f = (trace, False)" "sys_tmp e \<noteq> path"
  shows "final f (trace, False) path = f path"
  using assms by (auto simp: atomic_save_def final_def remove_def Let_def split: if_splits)

lemma atomic_save_crash:
  assumes "g \<in> set (fst (atomic_save e sync path data f))" "sys_tmp e \<noteq> path"
  shows "g path = f path \<or> g path = Some data"
  using assms by (auto simp: atomic_save_def rename_def remove_def Let_def split: if_splits)

lemma atomic_save_frame:
  assumes "g \<in> set (fst (atomic_save e sync path data f))" "q \<noteq> path" "q \<noteq> sys_tmp e"
  shows "g q = f q"
  using assms by (auto simp: atomic_save_def rename_def remove_def Let_def split: if_splits)

section \<open>A store of one record\<close>

text \<open>
  What a client of a read-modify-write store relies on: \<open>upd e g w\<close> applies \<open>g\<close> to the
  record in world \<open>w\<close> in environment \<open>e\<close> and reports success; \<open>get\<close> is what a read
  would return, \<open>None\<close> when the stored data cannot be read; \<open>s0\<close> is the empty record an
  unreadable store is rebuilt from; \<open>good\<close> says an environment is one the store can run
  in.
\<close>

locale record_store =
  fixes upd :: "'e \<Rightarrow> ('s \<Rightarrow> 's) \<Rightarrow> 'w \<Rightarrow> 'w \<times> bool"
    and get :: "'w \<Rightarrow> 's option"
    and s0 :: 's
    and good :: "'e \<Rightarrow> bool"
  assumes upd_ok: "good e \<Longrightarrow> upd e g w = (w', True) \<Longrightarrow>
      get w' = Some (g (case get w of None \<Rightarrow> s0 | Some s \<Rightarrow> s))"
    and upd_fail: "good e \<Longrightarrow> upd e g w = (w', False) \<Longrightarrow> get w = Some s \<Longrightarrow> get w' = Some s"
begin

text \<open>A sequence of updates, each in its own environment; the list of reported results.\<close>

fun run :: "('e \<times> ('s \<Rightarrow> 's)) list \<Rightarrow> 'w \<Rightarrow> 'w \<times> bool list" where
  "run [] w = (w, [])"
| "run ((e, g) # us) w =
     (let (w1, ok) = upd e g w; (w2, oks) = run us w1 in (w2, ok # oks))"

text \<open>
  Updates are applied in order, each exactly once when it reports success and not at
  all otherwise.
\<close>

lemma run_applies_successes:
  assumes "run us w = (w', oks)" "\<forall>u \<in> set us. good (fst u)" "get w = Some s"
  shows "get w' = Some (fold (\<lambda>(ok, u). if ok then snd u else id) (zip oks us) s)"
  using assms
proof (induction us arbitrary: w w' s oks)
  case (Cons u us)
  obtain e g where u: "u = (e, g)" by (cases u)
  obtain w1 ok where step: "upd e g w = (w1, ok)" by (cases "upd e g w")
  obtain w2 oks2 where rest: "run us w1 = (w2, oks2)" by (cases "run us w1")
  have s1: "get w1 = Some (if ok then g s else s)"
    using upd_ok [of e g w w1] upd_fail [of e g w w1 s] step Cons.prems(2,3) u by (cases ok) auto
  have "get w2 = Some (fold (\<lambda>(ok, u). if ok then snd u else id) (zip oks2 us) (if ok then g s else s))"
    by (rule Cons.IH [OF rest]) (use Cons.prems(2) s1 in auto)
  then show ?case using Cons.prems(1) u step rest by auto
qed simp

lemma length_run: "run us w = (w', oks) \<Longrightarrow> length oks = length us"
  by (induction us arbitrary: w w' oks) (auto split: prod.splits)

lemma run_readable:
  "run us w = (w', oks) \<Longrightarrow> \<forall>u \<in> set us. good (fst u) \<Longrightarrow> get w \<noteq> None \<Longrightarrow> get w' \<noteq> None"
  using run_applies_successes by fastforce

end

end
