(* ===== verification/Config.thy ===== *)
theory Config
  imports PolicyMatch Files
begin

text \<open>
  \<^verbatim>\<open>internal/config\<close> and \<^verbatim>\<open>internal/policy/legacy.go\<close>: the bootstrap configuration and
  the policy a machine runs before it has ever received a document. The INI library is
  a parameter: what each of its typed getters returns for a section and a key.
\<close>

section \<open>Strings\<close>

text \<open>\<^verbatim>\<open>strings.Split\<close> on one character, and the replacement of one character by another.\<close>

fun SplitChar :: "char \<Rightarrow> string \<Rightarrow> string list" where
  "SplitChar c [] = [[]]"
| "SplitChar c (x # xs) =
     (if x = c then [] # SplitChar c xs
      else (case SplitChar c xs of [] \<Rightarrow> [[x]] | f # fs \<Rightarrow> (x # f) # fs))"

definition ReplaceChar :: "char \<Rightarrow> char \<Rightarrow> string \<Rightarrow> string" where
  "ReplaceChar a b s = map (\<lambda>c. if c = a then b else c) s"

text \<open>\<^verbatim>\<open>strings.ReplaceAll\<close> with a non-empty pattern.\<close>

function ReplaceAll :: "string \<Rightarrow> string \<Rightarrow> string \<Rightarrow> string" where
  "ReplaceAll s old new =
     (if old = [] \<or> s = [] then s
      else if HasPrefix s old then new @ ReplaceAll (drop (length old) s) old new
      else hd s # ReplaceAll (tl s) old new)"
  by pat_completeness auto
termination by (relation "measure (\<lambda>(s, _). length s)") auto

section \<open>The configuration\<close>

definition SourceExternal :: string where "SourceExternal = ''external''"
definition SourceInternal :: string where "SourceInternal = ''internal''"

record config =
  cf_EMLyInstallDir :: string
  cf_EMLyExeName :: string
  cf_EMLyConfigFile :: string
  cf_PollInterval :: duration
  cf_ChannelOverride :: string
  cf_Primary :: string
  cf_ExternalManifestURL :: string
  cf_InternalManifestURL :: string
  cf_BackupInternalManifestURL :: string
  cf_UserAgent :: string
  cf_APIKey :: string
  cf_DCSubnetMap :: "ipnet list gomap"
  cf_DCLookupRetryAttempts :: int
  cf_DCLookupRetryDelay :: duration
  cf_ProgIDEml :: string
  cf_ProgIDMsg :: string
  cf_CriticalWarningEnabled :: bool
  cf_CriticalWarningSeconds :: int
  cf_SelfUpdateEnabled :: bool
  cf_SelfUpdateManifestURL :: string
  cf_IPCEnabled :: bool
  cf_IPCPipeName :: string
  cf_CertificateEnabled :: bool
  cf_RemoteConfigEnabled :: bool
  cf_RemoteConfigEndpoints :: "string list"
  cf_RemoteConfigRoute :: string
  cf_RemoteConfigTimeout :: duration

definition PrimaryManifestURL :: "config \<Rightarrow> string" where
  "PrimaryManifestURL c =
     (if cf_Primary c = SourceInternal then cf_InternalManifestURL c else cf_ExternalManifestURL c)"

text \<open>\<open>join\<close> stands for \<^verbatim>\<open>URL.JoinPath("updater").String()\<close>.\<close>

datatype url_error = EmptyManifestURL | BadManifestURL string

definition UpdaterManifestURL :: "golib \<Rightarrow> (url \<Rightarrow> string) \<Rightarrow> config \<Rightarrow> string \<Rightarrow> url_error + string" where
  "UpdaterManifestURL L join c manifestURL =
     (if cf_SelfUpdateManifestURL c \<noteq> [] then Inr (cf_SelfUpdateManifestURL c)
      else if manifestURL = [] then Inl EmptyManifestURL
      else case ParseURL L manifestURL of
        None \<Rightarrow> Inl (BadManifestURL manifestURL)
      | Some u \<Rightarrow> Inr (join u))"

section \<open>Lists of subnets and endpoints\<close>

datatype config_error_kind =
    InvalidCIDR string
  | NotDCForm string
  | DuplicateDC string
  | OutOfRange string int
  | PrimaryURLEmpty string
  | UnknownPrimary string
  | UnknownChannel string
  | EmptyPaths
  | BadPipeName string
  | NoEndpoints
  | BadEndpoint string
  | BadRoute string

fun parse_subnet_fields :: "golib \<Rightarrow> string list \<Rightarrow> config_error_kind + ipnet list" where
  "parse_subnet_fields L [] = Inr []"
| "parse_subnet_fields L (f # fs) =
     (let field = TrimSpace f
      in if field = [] then parse_subnet_fields L fs
         else case ParseCIDR L field of
           None \<Rightarrow> Inl (InvalidCIDR field)
         | Some (_, n) \<Rightarrow>
             (case parse_subnet_fields L fs of Inl e \<Rightarrow> Inl e | Inr ns \<Rightarrow> Inr (n # ns)))"

definition ParseSubnets :: "golib \<Rightarrow> string \<Rightarrow> config_error_kind + ipnet list" where
  "ParseSubnets L raw = parse_subnet_fields L (SplitChar CHR '','' raw)"

fun parse_dc_entries ::
  "golib \<Rightarrow> string set \<Rightarrow> ipnet list gomap \<Rightarrow> string list \<Rightarrow> config_error_kind + ipnet list gomap" where
  "parse_dc_entries L seen out [] = Inr out"
| "parse_dc_entries L seen out (e # es) =
     (let entry = TrimSpace e
      in if entry = [] then parse_dc_entries L seen out es
         else
           (let (dc0, cidrs, ok) = Cut CHR '':'' entry; dc = TrimSpace dc0; lower = ToLower dc
            in if \<not> ok \<or> dc = [] \<or> TrimSpace cidrs = [] then Inl (NotDCForm entry)
               else if lower \<in> seen then Inl (DuplicateDC dc)
               else case ParseSubnets L cidrs of
                 Inl err \<Rightarrow> Inl err
               | Inr subnets \<Rightarrow> parse_dc_entries L (insert lower seen) (AList.update dc subnets out) es))"

definition ParseDCSubnetMap :: "golib \<Rightarrow> string \<Rightarrow> config_error_kind + ipnet list gomap" where
  "ParseDCSubnetMap L raw0 =
     (let raw = TrimSpace raw0
      in if raw = [] then Inr []
         else parse_dc_entries L {} [] (SplitChar CHR ''|'' (ReplaceChar CHR '';'' CHR ''|'' raw)))"

definition SubnetsContain :: "golib \<Rightarrow> ipnet list \<Rightarrow> string \<Rightarrow> bool" where
  "SubnetsContain L subnets ip =
     (case ParseIP L (TrimSpace ip) of None \<Rightarrow> False | Some a \<Rightarrow> \<exists>n \<in> set subnets. net_contains n a)"

definition splitEndpoints :: "string \<Rightarrow> string list" where
  "splitEndpoints raw =
     filter (\<lambda>f. f \<noteq> []) (map (\<lambda>f. TrimRightChar CHR ''/'' (TrimSpace f)) (SplitChar CHR ''|'' raw))"

section \<open>Loading\<close>

record ini =
  ini_String :: "string \<Rightarrow> string \<Rightarrow> string"
  ini_MustString :: "string \<Rightarrow> string \<Rightarrow> string \<Rightarrow> string"
  ini_MustInt :: "string \<Rightarrow> string \<Rightarrow> int \<Rightarrow> int"
  ini_MustBool :: "string \<Rightarrow> string \<Rightarrow> bool \<Rightarrow> bool"

definition BuildUserAgent :: "string \<Rightarrow> string \<Rightarrow> string" where
  "BuildUserAgent raw ver = ReplaceAll raw ''{{VERSION}}'' ver"

definition absolute_http :: "golib \<Rightarrow> string \<Rightarrow> bool" where
  "absolute_http L ep =
     (case ParseURL L ep of
        None \<Rightarrow> False
      | Some u \<Rightarrow> (u_Scheme u = ''http'' \<or> u_Scheme u = ''https'') \<and> u_Host u \<noteq> [])"

definition validate_config :: "golib \<Rightarrow> config \<Rightarrow> config_error_kind option" where
  "validate_config L c =
     (if cf_Primary c = SourceExternal \<and> cf_ExternalManifestURL c = [] then Some (PrimaryURLEmpty (cf_Primary c))
      else if cf_Primary c = SourceInternal \<and> cf_InternalManifestURL c = [] then Some (PrimaryURLEmpty (cf_Primary c))
      else if cf_Primary c \<noteq> SourceExternal \<and> cf_Primary c \<noteq> SourceInternal then Some (UnknownPrimary (cf_Primary c))
      else if cf_ChannelOverride c \<notin> {[], ''stable'', ''beta''} then Some (UnknownChannel (cf_ChannelOverride c))
      else if cf_EMLyInstallDir c = [] \<or> cf_EMLyExeName c = [] \<or> cf_EMLyConfigFile c = [] then Some EmptyPaths
      else if cf_CriticalWarningSeconds c < 1 then Some (OutOfRange ''criticalWarningSeconds'' (cf_CriticalWarningSeconds c))
      else if cf_IPCEnabled c \<and> (cf_IPCPipeName c = [] \<or> CHR 0x5C \<in> set (cf_IPCPipeName c) \<or> CHR ''/'' \<in> set (cf_IPCPipeName c))
      then Some (BadPipeName (cf_IPCPipeName c))
      else if \<not> cf_RemoteConfigEnabled c then None
      else if cf_RemoteConfigEndpoints c = [] then Some NoEndpoints
      else case find (\<lambda>ep. \<not> absolute_http L ep) (cf_RemoteConfigEndpoints c) of
        Some ep \<Rightarrow> Some (BadEndpoint ep)
      | None \<Rightarrow> if \<not> HasPrefix (cf_RemoteConfigRoute c) ''/'' then Some (BadRoute (cf_RemoteConfigRoute c)) else None)"

definition Load :: "golib \<Rightarrow> ini \<Rightarrow> string \<Rightarrow> config_error_kind + config" where
  "Load L f version =
     (let str = (\<lambda>s k. TrimSpace (ini_String f s k));
          rcTimeout = ini_MustInt f ''remoteConfig'' ''timeoutSeconds'' 10;
          retryAttempts = ini_MustInt f ''source'' ''dcLookupRetryAttempts'' 6;
          retrySeconds = ini_MustInt f ''source'' ''dcLookupRetryDelaySeconds'' 5;
          minutes = ini_MustInt f ''updater'' ''pollIntervalMinutes'' 30
      in if rcTimeout < 1 \<or> rcTimeout > 120 then Inl (OutOfRange ''remoteConfig.timeoutSeconds'' rcTimeout)
         else if retryAttempts < 0 \<or> retryAttempts > 60 then Inl (OutOfRange ''dcLookupRetryAttempts'' retryAttempts)
         else if retrySeconds < 0 \<or> retrySeconds > 300 then Inl (OutOfRange ''dcLookupRetryDelaySeconds'' retrySeconds)
         else if minutes < 1 then Inl (OutOfRange ''pollIntervalMinutes'' minutes)
         else case ParseDCSubnetMap L (ini_String f ''source'' ''defaultMappingDCSubnets'') of
           Inl e \<Rightarrow> Inl e
         | Inr dcs \<Rightarrow>
             (let c = \<lparr>cf_EMLyInstallDir = ini_MustString f ''updater'' ''emlyInstallDir'' (''C:'' @ [CHR 0x5C] @ ''3gIT'' @ [CHR 0x5C] @ ''EMLy''),
                   cf_EMLyExeName = ini_MustString f ''updater'' ''emlyExeName'' ''EMLy.exe'',
                   cf_EMLyConfigFile = ini_MustString f ''updater'' ''emlyConfigFile''
                     (''C:'' @ [CHR 0x5C] @ ''3gIT'' @ [CHR 0x5C] @ ''EMLy'' @ [CHR 0x5C] @ ''config.ini''),
                   cf_PollInterval = wrap64 (minutes * Minute),
                   cf_ChannelOverride = ToLower (str ''updater'' ''channelOverride''),
                   cf_Primary = ToLower (TrimSpace (ini_MustString f ''source'' ''primary'' SourceExternal)),
                   cf_ExternalManifestURL = str ''source'' ''externalManifestURL'',
                   cf_InternalManifestURL = str ''source'' ''internalManifestURL'',
                   cf_BackupInternalManifestURL = str ''source'' ''bkInternManifestURL'',
                   cf_UserAgent = BuildUserAgent (str ''source'' ''userAgent'') version,
                   cf_APIKey = str ''source'' ''xApiKey'',
                   cf_DCSubnetMap = dcs,
                   cf_DCLookupRetryAttempts = retryAttempts,
                   cf_DCLookupRetryDelay = retrySeconds * Second,
                   cf_ProgIDEml = ini_MustString f ''fileAssociations'' ''progIdEml'' ''EMLy.EML'',
                   cf_ProgIDMsg = ini_MustString f ''fileAssociations'' ''progIdMsg'' ''EMLy.MSG'',
                   cf_CriticalWarningEnabled = ini_MustBool f ''criticalUpdate'' ''criticalWarningEnabled'' True,
                   cf_CriticalWarningSeconds = ini_MustInt f ''criticalUpdate'' ''criticalWarningSeconds'' 30,
                   cf_SelfUpdateEnabled = ini_MustBool f ''selfUpdate'' ''enabled'' True,
                   cf_SelfUpdateManifestURL = str ''selfUpdate'' ''manifestURL'',
                   cf_IPCEnabled = ini_MustBool f ''ipc'' ''enabled'' True,
                   cf_IPCPipeName = TrimSpace (ini_MustString f ''ipc'' ''pipeName'' ''EMLyUpdater''),
                   cf_CertificateEnabled = ini_MustBool f ''certificate'' ''enabled'' True,
                   cf_RemoteConfigEnabled = ini_MustBool f ''remoteConfig'' ''enabled'' True,
                   cf_RemoteConfigEndpoints = splitEndpoints (ini_MustString f ''remoteConfig'' ''endpoints'' ''https://api.emly.ffois.it''),
                   cf_RemoteConfigRoute = TrimSpace (ini_MustString f ''remoteConfig'' ''configPath'' ''/v2/config''),
                   cf_RemoteConfigTimeout = rcTimeout * Second\<rparr>
              in case validate_config L c of Some e \<Rightarrow> Inl e | None \<Rightarrow> Inr c))"

section \<open>EMLy's own configuration\<close>

definition FreshInstallVersion :: string where "FreshInstallVersion = ''0.0.0''"

record emly_info =
  ei_InstalledVersion :: string
  ei_Channel :: string
  ei_Language :: string
  ei_FreshInstall :: bool

text \<open>\<open>sec\<close>: the values of EMLy's section, \<open>None\<close> when the file is missing or does not parse.\<close>

definition ReadEMLyConfig :: "(string \<Rightarrow> string) option \<Rightarrow> emly_info option" where
  "ReadEMLyConfig sec =
     (case sec of
        None \<Rightarrow> None
      | Some key \<Rightarrow>
          (let version = TrimSpace (key ''GUI_SEMVER''); channel = ToLower (TrimSpace (key ''GUI_RELEASE_CHANNEL''));
               language = ToLower (TrimSpace (key ''LANGUAGE''))
           in if version = [] then None
              else Some \<lparr>ei_InstalledVersion = version, ei_Channel = (if channel \<noteq> ''beta'' then ''stable'' else channel),
                         ei_Language = (if language = [] then ''en'' else language), ei_FreshInstall = False\<rparr>))"

definition ResolveEMLyWithChannel :: "(string \<Rightarrow> string) option \<Rightarrow> string \<Rightarrow> emly_info" where
  "ResolveEMLyWithChannel sec channelOverride =
     (let info = (case ReadEMLyConfig sec of
            Some i \<Rightarrow> i
          | None \<Rightarrow> \<lparr>ei_InstalledVersion = FreshInstallVersion, ei_Channel = ''stable'', ei_Language = ''en'',
                     ei_FreshInstall = True\<rparr>)
      in if channelOverride \<noteq> [] then info\<lparr>ei_Channel := channelOverride\<rparr> else info)"

section \<open>Replacing the configuration on an upgrade\<close>

text \<open>
  \<^verbatim>\<open>Reset\<close>: the states it passes through and its result, whether the file changed or an
  error. The default file is not written atomically when there was none; \<^verbatim>\<open>os.WriteFile\<close>
  that fails leaves what \<open>torn\<close> says.
\<close>

definition WriteDefault :: "'b env \<Rightarrow> string \<Rightarrow> 'b \<Rightarrow> 'b fs \<Rightarrow> 'b fs list \<times> bool option" where
  "WriteDefault e path defaultINI f =
     (if f path \<noteq> None then ([], Some False)
      else if sys_ok e OpWrite then ([put path defaultINI f], Some True)
      else ([put path (sys_torn e) f], None))"

definition writeAtomic :: "'b env \<Rightarrow> string \<Rightarrow> 'b \<Rightarrow> 'b fs \<Rightarrow> 'b fs list \<times> bool" where
  "writeAtomic e path content f =
     atomic_save (e\<lparr>sys_ok := (sys_ok e)(OpMkdirAll := True)\<rparr>) False path content f"

definition Reset_config :: "'b env \<Rightarrow> string \<Rightarrow> string \<Rightarrow> 'b \<Rightarrow> 'b fs \<Rightarrow> 'b fs list \<times> bool option" where
  "Reset_config e path backup defaultINI f =
     (case f path of
        None \<Rightarrow> if sys_ok e OpRead then WriteDefault e path defaultINI f else ([], None)
      | Some old \<Rightarrow>
          if \<not> sys_ok e OpRead then ([], None)
          else if old = defaultINI then ([], Some False)
          else if \<not> sys_ok e OpBackup then ([put backup (sys_torn e) f], None)
          else (let f1 = put backup old f; (trace, ok) = writeAtomic e path defaultINI f1
                in (f1 # trace, if ok then Some True else None)))"

section \<open>The default policy\<close>

definition LegacyExternal :: string where "LegacyExternal = ''external''"
definition LegacyInternal :: string where "LegacyInternal = ''internal''"
definition LegacyInternalBackup :: string where "LegacyInternalBackup = ''internalBackup''"

lemmas legacy_names = LegacyExternal_def LegacyInternal_def LegacyInternalBackup_def

definition DefaultsFromConfig :: "config \<Rightarrow> ipc_protocol \<Rightarrow> bool \<Rightarrow> defaults" where
  "DefaultsFromConfig cfg ipc consoleDebug =
     (let pollMinutes = max (cf_PollInterval cfg div Minute) 1
      in \<lparr>df_Refresh = \<lparr>rf_IntervalMinutes = pollMinutes, rf_StaleAfterDays = 7\<rparr>,
          df_Control = \<lparr>co_Updater = \<lparr>cu_Enabled = True, cu_Reason = None, cu_Until = None\<rparr>,
            co_App = \<lparr>ca_Enabled = True, ca_Mode = AppModeNormal, ca_Reason = None, ca_Until = None\<rparr>\<rparr>,
          df_Updater = \<lparr>us_PollIntervalMinutes = pollMinutes,
            us_ChannelOverride = (if cf_ChannelOverride cfg = [] then None else Some (cf_ChannelOverride cfg)),
            us_CriticalWarning = \<lparr>cw_Enabled = cf_CriticalWarningEnabled cfg, cw_Seconds = cf_CriticalWarningSeconds cfg\<rparr>,
            us_DCLookupRetry = \<lparr>dr_Attempts = cf_DCLookupRetryAttempts cfg, dr_DelaySeconds = cf_DCLookupRetryDelay cfg div Second\<rparr>,
            us_Resolver = \<lparr>rs_Attempts = 3, rs_BaseBackoffSeconds = 5\<rparr>,
            us_SelfUpdate = \<lparr>tg_Enabled = cf_SelfUpdateEnabled cfg\<rparr>,
            us_InstallCertificate = \<lparr>tg_Enabled = cf_CertificateEnabled cfg\<rparr>\<rparr>,
          df_Logging = \<lparr>lg_Level = (if consoleDebug then ''debug'' else ''info''), lg_MaxSizeMB = 2, lg_Backups = 5,
            lg_Compress = True, lg_EventLog = True\<rparr>,
          df_ClientWS = \<lparr>cs_Enabled = False, cs_Commands = DefaultClientWSCommands\<rparr>,
          df_IPCProtocol = ipc\<rparr>)"

definition addServer :: "string \<Rightarrow> string \<Rightarrow> string gomap \<times> string gomap \<Rightarrow> string gomap \<times> string gomap" where
  "addServer name manifestURL sl =
     (if manifestURL = [] then sl
      else case (CutSuffix manifestURL ManifestPath, sl) of
        ((base, ok), (servers, legacy)) \<Rightarrow>
          if ok then (AList.update name base servers, legacy)
          else (AList.update name manifestURL servers, AList.update name manifestURL legacy))"

definition legacy_servers :: "config \<Rightarrow> string gomap \<times> string gomap" where
  "legacy_servers cfg =
     addServer LegacyInternalBackup (cf_BackupInternalManifestURL cfg)
       (addServer LegacyInternal (cf_InternalManifestURL cfg)
         (addServer LegacyExternal (cf_ExternalManifestURL cfg) ([], [])))"

text \<open>\<open>netString\<close> stands for \<^verbatim>\<open>IPNet.String\<close>.\<close>

definition FromLegacy :: "(ipnet \<Rightarrow> string) \<Rightarrow> config \<Rightarrow> defaults \<Rightarrow> parsed" where
  "FromLegacy netString cfg d =
     (let (servers, legacy) = legacy_servers cfg;
          defaultServer = (if has_key servers LegacyExternal then LegacyExternal else LegacyInternal);
          defaultServer = (if has_key servers LegacyInternal \<and> cf_DCSubnetMap cfg = [] \<and> cf_Primary cfg = SourceInternal
                           then LegacyInternal else defaultServer);
          backups = (if has_key servers LegacyInternalBackup then [LegacyInternalBackup] else []) @
                    (if has_key servers LegacyExternal then [LegacyExternal] else []);
          sites = (if has_key servers LegacyInternal
                   then map (\<lambda>(dc, subnets). (dc, \<lparr>st_InternalSubnets = map netString subnets, st_BaseServer = LegacyInternal,
                          st_BackupServer = backups, st_Enabled = None\<rparr>)) (cf_DCSubnetMap cfg)
                   else []);
          doc = zero_document\<lparr>d_SchemaVersion := SchemaVersion, d_Refresh := df_Refresh d, d_Servers := servers,
            d_DefaultServer := defaultServer, d_IPCProtocol := df_IPCProtocol d, d_DCLookupMap := sites,
            d_Control := df_Control d, d_Updater := df_Updater d, d_Logging := df_Logging d, d_ClientWS := df_ClientWS d\<rparr>
      in \<lparr>pd_Global = doc, pd_raw = AList.delete ''overrides'' (enc_document doc), pd_defaults = enc_defaults d,
          pd_legacyManifestURLs = legacy\<rparr>)"

section \<open>Lemmas\<close>

lemma CutSuffix_True: "CutSuffix s p = (b, True) \<Longrightarrow> s = b @ p"
proof -
  assume "CutSuffix s p = (b, True)"
  then have b: "b = take (length s - length p) s" and "take (length p) (rev s) = rev p"
    by (auto simp: CutSuffix_def HasSuffix_def HasPrefix_def split: if_splits)
  then have "drop (length s - length p) s = p" by (metis rev_rev_ident take_rev)
  then show ?thesis using b append_take_drop_id [of "length s - length p" s] by simp
qed

lemma map_of_addServer:
  "map_of (fst (addServer n u sl)) k =
     (if k = n \<and> u \<noteq> [] then Some (fst (CutSuffix u ManifestPath)) else map_of (fst sl) k)"
  "map_of (snd (addServer n u sl)) k =
     (if k = n \<and> u \<noteq> [] \<and> \<not> snd (CutSuffix u ManifestPath) then Some u else map_of (snd sl) k)"
  by (auto simp: addServer_def CutSuffix_def update_conv split: prod.splits if_splits)

text \<open>The URL of a server is the one \<^verbatim>\<open>config.ini\<close> gives, whole or split at the known path.\<close>

lemma legacy_url:
  assumes "map_of (fst sl) n = Some (fst (CutSuffix u ManifestPath))"
    and "map_of (snd sl) n = (if snd (CutSuffix u ManifestPath) then None else Some u)" and "u \<noteq> ManifestPath"
    and "d_Servers (e_Doc e) = fst sl" "pd_legacyManifestURLs (e_parsed e) = snd sl"
  shows "ManifestURL e n = u"
proof (cases "CutSuffix u ManifestPath")
  case (Pair b ok)
  show ?thesis
  proof (cases ok)
    case True
    then have "u = b @ ManifestPath" using CutSuffix_True [of u ManifestPath b] Pair by simp
    then show ?thesis using assms Pair True by (auto simp: ManifestURL_def str_entry_def Let_def)
  qed (use assms Pair in \<open>simp add: ManifestURL_def\<close>)
qed

lemma legacy_server_urls:
  assumes "ManifestPath \<notin> {cf_ExternalManifestURL cfg, cf_InternalManifestURL cfg, cf_BackupInternalManifestURL cfg}"
    and "e = global_effective (FromLegacy ns cfg d)"
  shows "cf_ExternalManifestURL cfg \<noteq> [] \<Longrightarrow> ManifestURL e LegacyExternal = cf_ExternalManifestURL cfg"
    and "cf_InternalManifestURL cfg \<noteq> [] \<Longrightarrow> ManifestURL e LegacyInternal = cf_InternalManifestURL cfg"
    and "cf_BackupInternalManifestURL cfg \<noteq> [] \<Longrightarrow> ManifestURL e LegacyInternalBackup = cf_BackupInternalManifestURL cfg"
proof -
  have e: "d_Servers (e_Doc e) = fst (legacy_servers cfg)" "pd_legacyManifestURLs (e_parsed e) = snd (legacy_servers cfg)"
    by (simp_all add: assms(2) global_effective_def FromLegacy_def Let_def case_prod_unfold)
  note url = legacy_url [OF _ _ _ e]
  show "cf_ExternalManifestURL cfg \<noteq> [] \<Longrightarrow> ManifestURL e LegacyExternal = cf_ExternalManifestURL cfg"
    by (rule url) (use assms(1) in \<open>auto simp: legacy_servers_def map_of_addServer legacy_names\<close>)
  show "cf_InternalManifestURL cfg \<noteq> [] \<Longrightarrow> ManifestURL e LegacyInternal = cf_InternalManifestURL cfg"
    by (rule url) (use assms(1) in \<open>auto simp: legacy_servers_def map_of_addServer legacy_names\<close>)
  show "cf_BackupInternalManifestURL cfg \<noteq> [] \<Longrightarrow> ManifestURL e LegacyInternalBackup = cf_BackupInternalManifestURL cfg"
    by (rule url) (use assms(1) in \<open>auto simp: legacy_servers_def map_of_addServer legacy_names\<close>)
qed

lemma legacy_has:
  "has_key (fst (legacy_servers cfg)) LegacyExternal \<longleftrightarrow> cf_ExternalManifestURL cfg \<noteq> []"
  "has_key (fst (legacy_servers cfg)) LegacyInternal \<longleftrightarrow> cf_InternalManifestURL cfg \<noteq> []"
  "has_key (fst (legacy_servers cfg)) LegacyInternalBackup \<longleftrightarrow> cf_BackupInternalManifestURL cfg \<noteq> []"
  by (auto simp: legacy_servers_def has_key_def map_of_addServer legacy_names)

lemma find_site_in: "find_site L h sites = Some (k, s) \<Longrightarrow> (k, s) \<in> set sites"
  by (induction sites) (auto split: if_splits)

section \<open>Properties\<close>

text \<open>
  A machine without a remote document behaves as before remote configuration. With
  the policy derived from a valid \<^verbatim>\<open>config.ini\<close>, a host at a mapped site asks the internal
  endpoint, then the backup endpoint and the external one, as far as they are
  configured; any other host asks the external endpoint, or the internal one when
  that is the primary and no site is mapped or when there is no external one. The
  URLs asked are those of \<^verbatim>\<open>config.ini\<close>, letter by letter.
\<close>

theorem legacy_chain_preserved:
  assumes "validate_config L cfg = None"
    and "ManifestPath \<notin> {cf_ExternalManifestURL cfg, cf_InternalManifestURL cfg, cf_BackupInternalManifestURL cfg}"
    and "e = global_effective (FromLegacy ns cfg d)"
  shows "map (ManifestURL e) (snd (Chain L e h)) =
    (if Site L e h \<noteq> None
     then filter (\<lambda>u. u \<noteq> []) [cf_InternalManifestURL cfg, cf_BackupInternalManifestURL cfg, cf_ExternalManifestURL cfg]
     else [if cf_ExternalManifestURL cfg = [] \<or>
              cf_InternalManifestURL cfg \<noteq> [] \<and> cf_DCSubnetMap cfg = [] \<and> cf_Primary cfg = SourceInternal
           then cf_InternalManifestURL cfg else cf_ExternalManifestURL cfg])"
proof (cases "Site L e h")
  case None
  have "cf_ExternalManifestURL cfg = [] \<Longrightarrow> cf_InternalManifestURL cfg \<noteq> []"
    using assms(1) by (auto simp: validate_config_def SourceExternal_def SourceInternal_def split: if_splits)
  then show ?thesis
    using None legacy_server_urls [OF assms(2,3)]
    by (auto simp: Chain_def assms(3) global_effective_def FromLegacy_def Let_def case_prod_unfold legacy_has)
next
  case (Some ks)
  obtain k s where ks: "ks = (k, s)" by (cases ks)
  have "(k, s) \<in> set (d_DCLookupMap (e_Doc e))"
    using Some ks by (auto simp: Site_def split: if_splits dest: find_site_in)
  then have int: "cf_InternalManifestURL cfg \<noteq> []" and s: "st_BaseServer s = LegacyInternal"
    "st_BackupServer s = (if cf_BackupInternalManifestURL cfg \<noteq> [] then [LegacyInternalBackup] else []) @
       (if cf_ExternalManifestURL cfg \<noteq> [] then [LegacyExternal] else [])"
    by (auto simp: assms(3) global_effective_def FromLegacy_def Let_def case_prod_unfold legacy_has split: if_splits)
  then show ?thesis
    using Some ks legacy_server_urls [OF assms(2,3)] by (auto simp: Chain_def)
qed

text \<open>
  A configuration that loads is within the bounds the service relies on: the
  primary source has a URL, the channel override is empty, stable or beta, the retry,
  timeout and warning settings are in range, the pipe name has no separator, and with
  remote configuration on there is at least one endpoint and every endpoint is an
  absolute http(s) URL.
\<close>

theorem Load_bounds:
  assumes "Load L f version = Inr c"
  shows "PrimaryManifestURL c \<noteq> [] \<and> cf_ChannelOverride c \<in> {[], ''stable'', ''beta''} \<and>
    cf_DCLookupRetryAttempts c \<in> {0..60} \<and> cf_DCLookupRetryDelay c \<in> {0..300 * Second} \<and>
    cf_RemoteConfigTimeout c \<in> {Second..120 * Second} \<and> cf_CriticalWarningSeconds c \<ge> 1 \<and>
    (cf_IPCEnabled c \<longrightarrow> cf_IPCPipeName c \<noteq> [] \<and> CHR 0x5C \<notin> set (cf_IPCPipeName c)) \<and>
    (cf_RemoteConfigEnabled c \<longrightarrow> cf_RemoteConfigEndpoints c \<noteq> [] \<and>
       (\<forall>ep \<in> set (cf_RemoteConfigEndpoints c). absolute_http L ep))"
proof -
  have v: "validate_config L c = None" and r: "cf_DCLookupRetryAttempts c \<in> {0..60}"
    "cf_DCLookupRetryDelay c \<in> {0..300 * Second}" "cf_RemoteConfigTimeout c \<in> {Second..120 * Second}"
    using assms by (auto simp: Load_def Let_def Second_def split: if_splits sum.splits option.splits)
  have "PrimaryManifestURL c \<noteq> [] \<and> cf_ChannelOverride c \<in> {[], ''stable'', ''beta''} \<and> cf_CriticalWarningSeconds c \<ge> 1 \<and>
    (cf_IPCEnabled c \<longrightarrow> cf_IPCPipeName c \<noteq> [] \<and> CHR 0x5C \<notin> set (cf_IPCPipeName c))"
    using v by (auto simp: validate_config_def PrimaryManifestURL_def split: if_splits)
  moreover have "cf_RemoteConfigEndpoints c \<noteq> [] \<and> (\<forall>ep \<in> set (cf_RemoteConfigEndpoints c). absolute_http L ep)"
    if "cf_RemoteConfigEnabled c"
    using v that by (auto simp: validate_config_def find_None_iff split: if_splits option.splits)
  ultimately show ?thesis using r by blast
qed

section \<open>A concrete configuration\<close>

definition demo_config_lib :: golib where
  "demo_config_lib = \<lparr>NewVersion_ok = (\<lambda>v. v \<noteq> []), LessThan = (\<lambda>a b. length a < length b), ParseJSON = (\<lambda>_. None),
     ParseRFC3339 = (\<lambda>_. None),
     ParseURL = (\<lambda>s. if HasPrefix s ''https://'' then
        Some \<lparr>u_Scheme = ''https'', u_Host = drop 8 s, u_Path = [], u_RawQuery = [], u_Fragment = []\<rparr> else None),
     ParseCIDR = (\<lambda>_. None), ParseIP = (\<lambda>_. None)\<rparr>"

definition demo_ini :: ini where
  "demo_ini = \<lparr>ini_String = (\<lambda>_ k. if k = ''externalManifestURL'' then ''https://x/v2/updates/manifest'' else []),
     ini_MustString = (\<lambda>_ _ d. d), ini_MustInt = (\<lambda>_ _ d. d), ini_MustBool = (\<lambda>_ _ d. d)\<rparr>"

definition demo_config :: config where
  "demo_config = \<lparr>cf_EMLyInstallDir = ''d'', cf_EMLyExeName = ''x'', cf_EMLyConfigFile = ''c'', cf_PollInterval = 30 * Minute,
     cf_ChannelOverride = [], cf_Primary = ''external'', cf_ExternalManifestURL = ''https://x/v2/updates/manifest'',
     cf_InternalManifestURL = ''https://i/m'', cf_BackupInternalManifestURL = [], cf_UserAgent = [], cf_APIKey = [],
     cf_DCSubnetMap = [], cf_DCLookupRetryAttempts = 6, cf_DCLookupRetryDelay = 5 * Second, cf_ProgIDEml = [],
     cf_ProgIDMsg = [], cf_CriticalWarningEnabled = True, cf_CriticalWarningSeconds = 30, cf_SelfUpdateEnabled = True,
     cf_SelfUpdateManifestURL = [], cf_IPCEnabled = False, cf_IPCPipeName = [], cf_CertificateEnabled = True,
     cf_RemoteConfigEnabled = True, cf_RemoteConfigEndpoints = [''https://api''], cf_RemoteConfigRoute = ''/v2/config'',
     cf_RemoteConfigTimeout = 10 * Second\<rparr>"

definition sample_legacy_defaults :: defaults where
  "sample_legacy_defaults = DefaultsFromConfig demo_config \<lparr>ip_Versions = [], ip_DefaultVersion = 1\<rparr> False"

theorem legacy_chain_preserved_witness:
  "map (ManifestURL (global_effective (FromLegacy (\<lambda>_. []) demo_config sample_legacy_defaults)))
     (snd (Chain demo_config_lib (global_effective (FromLegacy (\<lambda>_. []) demo_config sample_legacy_defaults))
        \<lparr>h_HWID = [], h_Hostname = ''pc'', h_DC = [], h_Domain = [], h_IPs = [], h_Now = 0\<rparr>)) =
   [''https://x/v2/updates/manifest'']"
proof -
  have v: "validate_config demo_config_lib demo_config = None" by code_simp
  have m: "ManifestPath \<notin> {cf_ExternalManifestURL demo_config, cf_InternalManifestURL demo_config,
      cf_BackupInternalManifestURL demo_config}"
    by (simp add: demo_config_def ManifestPath_def)
  show ?thesis
    by (subst legacy_chain_preserved [OF v m refl]) (simp add: Site_def demo_config_def SourceInternal_def)
qed

theorem Load_bounds_witness:
  "\<exists>c. Load demo_config_lib demo_ini ''1.0'' = Inr c \<and> cf_RemoteConfigEndpoints c \<noteq> [] \<and> PrimaryManifestURL c \<noteq> []"
proof -
  have "case Load demo_config_lib demo_ini ''1.0'' of Inl _ \<Rightarrow> False | Inr c \<Rightarrow> cf_RemoteConfigEnabled c" by code_simp
  then obtain c where c: "Load demo_config_lib demo_ini ''1.0'' = Inr c" "cf_RemoteConfigEnabled c"
    by (cases "Load demo_config_lib demo_ini ''1.0''") auto
  from Load_bounds [OF c(1)] c show ?thesis by blast
qed

end
