(* ===== verification/Resolver.thy ===== *)
theory Resolver
  imports Prelude
begin

text \<open>
  \<^verbatim>\<open>internal/source/resolver.go\<close> and \<^verbatim>\<open>config.go\<close>: fetching one document from the primary
  source with retries and exponential backoff, then once from each fallback, and the
  classification of one conditional GET of the configuration. Fetching and the
  cancellation of the context are the environment's; the model records every request
  and every wait, so the theorems bound them.
\<close>

section \<open>Environment\<close>

datatype fetch_error = ErrNotFound | ErrOther nat | ErrContext

text \<open>
  \<open>re_fetch s k\<close> is the answer of source \<open>s\<close> to the \<open>k\<close>-th request of the run;
  \<open>re_done k\<close> says the context is cancelled when checked after the \<open>k\<close>-th request;
  \<open>re_wait i\<close> that it is cancelled during the wait before attempt \<open>i\<close>.
\<close>

record ('s, 'd) renv =
  re_fetch :: "'s \<Rightarrow> nat \<Rightarrow> fetch_error + 'd"
  re_done :: "nat \<Rightarrow> bool"
  re_wait :: "nat \<Rightarrow> bool"

record 's resolver =
  rv_Primary :: 's
  rv_Fallbacks :: "'s list"
  rv_Attempts :: int
  rv_BaseBackoff :: duration

text \<open>
  The outcome: source and document, or an error (\<open>None\<close> would be Go's nil error), with
  the error kept in \<^verbatim>\<open>PrimaryErr\<close>, the sources asked in order and the waits made.
\<close>

record ('s, 'd) resolved =
  rd_result :: "fetch_error option + ('s \<times> 'd)"
  rd_PrimaryErr :: "fetch_error option"
  rd_calls :: "'s list"
  rd_waits :: "duration list"

definition effective_attempts :: "int \<Rightarrow> nat" where
  "effective_attempts a = nat (if a < 1 then 3 else a)"

definition effective_backoff :: "duration \<Rightarrow> duration" where
  "effective_backoff b = (if b \<le> 0 then 5 * Second else b)"

section \<open>The loops\<close>

datatype 'd primary_outcome = Served 'd | Stopped | GaveUp

text \<open>
  The retry loop from attempt \<open>i\<close> with \<open>n\<close> attempts left: the outcome, the last error,
  the number of requests made and the waits.
\<close>

fun primary_loop ::
  "('s, 'd) renv \<Rightarrow> 's \<Rightarrow> nat \<Rightarrow> nat \<Rightarrow> duration \<Rightarrow> fetch_error option \<Rightarrow>
   'd primary_outcome \<times> fetch_error option \<times> nat \<times> duration list" where
  "primary_loop E p 0 i backoff lastErr = (GaveUp, lastErr, 0, [])"
| "primary_loop E p (Suc n) i backoff lastErr =
     (if i > 0 \<and> re_wait E i then (Stopped, lastErr, 0, [])
      else
        let waits = (if i > 0 then [backoff] else []);
            backoff' = (if i > 0 then wrap64 (backoff * 2) else backoff)
        in case re_fetch E p i of
             Inr d \<Rightarrow> (Served d, lastErr, 1, waits)
           | Inl err \<Rightarrow>
               if re_done E i then (Stopped, Some err, 1, waits)
               else if err = ErrNotFound then (GaveUp, Some err, 1, waits)
               else let (out, le, k, ws) = primary_loop E p n (Suc i) backoff' (Some err)
                    in (out, le, Suc k, waits @ ws))"

text \<open>The loop over the fallbacks, \<open>k\<close> requests having been made.\<close>

fun fallback_loop ::
  "('s, 'd) renv \<Rightarrow> 's list \<Rightarrow> nat \<Rightarrow> fetch_error option \<Rightarrow>
   (fetch_error option + ('s \<times> 'd)) \<times> 's list" where
  "fallback_loop E [] k lastErr = (Inl lastErr, [])"
| "fallback_loop E (fb # fbs) k lastErr =
     (if re_done E k then (Inl (Some ErrContext), [])
      else case re_fetch E fb k of
        Inr d \<Rightarrow> (Inr (fb, d), [fb])
      | Inl err \<Rightarrow>
          let (r, calls) = fallback_loop E fbs (Suc k) (if err = ErrNotFound then Some err else lastErr)
          in (r, fb # calls))"

definition resolveWith :: "('s, 'd) renv \<Rightarrow> 's resolver \<Rightarrow> ('s, 'd) resolved" where
  "resolveWith E r =
     (let (out, lastErr, k, waits) =
            primary_loop E (rv_Primary r) (effective_attempts (rv_Attempts r)) 0
              (effective_backoff (rv_BaseBackoff r)) None;
          primary_calls = replicate k (rv_Primary r)
      in case out of
           Served d \<Rightarrow>
             \<lparr>rd_result = Inr (rv_Primary r, d), rd_PrimaryErr = lastErr, rd_calls = primary_calls, rd_waits = waits\<rparr>
         | Stopped \<Rightarrow>
             \<lparr>rd_result = Inl (Some ErrContext), rd_PrimaryErr = lastErr, rd_calls = primary_calls, rd_waits = waits\<rparr>
         | GaveUp \<Rightarrow>
             (let (res, calls) = fallback_loop E (rv_Fallbacks r) k lastErr
              in \<lparr>rd_result = res, rd_PrimaryErr = lastErr, rd_calls = primary_calls @ calls, rd_waits = waits\<rparr>))"

section \<open>One conditional GET of the configuration\<close>

text \<open>
  What the server answered: a status code, the length of the body it would send, the
  body and the ETag; \<open>None\<close> when the request failed.
\<close>

record config_answer =
  an_Status :: int
  an_Body :: string
  an_ETag :: string
  an_readable :: bool

record config_response =
  cr_Status :: int
  cr_Body :: string
  cr_ETag :: string

datatype config_error = ConfigRequestFailed | ConfigReadFailed | ConfigTooLarge | ConfigNotFound | ConfigStatus int

definition FetchConfig :: "nat \<Rightarrow> config_answer option \<Rightarrow> config_error + config_response" where
  "FetchConfig maxBody answer =
     (case answer of
        None \<Rightarrow> Inl ConfigRequestFailed
      | Some a \<Rightarrow>
          if an_Status a = 304 \<or> an_Status a = 204
          then Inr \<lparr>cr_Status = an_Status a, cr_Body = [], cr_ETag = an_ETag a\<rparr>
          else if an_Status a = 200 then
            (if \<not> an_readable a then Inl ConfigReadFailed
             else let body = take (maxBody + 1) (an_Body a)
                  in if length body > maxBody then Inl ConfigTooLarge
                     else Inr \<lparr>cr_Status = 200, cr_Body = body, cr_ETag = an_ETag a\<rparr>)
          else if an_Status a = 404 then Inl ConfigNotFound
          else Inl (ConfigStatus (an_Status a)))"

section \<open>Lemmas\<close>

lemma primary_loop_calls:
  "primary_loop E p n i b le = (out, le', k, ws) \<Longrightarrow> k \<le> n \<and> length ws \<le> n"
  by (induction E p n i b le arbitrary: out le' k ws rule: primary_loop.induct)
     (fastforce simp: Let_def split: if_splits sum.splits prod.splits)+

lemma primary_loop_Served:
  "primary_loop E p n i b le = (Served d, le', k, ws) \<Longrightarrow> k > 0 \<and> re_fetch E p (i + k - 1) = Inr d"
proof (induction n arbitrary: i b le le' k ws)
  case (Suc n)
  then show ?case
    by (auto simp: Let_def split: if_splits sum.splits prod.splits dest!: Suc.IH)
qed simp

lemma primary_loop_le:
  "primary_loop E p n i b le = (out, le', k, ws) \<Longrightarrow> le \<noteq> None \<Longrightarrow> le' \<noteq> None"
proof (induction n arbitrary: i b le le' k ws)
  case (Suc n)
  then show ?case
    by (fastforce simp: Let_def split: if_splits sum.splits prod.splits)
qed simp

text \<open>
  When the retry loop ends without an answer, every attempt it made failed; it stops
  early on a 404 only, which is then the last error.
\<close>

lemma primary_loop_GaveUp:
  "primary_loop E p n i b le = (GaveUp, le', k, ws) \<Longrightarrow>
   (n > 0 \<longrightarrow> le' \<noteq> None \<and> k > 0) \<and>
   (\<forall>j < k. \<exists>err. re_fetch E p (i + j) = Inl err \<and> (err = ErrNotFound \<longrightarrow> Suc j = k)) \<and>
   (k < n \<longrightarrow> le' = Some ErrNotFound)"
proof (induction n arbitrary: i b le le' k ws)
  case (Suc n)
  from Suc.prems have "\<not> (i > 0 \<and> re_wait E i)" by (auto split: if_splits)
  with Suc.prems obtain err where err: "re_fetch E p i = Inl err" "\<not> re_done E i"
    by (cases "re_fetch E p i") (auto simp: Let_def split: if_splits)
  show ?case
  proof (cases "err = ErrNotFound")
    case True
    with Suc.prems err have "k = 1 \<and> le' = Some ErrNotFound" by (auto simp: Let_def split: if_splits)
    with True err show ?thesis by simp
  next
    case False
    with Suc.prems err obtain b' k2 ws2
      where r: "primary_loop E p n (Suc i) b' (Some err) = (GaveUp, le', k2, ws2)" and k: "k = Suc k2"
      by (auto simp: Let_def split: if_splits prod.splits)
    have le': "le' \<noteq> None" using primary_loop_le [OF r] by simp
    note IH = Suc.IH [OF r]
    have "\<exists>err. re_fetch E p (i + j) = Inl err \<and> (err = ErrNotFound \<longrightarrow> Suc j = k)" if "j < k" for j
    proof (cases j)
      case 0
      then show ?thesis using err False by simp
    next
      case (Suc j')
      then show ?thesis using IH that k by auto
    qed
    then show ?thesis using IH le' k by auto
  qed
qed simp

lemma fallback_loop_calls:
  "fallback_loop E fbs k le = (r, calls) \<Longrightarrow>
   calls = take (length calls) fbs \<and>
   (\<forall>s d. r = Inr (s, d) \<longrightarrow> calls \<noteq> [] \<and> s = last calls \<and> re_fetch E s (k + length calls - 1) = Inr d)"
proof (induction fbs arbitrary: k le r calls)
  case (Cons fb fbs)
  from Cons.prems show ?case
    by (auto simp: Let_def split: if_splits sum.splits prod.splits dest!: Cons.IH)
qed simp

lemma fallback_loop_error:
  "fallback_loop E fbs k le = (Inl e, calls) \<Longrightarrow> le \<noteq> None \<Longrightarrow>
   e \<noteq> None \<and> (e \<noteq> Some ErrContext \<longrightarrow> calls = fbs) \<and>
   (\<forall>j < length calls. \<exists>err. re_fetch E (fbs ! j) (k + j) = Inl err)"
proof (induction fbs arbitrary: k le e calls)
  case (Cons fb fbs)
  show ?case
  proof (cases "re_done E k")
    case True
    then show ?thesis using Cons.prems by auto
  next
    case False
    with Cons.prems obtain err where err: "re_fetch E fb k = Inl err"
      by (cases "re_fetch E fb k") auto
    with False Cons.prems obtain calls'
      where r: "fallback_loop E fbs (Suc k) (if err = ErrNotFound then Some err else le) = (Inl e, calls')"
        and c: "calls = fb # calls'"
      by (auto simp: Let_def split: prod.splits)
    have IH: "e \<noteq> None \<and> (e \<noteq> Some ErrContext \<longrightarrow> calls' = fbs) \<and>
        (\<forall>j < length calls'. \<exists>err. re_fetch E (fbs ! j) (Suc k + j) = Inl err)"
      by (rule Cons.IH [OF r]) (use Cons.prems(2) in simp)
    have "\<exists>err. re_fetch E ((fb # fbs) ! j) (k + j) = Inl err" if "j < length calls" for j
      using IH err that c by (cases j) auto
    then show ?thesis using IH c by auto
  qed
qed simp

lemma effective_attempts_pos [simp]: "effective_attempts a > 0"
  by (simp add: effective_attempts_def)

lemma resolveWith_GaveUp:
  assumes p: "primary_loop E (rv_Primary r) (effective_attempts (rv_Attempts r)) 0 (effective_backoff (rv_BaseBackoff r)) None =
      (GaveUp, le, k, ws)" and fb: "fallback_loop E (rv_Fallbacks r) k le = (res, calls)"
  shows "rd_result (resolveWith E r) = res" "rd_calls (resolveWith E r) = replicate k (rv_Primary r) @ calls"
    "calls = take (length calls) (rv_Fallbacks r)"
    "res = Inr (s, d) \<Longrightarrow> calls \<noteq> [] \<and> s = last calls \<and> re_fetch E s (k + length calls - 1) = Inr d"
    "res = Inl e \<Longrightarrow> e \<noteq> None \<and> (e \<noteq> Some ErrContext \<longrightarrow> calls = rv_Fallbacks r) \<and>
      (\<forall>j < length calls. \<exists>err. re_fetch E (rv_Fallbacks r ! j) (k + j) = Inl err)"
proof -
  show "rd_result (resolveWith E r) = res" "rd_calls (resolveWith E r) = replicate k (rv_Primary r) @ calls"
    using p fb by (simp_all add: resolveWith_def Let_def)
  show "calls = take (length calls) (rv_Fallbacks r)"
    "res = Inr (s, d) \<Longrightarrow> calls \<noteq> [] \<and> s = last calls \<and> re_fetch E s (k + length calls - 1) = Inr d"
    using fallback_loop_calls [OF fb] by blast+
  assume "res = Inl e"
  then show "e \<noteq> None \<and> (e \<noteq> Some ErrContext \<longrightarrow> calls = rv_Fallbacks r) \<and>
      (\<forall>j < length calls. \<exists>err. re_fetch E (rv_Fallbacks r ! j) (k + j) = Inl err)"
    using fallback_loop_error [of E "rv_Fallbacks r" k le e calls] fb primary_loop_GaveUp [OF p] by simp
qed

section \<open>Properties\<close>


text \<open>
  \<^verbatim>\<open>PrimaryErr\<close> is not reset when the primary recovers: after a failed first attempt
  and a second one that serves the document, the resolver reports the document and
  still holds the first attempt's error.
\<close>

theorem PrimaryErr_kept_after_success:
  assumes "re_fetch E (rv_Primary r) 0 = Inl (ErrOther n)" "re_fetch E (rv_Primary r) 1 = Inr d"
    and "\<not> re_done E 0" "\<not> re_wait E 1" "rv_Attempts r \<ge> 2"
  shows "rd_result (resolveWith E r) = Inr (rv_Primary r, d) \<and>
    rd_PrimaryErr (resolveWith E r) = Some (ErrOther n)"
proof -
  have "effective_attempts (rv_Attempts r) \<ge> 2" using assms(5) by (simp add: effective_attempts_def)
  then obtain m where m: "effective_attempts (rv_Attempts r) = Suc (Suc m)"
    by (metis Suc_le_D numeral_2_eq_2 Suc_le_mono)
  show ?thesis using assms m by (simp add: resolveWith_def Let_def)
qed

text \<open>
  A configuration body is accepted only up to the size limit, and nothing but a
  200 ever carries a document: a 304 and a 204 come back without a body, a body over
  the limit, a 404 and any other status are errors.
\<close>

theorem FetchConfig_bounded:
  "FetchConfig maxBody answer = Inr resp \<Longrightarrow>
     length (cr_Body resp) \<le> maxBody \<and> cr_Status resp \<in> {200, 204, 304} \<and>
     (cr_Body resp \<noteq> [] \<longrightarrow> cr_Status resp = 200) \<and>
     (\<exists>a. answer = Some a \<and> cr_ETag resp = an_ETag a \<and> (cr_Status resp = 200 \<longrightarrow> cr_Body resp = an_Body a))"
  by (auto simp: FetchConfig_def Let_def split: option.splits if_splits)

section \<open>Witnesses\<close>

definition demo_renv :: "(string, nat) renv" where
  "demo_renv = \<lparr>re_fetch = (\<lambda>s k. if s = ''int'' then (if k = 0 then Inl (ErrOther 7) else Inr 42) else Inl ErrNotFound),
     re_done = (\<lambda>_. False), re_wait = (\<lambda>_. False)\<rparr>"

definition demo_resolver :: "string resolver" where
  "demo_resolver = \<lparr>rv_Primary = ''int'', rv_Fallbacks = [''ext''], rv_Attempts = 2, rv_BaseBackoff = 0\<rparr>"


theorem PrimaryErr_kept_after_success_witness:
  "rd_PrimaryErr (resolveWith demo_renv demo_resolver) = Some (ErrOther 7)"
  using PrimaryErr_kept_after_success [of demo_renv demo_resolver 7 42]
  by (simp add: demo_renv_def demo_resolver_def)

theorem FetchConfig_bounded_witness:
  "FetchConfig 4 (Some \<lparr>an_Status = 200, an_Body = ''abc'', an_ETag = ''e'', an_readable = True\<rparr>) =
     Inr \<lparr>cr_Status = 200, cr_Body = ''abc'', cr_ETag = ''e''\<rparr> \<and> length ''abc'' \<le> 4"
proof -
  have "FetchConfig 4 (Some \<lparr>an_Status = 200, an_Body = ''abc'', an_ETag = ''e'', an_readable = True\<rparr>) =
     Inr \<lparr>cr_Status = 200, cr_Body = ''abc'', cr_ETag = ''e''\<rparr>" by (simp add: FetchConfig_def Let_def)
  from FetchConfig_bounded [OF this] this show ?thesis by simp
qed

end
