(* ===== verification/RemoteConfig.thy ===== *)
theory RemoteConfig
  imports Config Resolver
begin

text \<open>
  \<^verbatim>\<open>internal/policy/store.go\<close>, \<^verbatim>\<open>cache.go\<close>, \<^verbatim>\<open>internal/service/remoteconfig.go\<close> and
  \<^verbatim>\<open>sourcepolicy.go\<close>: how a machine comes by the policy it runs. The snapshot in force,
  the file it is cached in, the refresh from the servers, what a cycle decides about
  the host, and the view EMLy gets over IPC.
\<close>

section \<open>Snapshots\<close>

datatype psource = SourceDefault | SourceCache | SourceRemote

record snapshot =
  sn_Parsed :: parsed
  sn_Source :: psource
  sn_FetchedAt :: time
  sn_FetchedFrom :: string
  sn_ETag :: string

definition Revision :: "snapshot \<Rightarrow> int" where
  "Revision s = d_Revision (pd_Global (sn_Parsed s))"

definition GeneratedAt :: "snapshot \<Rightarrow> string" where
  "GeneratedAt s = d_GeneratedAt (pd_Global (sn_Parsed s))"

definition Stale :: "snapshot \<Rightarrow> time \<Rightarrow> bool" where
  "Stale s now =
     (if sn_Source s = SourceDefault \<or> is_zero_time (sn_FetchedAt s) then False
      else let after = StaleAfter (d_Refresh (pd_Global (sn_Parsed s)))
           in if after \<le> 0 then False else time_sub now (sn_FetchedAt s) > after)"

section \<open>The cache file\<close>

record cache_file =
  cc_FetchedAt :: time
  cc_FetchedFrom :: string
  cc_ETag :: string
  cc_Document :: string

text \<open>
  The text of the cache file. \<open>cx_json\<close> is \<^verbatim>\<open>json.Marshal\<close> of the document;
  \<^verbatim>\<open>json.MarshalIndent\<close> of the file also indents the document inside it, which is what a
  later read finds, so \<open>cx_indent\<close> is applied between the two.
\<close>

record 'b cache_codec =
  cx_marshal :: "cache_file \<Rightarrow> 'b"
  cx_unmarshal :: "'b \<Rightarrow> cache_file option"
  cx_json :: "json \<Rightarrow> string"
  cx_indent :: "string \<Rightarrow> string"

text \<open>
  The documented behaviour of \<^verbatim>\<open>encoding/json\<close>: what was written is read back, here the
  cache file and the text of the document \<open>d\<close>.
\<close>

definition cache_codec_ok :: "golib \<Rightarrow> 'b cache_codec \<Rightarrow> document \<Rightarrow> bool" where
  "cache_codec_ok L x d \<longleftrightarrow>
     (\<forall>c. cx_unmarshal x (cx_marshal x c) = Some (c\<lparr>cc_Document := cx_indent x (cc_Document c)\<rparr>)) \<and>
     ParseJSON L (cx_indent x (cx_json x (JObj (enc_document d)))) = Some (JObj (enc_document d))"

datatype cache_error = CacheReadError | CacheCorrupt | CacheNoDocument

definition LoadCache :: "'b cache_codec \<Rightarrow> 'b env \<Rightarrow> string \<Rightarrow> 'b fs \<Rightarrow> cache_error + cache_file option" where
  "LoadCache x e path f =
     (case f path of
        None \<Rightarrow> if sys_ok e OpRead then Inr None else Inl CacheReadError
      | Some data \<Rightarrow>
          if \<not> sys_ok e OpRead then Inl CacheReadError
          else case cx_unmarshal x data of
            None \<Rightarrow> Inl CacheCorrupt
          | Some c \<Rightarrow> if cc_Document c = [] then Inl CacheNoDocument else Inr (Some c))"

definition SaveCache :: "'b cache_codec \<Rightarrow> 'b env \<Rightarrow> string \<Rightarrow> cache_file \<Rightarrow> 'b fs \<Rightarrow> 'b fs list \<times> bool" where
  "SaveCache x e path c f = atomic_save e True path (cx_marshal x c) f"

definition QuarantineCache :: "'b env \<Rightarrow> string \<Rightarrow> string \<Rightarrow> 'b fs \<Rightarrow> 'b fs" where
  "QuarantineCache e path badPath f =
     (let f = remove e badPath f in if sys_ok e OpRename then rename path badPath f else f)"

text \<open>Moving the cache aside before a self-update, and back; \<open>False\<close> is an error.\<close>

definition retireCache :: "'b env \<Rightarrow> string \<Rightarrow> string \<Rightarrow> 'b fs \<Rightarrow> 'b fs \<times> bool" where
  "retireCache e path prevPath f =
     (if f path = None then (f, True)
      else if sys_ok e OpRename then (rename path prevPath f, True) else (f, False))"

definition restoreCache :: "'b env \<Rightarrow> string \<Rightarrow> string \<Rightarrow> 'b fs \<Rightarrow> 'b fs \<times> bool" where
  "restoreCache e path prevPath f =
     (if f path \<noteq> None \<and> sys_ok e OpRead then (f, True)
      else if f prevPath = None then (f, True)
      else if sys_ok e OpRename then (rename prevPath path f, True) else (f, False))"

section \<open>The updater's policy state\<close>

text \<open>The fields of \<^verbatim>\<open>Updater\<close> the configuration code reads and writes.\<close>

record 'b policy_state =
  po_Policy :: snapshot
  po_host :: "host option"
  po_lastConfigAttempt :: time
  po_configUnreachable :: bool
  po_lastStaleWarn :: time
  po_paused :: bool
  po_files :: "'b fs"

text \<open>What does not change while the service runs.\<close>

record 'b policy_setup =
  pu_lib :: golib
  pu_cfg :: config
  pu_defaults :: defaults
  pu_codec :: "'b cache_codec"
  pu_cachePath :: string
  pu_badPath :: string

text \<open>
  \<^verbatim>\<open>initPolicy\<close>: the snapshot the service starts with, given the default policy, and the
  files afterwards.
\<close>

definition initPolicy :: "'b policy_setup \<Rightarrow> 'b env \<Rightarrow> snapshot \<Rightarrow> 'b fs \<Rightarrow> snapshot \<times> 'b fs" where
  "initPolicy u e fallback f =
     (if \<not> cf_RemoteConfigEnabled (pu_cfg u) then (fallback, f)
      else case LoadCache (pu_codec u) e (pu_cachePath u) f of
        Inl _ \<Rightarrow> (fallback, QuarantineCache e (pu_cachePath u) (pu_badPath u) f)
      | Inr None \<Rightarrow> (fallback, f)
      | Inr (Some cache) \<Rightarrow>
          (case Parse_policy (pu_lib u) (cc_Document cache) (pu_defaults u) of
             Inl _ \<Rightarrow> (fallback, QuarantineCache e (pu_cachePath u) (pu_badPath u) f)
           | Inr p \<Rightarrow>
               (\<lparr>sn_Parsed = p, sn_Source = SourceCache, sn_FetchedAt = cc_FetchedAt cache,
                 sn_FetchedFrom = cc_FetchedFrom cache, sn_ETag = cc_ETag cache\<rparr>, f)))"

section \<open>Where to ask\<close>

record candidate =
  cd_name :: string
  cd_base :: string

definition add_candidate :: "string \<Rightarrow> string \<Rightarrow> candidate list \<Rightarrow> candidate list" where
  "add_candidate name base0 out =
     (let base = TrimRightChar CHR ''/'' base0
      in if base = [] \<or> base \<in> cd_base ` set out then out else out @ [\<lparr>cd_name = name, cd_base = base\<rparr>])"

definition zero_host :: host where
  "zero_host = \<lparr>h_HWID = [], h_Hostname = [], h_DC = [], h_Domain = [], h_IPs = [], h_Now = 0\<rparr>"

text \<open>The servers the current policy assigns to this machine, then its default server.\<close>

definition policyCandidates :: "'b policy_setup \<Rightarrow> time \<Rightarrow> 'b policy_state \<Rightarrow> candidate list" where
  "policyCandidates u now st =
     (let host = (case po_host st of Some h \<Rightarrow> h | None \<Rightarrow> zero_host\<lparr>h_Now := now\<rparr>)
      in case Effective (pu_lib u) (sn_Parsed (po_Policy st)) host of
           (e, None) \<Rightarrow>
             (let out = foldl (\<lambda>out name. add_candidate name (BaseURL e name) out) [] (snd (Chain (pu_lib u) e host))
              in if d_DefaultServer (e_Doc e) \<noteq> []
                 then add_candidate (d_DefaultServer (e_Doc e)) (BaseURL e (d_DefaultServer (e_Doc e))) out
                 else out)
         | (_, Some _) \<Rightarrow> [])"

definition configCandidates :: "'b policy_setup \<Rightarrow> time \<Rightarrow> 'b policy_state \<Rightarrow> candidate list" where
  "configCandidates u now st =
     foldl (\<lambda>out ep. add_candidate ep ep out) (policyCandidates u now st) (cf_RemoteConfigEndpoints (pu_cfg u))"

section \<open>Refreshing\<close>

text \<open>
  \<^verbatim>\<open>saveCache\<close>: the file system afterwards; a failure is tolerated.
\<close>

definition saveCache :: "'b policy_setup \<Rightarrow> 'b env \<Rightarrow> snapshot \<Rightarrow> 'b fs \<Rightarrow> 'b fs" where
  "saveCache u e snap f =
     (if sn_Source snap = SourceDefault then f
      else
        (let c = \<lparr>cc_FetchedAt = sn_FetchedAt snap, cc_FetchedFrom = sn_FetchedFrom snap, cc_ETag = sn_ETag snap,
                  cc_Document = cx_json (pu_codec u) (JObj (enc_document (pd_Global (sn_Parsed snap))))\<rparr>
         in final f (SaveCache (pu_codec u) e (pu_cachePath u) c f)))"

definition confirmSnapshot ::
  "'b policy_setup \<Rightarrow> 'b env \<Rightarrow> snapshot \<Rightarrow> string \<Rightarrow> time \<Rightarrow> 'b policy_state \<Rightarrow> 'b policy_state" where
  "confirmSnapshot u e snap from now st =
     (let fresh = snap\<lparr>sn_Source := SourceRemote, sn_FetchedAt := now, sn_FetchedFrom := from\<rparr>
      in st\<lparr>po_Policy := fresh, po_files := saveCache u e fresh (po_files st)\<rparr>)"

definition acceptDocument ::
  "'b policy_setup \<Rightarrow> 'b env \<Rightarrow> config_response \<Rightarrow> string \<Rightarrow> time \<Rightarrow> 'b policy_state \<Rightarrow> 'b policy_state" where
  "acceptDocument u e resp from now st =
     (let cur = po_Policy st in
      case Parse_policy (pu_lib u) (cr_Body resp) (pu_defaults u) of
        Inl _ \<Rightarrow> st
      | Inr p \<Rightarrow>
          if sn_Source cur \<noteq> SourceDefault \<and> d_Revision (pd_Global p) < Revision cur then st
          else
            (let snap = \<lparr>sn_Parsed = p, sn_Source = SourceRemote, sn_FetchedAt = now, sn_FetchedFrom = from,
                         sn_ETag = cr_ETag resp\<rparr>
             in st\<lparr>po_Policy := snap, po_files := saveCache u e snap (po_files st)\<rparr>))"

text \<open>
  The loop over the candidates. \<open>fetch\<close> is what the server at a URL answers to a
  conditional request, \<open>cancelled\<close> whether the context has ended before the \<open>i\<close>-th one.
\<close>

record refresh_env =
  rq_now :: time
  rq_fetch :: "string \<Rightarrow> string \<Rightarrow> config_answer option"
  rq_cancelled :: "nat \<Rightarrow> bool"

fun refresh_loop ::
  "'b policy_setup \<Rightarrow> 'b env \<Rightarrow> refresh_env \<Rightarrow> string \<Rightarrow> nat \<Rightarrow> candidate list \<Rightarrow> 'b policy_state \<Rightarrow> 'b policy_state" where
  "refresh_loop u e r etag i [] st = st\<lparr>po_configUnreachable := True\<rparr>"
| "refresh_loop u e r etag i (c # cs) st =
     (if rq_cancelled r i then st
      else case FetchConfig MaxDocumentSize (rq_fetch r (cd_base c @ cf_RemoteConfigRoute (pu_cfg u)) etag) of
        Inl _ \<Rightarrow> refresh_loop u e r etag (Suc i) cs st
      | Inr resp \<Rightarrow>
          (let st = st\<lparr>po_configUnreachable := False\<rparr>
           in if cr_Status resp = 304 then confirmSnapshot u e (po_Policy st) (cd_name c) (rq_now r) st
              else if cr_Status resp = 204 then st
              else acceptDocument u e resp (cd_name c) (rq_now r) st))"

definition refreshConfig :: "'b policy_setup \<Rightarrow> 'b env \<Rightarrow> refresh_env \<Rightarrow> bool \<Rightarrow> 'b policy_state \<Rightarrow> 'b policy_state" where
  "refreshConfig u e r force st =
     (if \<not> cf_RemoteConfigEnabled (pu_cfg u) then st
      else if \<not> force \<and> \<not> is_zero_time (po_lastConfigAttempt st) \<and>
              time_sub (rq_now r) (po_lastConfigAttempt st) <
              refresh_Interval (d_Refresh (pd_Global (sn_Parsed (po_Policy st))))
      then st
      else
        (let st = st\<lparr>po_lastConfigAttempt := rq_now r\<rparr>;
             etag = (if sn_Source (po_Policy st) \<noteq> SourceDefault then sn_ETag (po_Policy st) else [])
         in refresh_loop u e r etag 0 (configCandidates u (rq_now r) st) st))"

text \<open>Any number of refreshes, each in its own environment.\<close>

definition refreshes ::
  "'b policy_setup \<Rightarrow> ('b env \<times> refresh_env \<times> bool) list \<Rightarrow> 'b policy_state \<Rightarrow> 'b policy_state" where
  "refreshes u rs st = foldl (\<lambda>st (e, r, force). refreshConfig u e r force st) st rs"

section \<open>Gates\<close>

definition staleWarnEvery :: duration where "staleWarnEvery = 24 * Hour"

text \<open>Whether event 903 is logged now.\<close>

definition warnIfStale :: "snapshot \<Rightarrow> time \<Rightarrow> 'b policy_state \<Rightarrow> bool \<times> 'b policy_state" where
  "warnIfStale snap now st =
     (if \<not> Stale snap now then (False, st\<lparr>po_lastStaleWarn := 0\<rparr>)
      else if \<not> is_zero_time (po_lastStaleWarn st) \<and> time_sub now (po_lastStaleWarn st) < staleWarnEvery then (False, st)
      else (True, st\<lparr>po_lastStaleWarn := now\<rparr>))"

text \<open>Whether the updater may run, and whether a transition was logged.\<close>

definition applyControlGate :: "golib \<Rightarrow> effective \<Rightarrow> host \<Rightarrow> 'b policy_state \<Rightarrow> bool \<times> bool \<times> 'b policy_state" where
  "applyControlGate L eff host st =
     (let (enabled, reason) = UpdaterEnabled L eff (h_Now host);
          logged = (\<not> enabled \<and> \<not> po_paused st \<or> enabled \<and> po_paused st)
      in (enabled, logged, st\<lparr>po_paused := \<not> enabled\<rparr>))"

section \<open>The view for EMLy\<close>

record policy_view =
  pv_Document :: document
  pv_Revision :: int
  pv_GeneratedAt :: string
  pv_FetchedAt :: time
  pv_Source :: psource
  pv_Stale :: bool
  pv_HostWhitelisted :: bool
  pv_IPC :: ipc_protocol

definition policyView :: "golib \<Rightarrow> time \<Rightarrow> snapshot \<Rightarrow> effective \<Rightarrow> host \<Rightarrow> policy_view" where
  "policyView L now snap eff host =
     (let doc = (e_Doc eff)\<lparr>d_Overrides := []\<rparr>;
          doc = (if fst (UpdaterEnabled L eff now)
                 then doc\<lparr>d_Control := (d_Control doc)\<lparr>co_Updater := \<lparr>cu_Enabled = True, cu_Reason = None, cu_Until = None\<rparr>\<rparr>\<rparr>
                 else doc);
          doc = doc\<lparr>d_Control := (d_Control doc)\<lparr>co_App := AppControl L eff now\<rparr>\<rparr>
      in \<lparr>pv_Document = doc, pv_Revision = Revision snap, pv_GeneratedAt = GeneratedAt snap,
          pv_FetchedAt = sn_FetchedAt snap, pv_Source = sn_Source snap, pv_Stale = Stale snap now,
          pv_HostWhitelisted = IsWhitelisted eff host, pv_IPC = d_IPCProtocol (e_Doc eff)\<rparr>)"

section \<open>Lemmas\<close>

lemma saveCache_policy [simp]:
  "po_Policy (confirmSnapshot u e snap from now st) =
     snap\<lparr>sn_Source := SourceRemote, sn_FetchedAt := now, sn_FetchedFrom := from\<rparr>"
  by (simp add: confirmSnapshot_def Let_def)

text \<open>What one refresh may do to the policy in force.\<close>

definition policy_step :: "'b policy_setup \<Rightarrow> snapshot \<Rightarrow> snapshot \<Rightarrow> bool" where
  "policy_step u s s' \<longleftrightarrow>
     s' = s \<or>
     sn_Parsed s' = sn_Parsed s \<and> sn_Source s' = SourceRemote \<and> sn_ETag s' = sn_ETag s \<or>
     (\<exists>body. length body \<le> MaxDocumentSize \<and> Parse_policy (pu_lib u) body (pu_defaults u) = Inr (sn_Parsed s') \<and>
        sn_Source s' = SourceRemote \<and> (sn_Source s \<noteq> SourceDefault \<longrightarrow> Revision s \<le> Revision s'))"

lemma Parse_policy_size: "Parse_policy L body defs = Inr p \<Longrightarrow> length body \<le> MaxDocumentSize"
  by (auto simp: Parse_policy_def split: if_splits)

lemma acceptDocument_step: "policy_step u (po_Policy st) (po_Policy (acceptDocument u e resp from now st))"
proof (cases "Parse_policy (pu_lib u) (cr_Body resp) (pu_defaults u)")
  case (Inr p)
  show ?thesis
    using Inr Parse_policy_size [OF Inr] unfolding policy_step_def
    by (auto simp: acceptDocument_def Let_def Revision_def)
qed (simp add: acceptDocument_def policy_step_def)

lemma refresh_loop_step: "policy_step u (po_Policy st) (po_Policy (refresh_loop u e r etag i cs st))"
proof (induction cs arbitrary: i)
  case (Cons c cs)
  then show ?case
    using acceptDocument_step [of u "st\<lparr>po_configUnreachable := False\<rparr>"]
    by (auto simp: Let_def split: sum.split) (auto simp: policy_step_def)
qed (simp add: policy_step_def)

lemma refreshConfig_step: "policy_step u (po_Policy st) (po_Policy (refreshConfig u e r force st))"
  using refresh_loop_step [of u "st\<lparr>po_lastConfigAttempt := rq_now r\<rparr>"]
  by (auto simp: refreshConfig_def Let_def policy_step_def [of u "po_Policy st" "po_Policy st"])

text \<open>A selector that names hosts is written with \<^verbatim>\<open>all\<close> set to false, which no reader accepts.\<close>

lemma enc_override_rejected:
  assumes "\<not> sl_All (ov_Match ov)"
  shows "snd (parseOverrideList L i seen (enc_override ov # items)) \<noteq> []"
proof -
  obtain m where m: "enc_override ov = JObj m" "map_of m ''match'' = Some (enc_selector (ov_Match ov))"
    by (simp add: enc_override_def)
  have "validateSelector L s (enc_selector (ov_Match ov)) path True \<noteq> []" for s path
    using assms by (simp add: validateSelector_def enc_selector_def Let_def)
  then have "checkOverride L seen path m o1 \<noteq> []" for path o1
    by (simp add: checkOverride_def m(2))
  then show ?thesis
    by (simp add: m(1) Let_def case_prod_unfold del: canon.simps split: option.split)
qed

lemma parseOverrideList_rejected:
  assumes "ov \<in> set ovs" "\<not> sl_All (ov_Match ov)"
  shows "snd (parseOverrideList L i seen (map enc_override ovs)) \<noteq> []"
  using assms(1)
proof (induction ovs arbitrary: i seen)
  case (Cons o1 ovs)
  obtain m where m: "enc_override o1 = JObj m" by (simp add: enc_override_def)
  show ?case
  proof (cases "o1 = ov")
    case True
    then show ?thesis using enc_override_rejected [OF assms(2)] by simp
  next
    case False
    then show ?thesis
      using Cons by (simp add: m Let_def case_prod_unfold del: canon.simps split: option.split)
  qed
qed simp

lemma reread_rejected:
  assumes "ParseJSON L text = Some (JObj (enc_document d))" "ov \<in> set (d_Overrides d)" "\<not> sl_All (ov_Match ov)"
  shows "\<exists>ps. Parse_policy L text defs = Inl ps"
proof -
  have "enc_slice enc_override (d_Overrides d) = JArr (map enc_override (d_Overrides d))"
    using assms(2) by (auto simp: enc_slice_def)
  then have ov: "jentry (enc_document d) ''overrides'' = JArr (map enc_override (d_Overrides d))"
    by (simp add: enc_document_def)
  obtain ovs ops where p: "parseOverrides L (jentry (enc_document d) ''overrides'') = (ovs, ops)"
    by (cases "parseOverrides L (jentry (enc_document d) ''overrides'')")
  then have "ops \<noteq> []"
    using parseOverrideList_rejected [OF assms(2,3), of L 0 "{}"] ov by (simp add: parseOverrides_def)
  then show ?thesis
    using assms(1) p
    by (auto simp: Parse_policy_def Let_def case_prod_unfold split: option.splits sum.splits if_splits)
qed

lemma saveCache_ok:
  assumes "sn_Source snap \<noteq> SourceDefault" "\<forall>op. sys_ok e op" "sys_tmp e \<noteq> pu_cachePath u"
  shows "saveCache u e snap f (pu_cachePath u) = Some (cx_marshal (pu_codec u)
    \<lparr>cc_FetchedAt = sn_FetchedAt snap, cc_FetchedFrom = sn_FetchedFrom snap, cc_ETag = sn_ETag snap,
     cc_Document = cx_json (pu_codec u) (JObj (enc_document (pd_Global (sn_Parsed snap))))\<rparr>)"
  using assms by (simp add: saveCache_def SaveCache_def atomic_save_def final_def rename_def Let_def)

definition candidates_ok :: "candidate list \<Rightarrow> bool" where
  "candidates_ok out \<longleftrightarrow> distinct (map cd_base out) \<and> [] \<notin> cd_base ` set out"

lemma candidates_ok_Nil [inv_intros]: "candidates_ok []"
  by (simp add: candidates_ok_def)

lemma candidates_ok_add [inv_intros]: "candidates_ok out \<Longrightarrow> candidates_ok (add_candidate n b out)"
  by (auto simp: add_candidate_def candidates_ok_def Let_def)

lemma add_candidate_in: "TrimRightChar CHR ''/'' b \<noteq> [] \<Longrightarrow> TrimRightChar CHR ''/'' b \<in> cd_base ` set (add_candidate n b out)"
  by (auto simp: add_candidate_def Let_def)

lemma candidates_ok_foldl [inv_intros]:
  "candidates_ok out \<Longrightarrow> candidates_ok (foldl (\<lambda>out n. add_candidate n (f n) out) out ns)"
  by (induction ns arbitrary: out) (simp_all add: candidates_ok_add)

lemma foldl_candidates_mono: "set out \<subseteq> set (foldl (\<lambda>out n. add_candidate n (f n) out) out ns)"
proof (induction ns arbitrary: out)
  case (Cons n ns)
  have "set out \<subseteq> set (add_candidate n (f n) out)" by (auto simp: add_candidate_def Let_def)
  with Cons [of "add_candidate n (f n) out"] show ?case by auto
qed simp

lemma foldl_candidates_in:
  assumes "n \<in> set ns" "TrimRightChar CHR ''/'' (f n) \<noteq> []"
  shows "TrimRightChar CHR ''/'' (f n) \<in> cd_base ` set (foldl (\<lambda>out n. add_candidate n (f n) out) out ns)"
  using assms(1)
proof (induction ns arbitrary: out)
  case (Cons m ns)
  show ?case
  proof (cases "n = m")
    case True
    then show ?thesis
      using add_candidate_in [OF assms(2), of m out] foldl_candidates_mono [of "add_candidate m (f m) out" f ns] by auto
  qed (use Cons in simp)
qed simp

lemma policyCandidates_ok: "candidates_ok (policyCandidates u now st)"
  by (auto simp: policyCandidates_def Let_def intro!: inv_intros split: prod.split option.split)

section \<open>Properties\<close>

text \<open>
  Whatever the servers answer, over any number of refreshes the policy in force is
  the one the service started with or a document that passed validation in full and
  is at most 1 MiB long; and once the machine runs a document, its revision never goes
  down.
\<close>

theorem refreshes_sound:
  assumes "sn_Source (po_Policy st) \<noteq> SourceDefault"
  shows "(sn_Parsed (po_Policy (refreshes u rs st)) = sn_Parsed (po_Policy st) \<or>
      (\<exists>body. length body \<le> MaxDocumentSize \<and>
         Parse_policy (pu_lib u) body (pu_defaults u) = Inr (sn_Parsed (po_Policy (refreshes u rs st))))) \<and>
    Revision (po_Policy st) \<le> Revision (po_Policy (refreshes u rs st)) \<and>
    sn_Source (po_Policy (refreshes u rs st)) \<noteq> SourceDefault"
proof (induction rs rule: rev_induct)
  case Nil
  then show ?case using assms by (simp add: refreshes_def)
next
  case (snoc x rs)
  obtain e r force where x: "x = (e, r, force)" by (cases x)
  let ?s = "refreshes u rs st"
  have step: "policy_step u (po_Policy ?s) (po_Policy (refreshes u (rs @ [x]) st))"
    using refreshConfig_step [of u ?s e r force] by (simp add: refreshes_def x)
  then consider "po_Policy (refreshes u (rs @ [x]) st) = po_Policy ?s"
    | "sn_Parsed (po_Policy (refreshes u (rs @ [x]) st)) = sn_Parsed (po_Policy ?s)"
      "sn_Source (po_Policy (refreshes u (rs @ [x]) st)) = SourceRemote"
    | body where "length body \<le> MaxDocumentSize"
      "Parse_policy (pu_lib u) body (pu_defaults u) = Inr (sn_Parsed (po_Policy (refreshes u (rs @ [x]) st)))"
      "sn_Source (po_Policy (refreshes u (rs @ [x]) st)) = SourceRemote"
      "Revision (po_Policy ?s) \<le> Revision (po_Policy (refreshes u (rs @ [x]) st))"
    using snoc by (auto simp: policy_step_def)
  then show ?case
  proof cases
    case 2
    then have "Revision (po_Policy (refreshes u (rs @ [x]) st)) = Revision (po_Policy ?s)" by (simp add: Revision_def)
    then show ?thesis using 2 snoc by auto
  qed (use snoc in auto)
qed

text \<open>
  The last-known-good document is lost on a restart when it targets hosts. The cache
  holds the document as this build writes it, and a selector that lists hosts is written
  with \<^verbatim>\<open>all\<close> set to false, which the reader refuses; so when the accepted document has
  an override whose \<^verbatim>\<open>match\<close> is not \<^verbatim>\<open>all\<close>, a start with nothing wrong with the disk
  rejects the cache, moves it aside and runs the default policy.
\<close>

theorem cached_host_override_rejected:
  assumes "cache_codec_ok (pu_lib u) (pu_codec u) (pd_Global (sn_Parsed snap))" "cf_RemoteConfigEnabled (pu_cfg u)"
    and "sn_Source snap \<noteq> SourceDefault" "\<forall>op. sys_ok e op" "sys_tmp e \<noteq> pu_cachePath u"
    and "\<forall>op. sys_ok e' op" "pu_badPath u \<noteq> pu_cachePath u"
    and "ov \<in> set (d_Overrides (pd_Global (sn_Parsed snap)))" "\<not> sl_All (ov_Match ov)"
  shows "fst (initPolicy u e' fallback (saveCache u e snap f)) = fallback \<and>
    snd (initPolicy u e' fallback (saveCache u e snap f)) (pu_cachePath u) = None"
proof -
  let ?f = "saveCache u e snap f"
  let ?doc = "cx_indent (pu_codec u) (cx_json (pu_codec u) (JObj (enc_document (pd_Global (sn_Parsed snap)))))"
  note saved = saveCache_ok [OF assms(3-5), of f]
  have parse: "ParseJSON (pu_lib u) ?doc = Some (JObj (enc_document (pd_Global (sn_Parsed snap))))"
    using assms(1) by (simp add: cache_codec_ok_def)
  obtain ps where ps: "Parse_policy (pu_lib u) ?doc (pu_defaults u) = Inl ps"
    using reread_rejected [OF parse assms(8,9)] by blast
  have q: "QuarantineCache e' (pu_cachePath u) (pu_badPath u) ?f (pu_cachePath u) = None"
    using assms(6,7) saved by (simp add: QuarantineCache_def remove_def rename_def Let_def)
  show ?thesis
    using assms(1,2,6) saved ps q by (simp add: initPolicy_def LoadCache_def cache_codec_ok_def)
qed

text \<open>
  A machine always reaches its bootstrap endpoints. The servers asked for the
  configuration are distinct, none is empty, and every endpoint of \<^verbatim>\<open>config.ini\<close> is among
  them whatever the current policy says, so a policy that names unreachable servers
  cannot cut a machine off from its successor.
\<close>

theorem bootstrap_always_asked:
  assumes "ep \<in> set (cf_RemoteConfigEndpoints (pu_cfg u))" "TrimRightChar CHR ''/'' ep \<noteq> []"
  shows "TrimRightChar CHR ''/'' ep \<in> cd_base ` set (configCandidates u now st) \<and>
    distinct (map cd_base (configCandidates u now st)) \<and> [] \<notin> cd_base ` set (configCandidates u now st)"
proof -
  have "candidates_ok (configCandidates u now st)"
    unfolding configCandidates_def by (rule candidates_ok_foldl [OF policyCandidates_ok, where f = "\<lambda>n. n"])
  then show ?thesis
    unfolding candidates_ok_def configCandidates_def
    using foldl_candidates_in [where f = "\<lambda>n. n", OF assms] by simp
qed

text \<open>
  A server that answers 304 although it was asked unconditionally turns the default
  policy into one that counts as fetched and is cached.
\<close>

lemma unconditional_304_promotes_default:
  assumes "sn_Source (po_Policy st) = SourceDefault"
    and "rq_fetch r (cd_base c @ cf_RemoteConfigRoute (pu_cfg u)) [] = Some a" "an_Status a = 304" "\<not> rq_cancelled r 0"
  shows "sn_Source (po_Policy (refresh_loop u e r [] 0 (c # cs) st)) = SourceRemote"
  using assms by (simp add: FetchConfig_def Let_def)

section \<open>A concrete machine\<close>

definition demo_policy_config :: config where
  "demo_policy_config = demo_config\<lparr>cf_RemoteConfigEndpoints := [''https://api/'']\<rparr>"

definition demo_cached :: document where
  "demo_cached = zero_document\<lparr>d_SchemaVersion := 1, d_Revision := 4,
     d_Overrides := [\<lparr>ov_ID = ''o1'', ov_Match = zero_selector\<lparr>sl_Hostnames := [''PC1'']\<rparr>, ov_Except = None,
       ov_Until = None, ov_Patch = Some []\<rparr>]\<rparr>"

definition demo_policy_setup :: "cache_file policy_setup" where
  "demo_policy_setup =
     \<lparr>pu_lib = demo_config_lib\<lparr>ParseJSON := (\<lambda>_. Some (JObj (enc_document demo_cached)))\<rparr>, pu_cfg = demo_policy_config,
      pu_defaults = DefaultsFromConfig demo_policy_config \<lparr>ip_Versions = [], ip_DefaultVersion = 1\<rparr> False,
      pu_codec = \<lparr>cx_marshal = id, cx_unmarshal = Some, cx_json = (\<lambda>_. ''doc''), cx_indent = id\<rparr>,
      pu_cachePath = ''rc.json'', pu_badPath = ''rc.bad''\<rparr>"

definition demo_snapshot :: "psource \<Rightarrow> snapshot" where
  "demo_snapshot src = \<lparr>sn_Parsed = \<lparr>pd_Global = demo_cached, pd_raw = [], pd_defaults = [], pd_legacyManifestURLs = []\<rparr>,
     sn_Source = src, sn_FetchedAt = 1, sn_FetchedFrom = ''s'', sn_ETag = ''e''\<rparr>"

definition demo_files :: "cache_file env" where
  "demo_files = \<lparr>sys_ok = (\<lambda>_. True), sys_tmp = ''rc.tmp'',
     sys_torn = \<lparr>cc_FetchedAt = 0, cc_FetchedFrom = [], cc_ETag = [], cc_Document = []\<rparr>\<rparr>"

definition demo_policy_state :: "cache_file policy_state" where
  "demo_policy_state = \<lparr>po_Policy = demo_snapshot SourceCache, po_host = None, po_lastConfigAttempt = 0,
     po_configUnreachable = False, po_lastStaleWarn = 0, po_paused = False, po_files = (\<lambda>_. None)\<rparr>"

lemmas demo_policy_defs = demo_policy_setup_def demo_policy_config_def demo_snapshot_def demo_files_def
  demo_policy_state_def demo_cached_def

theorem refreshes_sound_witness:
  "Revision (po_Policy demo_policy_state) \<le> Revision (po_Policy (refreshes demo_policy_setup
     [(demo_files, \<lparr>rq_now = 5, rq_fetch = (\<lambda>_ _. None), rq_cancelled = (\<lambda>_. False)\<rparr>, True)] demo_policy_state))"
  using refreshes_sound [of demo_policy_state demo_policy_setup] by (simp add: demo_policy_state_def demo_snapshot_def)

theorem cached_host_override_rejected_witness:
  "fst (initPolicy demo_policy_setup demo_files (demo_snapshot SourceDefault)
     (saveCache demo_policy_setup demo_files (demo_snapshot SourceRemote) (\<lambda>_. None))) = demo_snapshot SourceDefault"
proof -
  have "cache_codec_ok (pu_lib demo_policy_setup) (pu_codec demo_policy_setup)
      (pd_Global (sn_Parsed (demo_snapshot SourceRemote)))"
    by (simp add: cache_codec_ok_def demo_policy_setup_def demo_snapshot_def)
  from cached_host_override_rejected [OF this, where e = demo_files and e' = demo_files and f = "\<lambda>_. None"
      and fallback = "demo_snapshot SourceDefault" and ov = "hd (d_Overrides demo_cached)"]
  show ?thesis by (simp add: demo_policy_defs demo_config_def zero_selector_def)
qed

theorem bootstrap_always_asked_witness:
  "''https://api'' \<in> cd_base ` set (configCandidates demo_policy_setup 5 demo_policy_state)"
proof -
  have "TrimRightChar CHR ''/'' ''https://api/'' = ''https://api''" by (simp add: TrimRightChar_def)
  then show ?thesis
    using bootstrap_always_asked [of "''https://api/''" demo_policy_setup 5 demo_policy_state]
    by (simp add: demo_policy_setup_def demo_policy_config_def)
qed

end
