(* ===== verification/Sources.thy ===== *)
theory Sources
  imports RemoteConfig Manifest
begin

text \<open>
  \<^verbatim>\<open>internal/service/sourcepolicy.go\<close>, \<^verbatim>\<open>preferred.go\<close> and the source resolution of
  \<^verbatim>\<open>service.go\<close> and \<^verbatim>\<open>selfupdate.go\<close>: the facts a cycle gathers about the host, the server
  chain it gives, the server a session has found to work, and the resolution of the two
  manifests over the chain. An HTTP source is identified by its manifest URL.
\<close>

section \<open>The host\<close>

definition dcCacheTTL :: duration where "dcCacheTTL = Hour"

definition DomainJoined :: "string \<Rightarrow> string \<Rightarrow> bool" where
  "DomainJoined adDomain hostname =
     (let d = TrimSpace adDomain
      in if d = [] \<or> EqualFold d ''WORKGROUP'' then False else \<not> EqualFold d hostname)"

text \<open>The answer of the lookup: the domain controller's name, or a failure.\<close>

type_synonym dc_answer = "string option"

text \<open>
  The retries of \<^verbatim>\<open>resolveDC\<close>: \<open>dcFn k\<close> is the \<open>k\<close>-th answer, \<open>stop k\<close> whether the context
  ends during the wait before it. The number of lookups is returned with the answer.
\<close>

fun dc_retries :: "(nat \<Rightarrow> dc_answer) \<Rightarrow> (nat \<Rightarrow> bool) \<Rightarrow> nat \<Rightarrow> nat \<Rightarrow> dc_answer \<times> nat" where
  "dc_retries dcFn stop k 0 = (None, 0)"
| "dc_retries dcFn stop k (Suc n) =
     (if stop k then (None, 0)
      else case dcFn k of
        Some dc \<Rightarrow> (Some dc, 1)
      | None \<Rightarrow> (let (r, c) = dc_retries dcFn stop (Suc k) n in (r, Suc c)))"

definition resolveDC ::
  "dc_lookup_retry \<Rightarrow> bool \<Rightarrow> (nat \<Rightarrow> dc_answer) \<Rightarrow> (nat \<Rightarrow> bool) \<Rightarrow> dc_answer \<times> nat" where
  "resolveDC retry domainJoined dcFn stop =
     (case dcFn 0 of
        Some dc \<Rightarrow> (Some dc, 1)
      | None \<Rightarrow>
          if dr_Attempts retry \<le> 0 \<or> dr_Delay retry \<le> 0 then (None, 1)
          else if \<not> domainJoined then (None, 1)
          else (let (r, c) = dc_retries dcFn stop 1 (nat (dr_Attempts retry)) in (r, Suc c)))"

record site_state =
  ss_dc :: dc_answer
  ss_dcAt :: time
  ss_ips :: "string list"
  ss_lastKey :: string
  ss_dcFailedLogged :: bool

record machine =
  mc_HWID :: string
  mc_Hostname :: string
  mc_ADDomain :: string

record host_env =
  he_now :: time
  he_ips :: "string list option"
  he_dc :: "nat \<Rightarrow> dc_answer"
  he_stop :: "nat \<Rightarrow> bool"

definition resolveHost ::
  "machine \<Rightarrow> dc_lookup_retry \<Rightarrow> host_env \<Rightarrow> bool \<Rightarrow> site_state \<Rightarrow> host \<times> site_state" where
  "resolveHost mc retry0 e first st =
     (let ips = (case he_ips e of None \<Rightarrow> [] | Some xs \<Rightarrow> xs);
          joined = DomainJoined (mc_ADDomain mc) (mc_Hostname mc);
          needDC = (first \<or> ips \<noteq> ss_ips st \<or> time_sub (he_now e) (ss_dcAt st) > dcCacheTTL);
          retry = (if first then retry0 else \<lparr>dr_Attempts = 0, dr_DelaySeconds = 0\<rparr>);
          st = (if needDC then st\<lparr>ss_dc := fst (resolveDC retry joined (he_dc e) (he_stop e)),
                                  ss_dcAt := he_now e, ss_ips := ips\<rparr> else st)
      in (\<lparr>h_HWID = mc_HWID mc, h_Hostname = mc_Hostname mc,
           h_DC = (case ss_dc st of None \<Rightarrow> [] | Some dc \<Rightarrow> dc),
           h_Domain = (if joined then mc_ADDomain mc else []), h_IPs = ips, h_Now = he_now e\<rparr>, st))"

section \<open>The cycle's decision\<close>

record cycle_state =
  cy_snap :: snapshot
  cy_host :: host
  cy_eff :: effective
  cy_site :: string
  cy_chain :: "string list"

fun join :: "string \<Rightarrow> string list \<Rightarrow> string" where
  "join sep [] = []"
| "join sep [x] = x"
| "join sep (x # xs) = x @ sep @ join sep xs"

text \<open>
  \<^verbatim>\<open>beginCycle\<close>: the cycle state, what the source policy remembers, and which of its two
  events are logged (the decision, the failed lookup).
\<close>

definition beginCycle ::
  "golib \<Rightarrow> machine \<Rightarrow> host_env \<Rightarrow> bool \<Rightarrow> snapshot \<Rightarrow> site_state \<Rightarrow> cycle_state \<times> site_state \<times> bool \<times> bool" where
  "beginCycle L mc e first snap st0 =
     (let (host, st) = resolveHost mc (us_DCLookupRetry (d_Updater (pd_Global (sn_Parsed snap)))) e first st0;
          eff = fst (Effective L (sn_Parsed snap) host);
          (site, chain) = Chain L eff host;
          cyc = \<lparr>cy_snap = snap, cy_host = host, cy_eff = eff, cy_site = site, cy_chain = chain\<rparr>;
          failed = (ss_dc st = None \<and> DomainJoined (mc_ADDomain mc) (mc_Hostname mc));
          log_failed = (failed \<and> \<not> ss_dcFailedLogged st);
          key = site @ ''|'' @ join '','' chain @ ''|'' @ join '','' (e_Applied eff)
      in (cyc, st\<lparr>ss_dcFailedLogged := failed, ss_lastKey := key\<rparr>, key \<noteq> ss_lastKey st, log_failed))"

section \<open>The preferred server\<close>

text \<open>The chain with the preferred server first, and the preference that is left.\<close>

definition preferredChain :: "string list \<Rightarrow> string option \<Rightarrow> string list \<times> string option" where
  "preferredChain chain pref =
     (case pref of
        None \<Rightarrow> (chain, None)
      | Some p \<Rightarrow>
          if chain = [] \<or> p = hd chain then (chain, Some p)
          else if p \<notin> set chain then (chain, None)
          else (let i = length (takeWhile (\<lambda>x. x \<noteq> p) chain)
                in (p # take i chain @ drop (Suc i) chain, Some p)))"

definition serverFor :: "effective \<Rightarrow> string list \<Rightarrow> string \<Rightarrow> string" where
  "serverFor eff chain url =
     (case find (\<lambda>name. ManifestURL eff name = url) chain of None \<Rightarrow> [] | Some name \<Rightarrow> name)"

text \<open>The new preference, and whether the presence supervisor is woken.\<close>

definition notePreferredServer ::
  "effective \<Rightarrow> string list \<Rightarrow> fetch_error option \<Rightarrow> string \<Rightarrow> string option \<Rightarrow> string option \<times> bool" where
  "notePreferredServer eff chain primaryErr url pref =
     (if chain = [] then (pref, False)
      else if primaryErr = Some ErrNotFound then (pref, False)
      else let served = serverFor eff chain url; prev = (case pref of None \<Rightarrow> [] | Some p \<Rightarrow> p) in
      if served = [] then (pref, False)
      else if served = hd chain then (if prev \<noteq> [] then (None, True) else (pref, False))
      else if served = prev then (pref, False)
      else (Some served, True))"

section \<open>Resolution\<close>

definition newResolver :: "cycle_state \<Rightarrow> string option \<Rightarrow> string resolver \<times> string option" where
  "newResolver cyc pref =
     (let (chain, pref') = preferredChain (cy_chain cyc) pref;
          urls = filter (\<lambda>u. u \<noteq> []) (map (ManifestURL (cy_eff cyc)) chain);
          urls = (if urls = [] then [[]] else urls);
          settings = us_Resolver (d_Updater (e_Doc (cy_eff cyc)))
      in (\<lparr>rv_Primary = hd urls, rv_Fallbacks = tl urls, rv_Attempts = rs_Attempts settings,
           rv_BaseBackoff = rs_BaseBackoff settings\<rparr>, pref'))"

datatype resolve_error = FetchFailure "fetch_error option" | TargetFailure manifest_error

text \<open>
  \<^verbatim>\<open>resolveTargetWith\<close>: source, manifest and target, or the error, and the preference
  afterwards.
\<close>

definition resolveTargetWith ::
  "golib \<Rightarrow> (string, manifest) renv \<Rightarrow> cycle_state \<Rightarrow> string \<Rightarrow> bool \<Rightarrow> string option \<Rightarrow>
   (resolve_error + (string \<times> manifest \<times> target)) \<times> string option" where
  "resolveTargetWith L E cyc channel notePreferred pref =
     (let (r, pref1) = newResolver cyc pref; R = resolveWith E r
      in case rd_result R of
           Inl err \<Rightarrow> (Inl (FetchFailure err), pref1)
         | Inr (src, m) \<Rightarrow>
             (let pref2 = (if notePreferred
                   then fst (notePreferredServer (cy_eff cyc) (cy_chain cyc) (rd_PrimaryErr R) src pref1) else pref1)
              in case ResolveTarget L m channel of
                   Inl err \<Rightarrow> (Inl (TargetFailure err), pref2)
                 | Inr t \<Rightarrow> (Inr (src, m, t), pref2)))"

text \<open>
  \<^verbatim>\<open>resolveUpdaterManifestWith\<close>: each source is asked for its own updater endpoint, whose
  URL is derived from the source's; a URL that cannot be derived is a failed attempt.
\<close>

definition updater_env ::
  "golib \<Rightarrow> (url \<Rightarrow> string) \<Rightarrow> config \<Rightarrow> (string, updater_manifest) renv \<Rightarrow> (string, updater_manifest \<times> string) renv" where
  "updater_env L jp cfg E =
     \<lparr>re_fetch = (\<lambda>s k. case UpdaterManifestURL L jp cfg s of
        Inl _ \<Rightarrow> Inl (ErrOther 0)
      | Inr url \<Rightarrow> (case re_fetch E url k of Inl e \<Rightarrow> Inl e | Inr m \<Rightarrow> Inr (m, url))),
      re_done = re_done E, re_wait = re_wait E\<rparr>"

definition resolveUpdaterManifestWith ::
  "golib \<Rightarrow> (url \<Rightarrow> string) \<Rightarrow> config \<Rightarrow> (string, updater_manifest) renv \<Rightarrow> cycle_state \<Rightarrow> bool \<Rightarrow> string option \<Rightarrow>
   (fetch_error option + (string \<times> updater_manifest \<times> string)) \<times> string option" where
  "resolveUpdaterManifestWith L jp cfg E cyc notePreferred pref =
     (let (r, pref1) = newResolver cyc pref; R = resolveWith (updater_env L jp cfg E) r
      in case rd_result R of
           Inl err \<Rightarrow> (Inl err, pref1)
         | Inr (src, m, url) \<Rightarrow>
             (Inr (src, m, url),
              if notePreferred
              then fst (notePreferredServer (cy_eff cyc) (cy_chain cyc) (rd_PrimaryErr R) src pref1) else pref1))"

section \<open>Lemmas\<close>

lemma preferredChain_perm: "mset (fst (preferredChain chain pref)) = mset chain"
proof (cases pref)
  case (Some p)
  show ?thesis
  proof (cases "chain = [] \<or> p = hd chain \<or> p \<notin> set chain")
    case False
    then obtain xs ys where c: "chain = xs @ p # ys" "p \<notin> set xs" by (meson split_list_first)
    have "takeWhile (\<lambda>x. x \<noteq> p) (xs @ p # ys) = xs" using c(2) by (induction xs) auto
    then show ?thesis using False Some c(1) by (simp add: preferredChain_def Let_def)
  qed (use Some in \<open>auto simp: preferredChain_def\<close>)
qed (simp add: preferredChain_def)

lemma preferredChain_head:
  "p \<in> set chain \<Longrightarrow> hd (fst (preferredChain chain (Some p))) = p"
  by (auto simp: preferredChain_def Let_def)

lemma preferredChain_forgets:
  "snd (preferredChain chain pref) = Some p \<Longrightarrow> pref = Some p \<and> (chain \<noteq> [] \<longrightarrow> p \<in> set chain)"
  by (auto simp: preferredChain_def Let_def split: option.splits if_splits)

lemma serverFor_in: "serverFor eff chain url \<noteq> [] \<Longrightarrow> serverFor eff chain url \<in> set chain \<and> ManifestURL eff (serverFor eff chain url) = url"
  by (cases "find (\<lambda>name. ManifestURL eff name = url) chain")
     (simp_all add: serverFor_def, metis (mono_tags, lifting) find_Some_iff nth_mem)

lemma chain_urls_perm:
  "mset (filter P (map f (fst (preferredChain chain pref)))) = mset (filter P (map f chain))"
  by (simp add: preferredChain_perm mset_filter del: filter_map)

lemma resolver_urls:
  assumes "newResolver cyc pref = (r, pref')"
    and "filter (\<lambda>u. u \<noteq> []) (map (ManifestURL (cy_eff cyc)) (cy_chain cyc)) \<noteq> []"
  shows "rv_Primary r # rv_Fallbacks r =
    filter (\<lambda>u. u \<noteq> []) (map (ManifestURL (cy_eff cyc)) (fst (preferredChain (cy_chain cyc) pref)))"
proof -
  let ?f = "\<lambda>c. filter (\<lambda>u. u \<noteq> []) (map (ManifestURL (cy_eff cyc)) c)"
  have "mset (?f (fst (preferredChain (cy_chain cyc) pref))) = mset (?f (cy_chain cyc))"
    by (rule chain_urls_perm)
  then have "?f (fst (preferredChain (cy_chain cyc) pref)) \<noteq> []" using assms(2) by (metis mset_zero_iff)
  then show ?thesis using assms(1) by (auto simp: newResolver_def Let_def case_prod_unfold)
qed

lemma dc_retries_calls: "snd (dc_retries dcFn stop k n) \<le> n"
  by (induction n arbitrary: k) (auto split: option.splits prod.splits, metis snd_conv)

lemma dc_retries_sound: "fst (dc_retries dcFn stop k n) = Some dc \<Longrightarrow> \<exists>j \<ge> k. j < k + n \<and> dcFn j = Some dc"
proof (induction n arbitrary: k)
  case (Suc n)
  show ?case
  proof (cases "dcFn k")
    case None
    then have "fst (dc_retries dcFn stop (Suc k) n) = Some dc" using Suc.prems by (auto split: if_splits prod.splits)
    from Suc.IH [OF this] obtain j where "j \<ge> Suc k" "j < Suc k + n" "dcFn j = Some dc" by blast
    then show ?thesis by (intro exI [of _ j]) auto
  qed (use Suc.prems in \<open>auto split: if_splits intro: exI [of _ k]\<close>)
qed simp

section \<open>Properties\<close>

text \<open>
  C27: A preference changes the order in which servers are asked, never which. The
  resolver of a cycle asks exactly the servers of the machine's chain that have a URL;
  a preferred server that the chain lists comes first and the others keep their order;
  one it no longer lists is forgotten; and the server that becomes preferred is one of
  the chain that really served the document, while a server that answered 404 costs no
  other its place.
\<close>

theorem preferred_resolver_complete:
  assumes "newResolver cyc pref = (r, pref')"
    and "filter (\<lambda>u. u \<noteq> []) (map (ManifestURL (cy_eff cyc)) (cy_chain cyc)) \<noteq> []"
  shows "mset (rv_Primary r # rv_Fallbacks r) =
      mset (filter (\<lambda>u. u \<noteq> []) (map (ManifestURL (cy_eff cyc)) (cy_chain cyc))) \<and>
    (\<forall>p. pref = Some p \<and> p \<in> set (cy_chain cyc) \<and> ManifestURL (cy_eff cyc) p \<noteq> [] \<longrightarrow>
       rv_Primary r = ManifestURL (cy_eff cyc) p) \<and>
    (\<forall>p. pref = Some p \<and> p \<notin> set (cy_chain cyc) \<longrightarrow> pref' = None) \<and>
    (\<forall>p url err. fst (notePreferredServer (cy_eff cyc) (cy_chain cyc) err url pref') = Some p \<longrightarrow>
       pref' = Some p \<or> p \<in> set (cy_chain cyc) \<and> ManifestURL (cy_eff cyc) p = url \<and> err \<noteq> Some ErrNotFound)"
proof -
  let ?f = "\<lambda>c. filter (\<lambda>u. u \<noteq> []) (map (ManifestURL (cy_eff cyc)) c)"
  note urls = resolver_urls [OF assms]
  have "mset (rv_Primary r # rv_Fallbacks r) = mset (?f (cy_chain cyc))"
    unfolding urls by (rule chain_urls_perm)
  moreover have "rv_Primary r = ManifestURL (cy_eff cyc) p"
    if p: "pref = Some p" "p \<in> set (cy_chain cyc)" "ManifestURL (cy_eff cyc) p \<noteq> []" for p
  proof -
    obtain rest where "fst (preferredChain (cy_chain cyc) (Some p)) = p # rest"
      using preferredChain_head [OF p(2)] preferredChain_perm [of "cy_chain cyc" "Some p"] p(2)
      by (metis list.exhaust_sel list.set(1) empty_iff mset_zero_iff_right set_mset_mset)
    then show ?thesis using urls p by simp
  qed
  moreover have "pref' = None" if "pref = Some p" "p \<notin> set (cy_chain cyc)" for p
    using assms that by (cases "cy_chain cyc") (auto simp: newResolver_def preferredChain_def Let_def split: if_splits)
  moreover have "pref' = Some p \<or> p \<in> set (cy_chain cyc) \<and> ManifestURL (cy_eff cyc) p = url \<and> err \<noteq> Some ErrNotFound"
    if "fst (notePreferredServer (cy_eff cyc) (cy_chain cyc) err url pref') = Some p" for p url err
    using that serverFor_in [of "cy_eff cyc" "cy_chain cyc" url]
    by (auto simp: notePreferredServer_def Let_def split: if_splits)
  ultimately show ?thesis by blast
qed

section \<open>A concrete chain\<close>

definition demo_cycle_state :: cycle_state where
  "demo_cycle_state =
     (let e = global_effective (FromLegacy (\<lambda>_. []) demo_config sample_legacy_defaults)
      in \<lparr>cy_snap = demo_snapshot SourceDefault, cy_host = zero_host, cy_eff = e, cy_site = ''DC'',
          cy_chain = [LegacyInternal, LegacyExternal]\<rparr>)"

lemma demo_cycle_urls:
  "ManifestURL (cy_eff demo_cycle_state) LegacyInternal = ''https://i/m''"
  "ManifestURL (cy_eff demo_cycle_state) LegacyExternal = ''https://x/v2/updates/manifest''"
proof -
  have m: "ManifestPath \<notin> {cf_ExternalManifestURL demo_config, cf_InternalManifestURL demo_config,
      cf_BackupInternalManifestURL demo_config}"
    by (simp add: demo_config_def ManifestPath_def)
  show "ManifestURL (cy_eff demo_cycle_state) LegacyInternal = ''https://i/m''"
    "ManifestURL (cy_eff demo_cycle_state) LegacyExternal = ''https://x/v2/updates/manifest''"
    using legacy_server_urls [OF m refl, of "\<lambda>_. []" sample_legacy_defaults]
    by (simp_all add: demo_cycle_state_def Let_def demo_config_def)
qed

theorem preferred_resolver_complete_witness:
  "rv_Primary (fst (newResolver demo_cycle_state (Some LegacyExternal))) = ''https://x/v2/updates/manifest''"
proof -
  have c: "cy_chain demo_cycle_state = [LegacyInternal, LegacyExternal]" by (simp add: demo_cycle_state_def Let_def)
  then have "filter (\<lambda>u. u \<noteq> []) (map (ManifestURL (cy_eff demo_cycle_state)) (cy_chain demo_cycle_state)) \<noteq> []"
    by (simp add: demo_cycle_urls)
  from preferred_resolver_complete [OF prod.collapse [symmetric] this] show ?thesis
    using c demo_cycle_urls by simp
qed

end
