(* ===== verification/Download.thy ===== *)
theory Download
  imports Files Manifest
begin

text \<open>
  \<^verbatim>\<open>internal/download/download.go\<close>: the cache of setup executables. SHA-256 is a
  parameter, as is what the network delivers; the file system is explicit and every
  call may fail. The interface \<open>setup_cache\<close> states what the service relies on before it
  runs a setup, and is interpreted on \<open>Ensure\<close>.
\<close>

definition DefaultPrefix :: string where "DefaultPrefix = ''EMLy-''"

record manager =
  mg_Dir :: string
  mg_Prefix :: string

definition prefix :: "manager \<Rightarrow> string" where
  "prefix m = (if mg_Prefix m = [] then DefaultPrefix else mg_Prefix m)"

text \<open>
  The file name of a version, and its path in the manager's directory. A version that
  reaches this code has no path separator, so \<^verbatim>\<open>filepath.Join\<close> is concatenation.
\<close>

definition setup_name :: "manager \<Rightarrow> string \<Rightarrow> string" where
  "setup_name m version = prefix m @ version @ ''-setup.exe''"

definition in_dir :: "manager \<Rightarrow> string \<Rightarrow> string" where
  "in_dir m name = mg_Dir m @ [CHR 0x5C] @ name"

definition SetupPath :: "manager \<Rightarrow> string \<Rightarrow> string" where
  "SetupPath m version = in_dir m (setup_name m version)"

section \<open>Verification\<close>

datatype verify_error = NoExpectedChecksum | OpenFailed | ChecksumMismatch

text \<open>\<open>rd path\<close>: the file can be opened and read to its end.\<close>

definition VerifyFile ::
  "('b \<Rightarrow> string) \<Rightarrow> (string \<Rightarrow> bool) \<Rightarrow> 'b fs \<Rightarrow> string \<Rightarrow> string \<Rightarrow> verify_error option" where
  "VerifyFile sha rd f path expected =
     (if expected = [] then Some NoExpectedChecksum
      else case f path of
        None \<Rightarrow> Some OpenFailed
      | Some data \<Rightarrow>
          if \<not> rd path then Some OpenFailed
          else if \<not> EqualFold (sha data) expected then Some ChecksumMismatch
          else None)"

text \<open>\<open>verified sha f path expected\<close>: the file's bytes have the expected digest.\<close>

definition verified :: "('b \<Rightarrow> string) \<Rightarrow> 'b fs \<Rightarrow> string \<Rightarrow> string \<Rightarrow> bool" where
  "verified sha f path expected \<longleftrightarrow>
     expected \<noteq> [] \<and> (\<exists>data. f path = Some data \<and> EqualFold (sha data) expected)"

lemma VerifyFile_None: "VerifyFile sha rd f path expected = None \<Longrightarrow> verified sha f path expected"
  by (auto simp: VerifyFile_def verified_def split: if_splits option.splits)

lemma VerifyFile_complete:
  "verified sha f path expected \<Longrightarrow> rd path \<Longrightarrow> VerifyFile sha rd f path expected = None"
  by (auto simp: VerifyFile_def verified_def)

section \<open>Ensure\<close>

text \<open>
  What \<^verbatim>\<open>FetchSetup\<close> did: all bytes written, or an error that left the destination
  untouched or with some bytes in it.
\<close>

datatype 'b fetched = Fetched 'b | FetchError "'b option"

datatype ensure_error = MkdirFailed | FetchFailed | VerifyFailed verify_error | FinalizeFailed

record 'b dl_env =
  dl_ok :: "sysop \<Rightarrow> bool"
  dl_rd :: "string \<Rightarrow> bool"
  dl_fetch :: "'b fetched"

definition rm :: "'b dl_env \<Rightarrow> string \<Rightarrow> 'b fs \<Rightarrow> 'b fs" where
  "rm e path f = (if dl_ok e OpRemove then f(path := None) else f)"

definition Ensure ::
  "('b \<Rightarrow> string) \<Rightarrow> manager \<Rightarrow> 'b dl_env \<Rightarrow> target \<Rightarrow> 'b fs \<Rightarrow> 'b fs \<times> (ensure_error + string)" where
  "Ensure sha m e t f =
     (if \<not> dl_ok e OpMkdirAll then (f, Inl MkdirFailed)
      else let dest = SetupPath m (t_Version t) in
      if VerifyFile sha (dl_rd e) f dest (t_SHA256 t) = None then (f, Inr dest)
      else let f1 = rm e dest f; partial = dest @ ''.partial'' in
      case dl_fetch e of
        FetchError left \<Rightarrow>
          (rm e partial (case left of None \<Rightarrow> f1 | Some b \<Rightarrow> f1(partial \<mapsto> b)), Inl FetchFailed)
      | Fetched b \<Rightarrow>
          (let f2 = f1(partial \<mapsto> b) in
           case VerifyFile sha (dl_rd e) f2 partial (t_SHA256 t) of
             Some err \<Rightarrow> (rm e partial f2, Inl (VerifyFailed err))
           | None \<Rightarrow>
               if \<not> dl_ok e OpRename then (rm e partial f2, Inl FinalizeFailed)
               else (rename partial dest f2, Inr dest)))"

section \<open>Cleanup\<close>

text \<open>
  \<^verbatim>\<open>CleanupExcept\<close> on the directory entries it read (name, is a directory); \<open>rm_ok\<close> says
  which removals succeed. The result is the new file system and whether every removal
  did.
\<close>

definition cleanup_removes :: "manager \<Rightarrow> string \<Rightarrow> string \<times> bool \<Rightarrow> bool" where
  "cleanup_removes m keepVersion entry =
     (let keep = (if keepVersion = [] then [] else setup_name m keepVersion); (name, isDir) = entry
      in \<not> (isDir \<or> name = keep) \<and> HasPrefix name (prefix m))"

definition CleanupExcept ::
  "manager \<Rightarrow> (string \<Rightarrow> bool) \<Rightarrow> (string \<times> bool) list \<Rightarrow> string \<Rightarrow> 'b fs \<Rightarrow> 'b fs \<times> bool" where
  "CleanupExcept m rm_ok entries keepVersion f =
     foldl (\<lambda>(f, ok) entry.
       if cleanup_removes m keepVersion entry then
         (if rm_ok (fst entry) then (f(in_dir m (fst entry) := None), ok) else (f, False))
       else (f, ok)) (f, True) entries"

section \<open>Lemmas\<close>

lemma partial_neq [simp]: "dest @ ''.partial'' \<noteq> dest" "dest \<noteq> dest @ ''.partial''"
  by simp_all

lemma Ensure_result:
  assumes "Ensure sha m e t f = (f', Inr path)"
  shows "path = SetupPath m (t_Version t) \<and> verified sha f' path (t_SHA256 t)"
proof (cases "VerifyFile sha (dl_rd e) f (SetupPath m (t_Version t)) (t_SHA256 t)")
  case None
  then show ?thesis using assms VerifyFile_None [OF None] by (auto simp: Ensure_def Let_def split: if_splits)
next
  case (Some err)
  let ?dest = "SetupPath m (t_Version t)"
  let ?partial = "?dest @ ''.partial''"
  have ok: "dl_ok e OpMkdirAll" using assms by (cases "dl_ok e OpMkdirAll") (simp_all add: Ensure_def)
  obtain b where b: "dl_fetch e = Fetched b"
    using assms Some ok by (cases "dl_fetch e") (simp_all add: Ensure_def Let_def)
  have v: "VerifyFile sha (dl_rd e) ((rm e ?dest f)(?partial \<mapsto> b)) ?partial (t_SHA256 t) = None"
    using assms Some ok b
    by (cases "VerifyFile sha (dl_rd e) ((rm e ?dest f)(?partial \<mapsto> b)) ?partial (t_SHA256 t)")
       (simp_all add: Ensure_def Let_def)
  have f': "f' = rename ?partial ?dest ((rm e ?dest f)(?partial \<mapsto> b))" and p: "path = ?dest"
    using assms Some ok b v by (cases "dl_ok e OpRename"; simp add: Ensure_def Let_def)+
  have "verified sha ((rm e ?dest f)(?partial \<mapsto> b)) ?partial (t_SHA256 t)" using v by (rule VerifyFile_None)
  then have "t_SHA256 t \<noteq> []" "EqualFold (sha b) (t_SHA256 t)" by (simp_all add: verified_def)
  moreover have "f' ?dest = Some b" unfolding f' by (simp add: rename_def)
  ultimately show ?thesis unfolding p verified_def by blast
qed

lemma Ensure_frame:
  assumes "Ensure sha m e t f = (f', r)" "q \<noteq> SetupPath m (t_Version t)" "q \<noteq> SetupPath m (t_Version t) @ ''.partial''"
  shows "f' q = f q"
  using assms
  by (auto simp: Ensure_def Let_def rm_def rename_def split: if_splits fetched.splits option.splits)

lemma Ensure_failure_dest:
  assumes "Ensure sha m e t f = (f', Inl err)"
  shows "f' (SetupPath m (t_Version t)) \<in> {None, f (SetupPath m (t_Version t))}"
  using assms by (auto simp: Ensure_def Let_def rm_def split: if_splits fetched.splits option.splits)

lemma in_dir_eq [simp]: "in_dir m a = in_dir m b \<longleftrightarrow> a = b"
  by (simp add: in_dir_def)

lemma CleanupExcept_fold:
  "fst (foldl (\<lambda>(f, ok) entry.
       if P entry then (if rm_ok (fst entry) then (f(in_dir m (fst entry) := None), ok) else (f, False))
       else (f, ok)) (f, b) entries) q =
   (if \<exists>entry \<in> set entries. P entry \<and> rm_ok (fst entry) \<and> q = in_dir m (fst entry) then None else f q)"
  by (induction entries arbitrary: f b) auto

lemma CleanupExcept_file:
  "fst (CleanupExcept m rm_ok entries keep f) q =
   (if \<exists>entry \<in> set entries. cleanup_removes m keep entry \<and> rm_ok (fst entry) \<and> q = in_dir m (fst entry)
    then None else f q)"
  unfolding CleanupExcept_def by (rule CleanupExcept_fold)

section \<open>The cache as an interface\<close>

text \<open>
  What the service relies on: \<open>ensure e t w\<close> gives a path or an error, and \<open>trusted w p t\<close>
  says the file at \<open>p\<close> in \<open>w\<close> is the target's. A client that only runs what \<open>ensure\<close>
  returned, re-checked or not, runs the target's bytes.
\<close>

locale setup_cache =
  fixes ensure :: "'e \<Rightarrow> target \<Rightarrow> 'w \<Rightarrow> 'w \<times> ('x + string)"
    and trusted :: "'w \<Rightarrow> string \<Rightarrow> target \<Rightarrow> bool"
  assumes ensure_trusted: "ensure e t w = (w', Inr p) \<Longrightarrow> trusted w' p t"
begin

text \<open>Fetch a target and hand its path to \<open>run\<close>, as both update paths do.\<close>

definition fetch_then :: "'e \<Rightarrow> target \<Rightarrow> ('w \<Rightarrow> string \<Rightarrow> 'w \<times> bool) \<Rightarrow> 'w \<Rightarrow> 'w \<times> bool" where
  "fetch_then e t run w = (case ensure e t w of (w', Inl _) \<Rightarrow> (w', False) | (w', Inr p) \<Rightarrow> run w' p)"

lemma fetch_then_trusted:
  "fetch_then e t run w = (w', True) \<Longrightarrow> \<exists>w1 p. trusted w1 p t \<and> run w1 p = (w', True)"
  using ensure_trusted by (fastforce simp: fetch_then_def split: prod.splits sum.splits)

end

interpretation sc: setup_cache "Ensure sha m" "\<lambda>f p t. verified sha f p (t_SHA256 t) \<and> p = SetupPath m (t_Version t)"
  for sha :: "'b \<Rightarrow> string" and m
  using Ensure_result by unfold_locales blast

section \<open>Properties\<close>

text \<open>
  C4: A setup path is only ever handed out with matching bytes behind it. When
  \<^verbatim>\<open>Ensure\<close> succeeds, the file at the path it returns has the expected, non-empty
  SHA-256, whatever the network delivered and whichever calls failed on the way; when
  it fails, the cache entry is either gone or what it was before, never a new,
  unverified file; and no other file of the system is touched apart from the
  partial download.
\<close>

theorem Ensure_verified:
  "(\<forall>f' path. Ensure sha m e t f = (f', Inr path) \<longrightarrow>
      path = SetupPath m (t_Version t) \<and> verified sha f' path (t_SHA256 t)) \<and>
   (\<forall>f' err. Ensure sha m e t f = (f', Inl err) \<longrightarrow>
      f' (SetupPath m (t_Version t)) \<in> {None, f (SetupPath m (t_Version t))}) \<and>
   (\<forall>q. q \<noteq> SetupPath m (t_Version t) \<and> q \<noteq> SetupPath m (t_Version t) @ ''.partial'' \<longrightarrow>
      fst (Ensure sha m e t f) q = f q)"
  using Ensure_result [of sha m e t f] Ensure_failure_dest [of sha m e t f]
    Ensure_frame [of sha m e t f "fst (Ensure sha m e t f)" "snd (Ensure sha m e t f)"]
  by auto

text \<open>
  Cleaning up one cache never reaches the other. EMLy's manager and the
  updater's own use different prefixes, so even over the same directory a cleanup of
  one leaves every setup of the other, and within its own cache it keeps the version it
  was asked to keep and removes every other setup and partial download it lists when
  the removals succeed.
\<close>

theorem CleanupExcept_isolated:
  assumes "mg_Prefix m = []" and "mg_Prefix m' = ''EMLyUpdater-''" and "mg_Dir m = mg_Dir m'"
    and "v \<noteq> []"
  shows "fst (CleanupExcept m rm_ok entries keep f) (SetupPath m' w) = f (SetupPath m' w) \<and>
    fst (CleanupExcept m' rm_ok entries keep f) (SetupPath m w) = f (SetupPath m w) \<and>
    fst (CleanupExcept m rm_ok entries v f) (SetupPath m v) = f (SetupPath m v) \<and>
    ((\<forall>n. rm_ok n) \<and> (setup_name m w, False) \<in> set entries \<and> w \<noteq> v \<longrightarrow>
       fst (CleanupExcept m rm_ok entries v f) (SetupPath m w) = None)"
proof -
  have dir: "in_dir m n = in_dir m' n" for n using assms(3) by (simp add: in_dir_def)
  have 1: "\<not> cleanup_removes m keep (setup_name m' w, b)" and 2: "\<not> cleanup_removes m' keep (setup_name m w, b)" for keep w b
    using assms(1,2)
    by (auto simp: cleanup_removes_def setup_name_def prefix_def DefaultPrefix_def HasPrefix_def Let_def)
  have 3: "\<not> cleanup_removes m v (setup_name m v, b)" for b
    using assms(4) by (simp add: cleanup_removes_def)
  have 4: "cleanup_removes m v (setup_name m w, False)" if "w \<noteq> v"
    using that by (simp add: cleanup_removes_def setup_name_def)
  have a: "fst (CleanupExcept m rm_ok entries keep f) (SetupPath m' w) = f (SetupPath m' w)"
    unfolding CleanupExcept_file SetupPath_def dir [symmetric] using 1 by (auto split: prod.splits)
  have b: "fst (CleanupExcept m' rm_ok entries keep f) (SetupPath m w) = f (SetupPath m w)"
    unfolding CleanupExcept_file SetupPath_def dir using 2 by (auto split: prod.splits)
  have c: "fst (CleanupExcept m rm_ok entries v f) (SetupPath m v) = f (SetupPath m v)"
    unfolding CleanupExcept_file SetupPath_def using 3 by (auto split: prod.splits)
  have d: "fst (CleanupExcept m rm_ok entries v f) (SetupPath m w) = None"
    if "\<forall>n. rm_ok n" "(setup_name m w, False) \<in> set entries" "w \<noteq> v"
    unfolding CleanupExcept_file SetupPath_def using that 4 by force
  show ?thesis using a b c d by blast
qed

section \<open>Witnesses\<close>

definition demo_manager :: manager where
  "demo_manager = \<lparr>mg_Dir = ''C:'', mg_Prefix = []\<rparr>"

definition demo_target :: target where
  "demo_target = \<lparr>t_Version = ''1.2'', t_DownloadRef = ''https://d'', t_SHA256 = ''ab''\<rparr>"

theorem Ensure_verified_witness:
  "\<exists>f' path. Ensure id demo_manager \<lparr>dl_ok = (\<lambda>_. True), dl_rd = (\<lambda>_. True), dl_fetch = Fetched ''ab''\<rparr>
     demo_target (\<lambda>_. None) = (f', Inr path) \<and> verified id f' path ''ab''"
proof -
  let ?r = "Ensure id demo_manager \<lparr>dl_ok = (\<lambda>_. True), dl_rd = (\<lambda>_. True), dl_fetch = Fetched ''ab''\<rparr>
     demo_target (\<lambda>_. None)"
  have "snd ?r = Inr (SetupPath demo_manager ''1.2'')"
    by (simp add: Ensure_def VerifyFile_def demo_target_def Let_def rm_def)
  then have "?r = (fst ?r, Inr (SetupPath demo_manager ''1.2''))" by (simp add: prod_eq_iff)
  then show ?thesis
    using Ensure_verified [of id demo_manager "\<lparr>dl_ok = (\<lambda>_. True), dl_rd = (\<lambda>_. True), dl_fetch = Fetched ''ab''\<rparr>"
        demo_target "\<lambda>_. None"]
    by (auto simp: demo_target_def)
qed

theorem CleanupExcept_isolated_witness:
  "fst (CleanupExcept demo_manager (\<lambda>_. True) [(setup_name demo_manager ''1.1'', False)] ''1.2'' (\<lambda>_. Some ''x''))
     (SetupPath demo_manager ''1.1'') = None"
  using CleanupExcept_isolated [of demo_manager "demo_manager\<lparr>mg_Prefix := ''EMLyUpdater-''\<rparr>" "''1.2''"
      "\<lambda>_. True" "[(setup_name demo_manager ''1.1'', False)]" "[]" "\<lambda>_. Some ''x''" "''1.1''"]
  by (simp add: demo_manager_def)

end
