(* ===== verification/Protocol.thy ===== *)
theory Protocol
  imports Decode
begin

text \<open>
  \<^verbatim>\<open>internal/wsclient/protocol.go\<close>: the names and shapes of protocol v2 of the client
  channel, and the validation of a command's arguments, which the client repeats
  because it does not trust the server.
\<close>

section \<open>Names\<close>

definition CmdMachineInfo :: string where "CmdMachineInfo = ''machine.info''"
definition CmdEMLyManifestCheck :: string where "CmdEMLyManifestCheck = ''emly.manifest.check''"
definition CmdUpdaterManifestCheck :: string where "CmdUpdaterManifestCheck = ''updater.manifest.check''"
definition CmdAppsListUpgradable :: string where "CmdAppsListUpgradable = ''apps.list_upgradable''"
definition CmdServiceRestart :: string where "CmdServiceRestart = ''service.restart''"
definition CmdMachineReboot :: string where "CmdMachineReboot = ''machine.reboot''"

lemmas command_defs = CmdMachineInfo_def CmdEMLyManifestCheck_def CmdUpdaterManifestCheck_def
  CmdAppsListUpgradable_def CmdServiceRestart_def CmdMachineReboot_def

definition CommandNames :: "string list" where
  "CommandNames = [CmdMachineInfo, CmdEMLyManifestCheck, CmdUpdaterManifestCheck, CmdAppsListUpgradable,
     CmdServiceRestart, CmdMachineReboot]"

definition Destructive :: "string \<Rightarrow> bool" where
  "Destructive name \<longleftrightarrow> name = CmdServiceRestart \<or> name = CmdMachineReboot"

datatype error_code =
    ErrUnsupportedCommand | ErrInvalidArgs | ErrExpired | ErrBusy | ErrDisabledByPolicy
  | ErrInsecureTransport | ErrUserActive | ErrWingetModuleMissing | ErrPowerShellNotFound
  | ErrSourcesUnreachable | ErrNotFound | ErrManifestInvalid | ErrTimeout | ErrInternal

section \<open>Messages\<close>

record command =
  cm_Name :: string
  cm_Args :: "json option"
  cm_ExpiresAt :: string
  cm_IssuedBy :: string

record ack =
  ak_Accepted :: bool
  ak_Error :: "error_code option"
  ak_Duplicate :: bool

record 'p result =
  rs_Status :: bool
  rs_Payload :: "'p option"
  rs_Error :: "error_code option"
  rs_Truncated :: bool

section \<open>Arguments\<close>

record reboot_args =
  ra_DelaySeconds :: "int option"
  ra_WhenUserActive :: string

definition RebootDefaultDelaySeconds :: int where "RebootDefaultDelaySeconds = 300"
definition RebootMaxDelaySeconds :: int where "RebootMaxDelaySeconds = 3600"
definition WhenUserActiveWarn :: string where "WhenUserActiveWarn = ''warn''"
definition WhenUserActiveSkip :: string where "WhenUserActiveSkip = ''skip''"

definition MachineInfoSections :: "string list" where
  "MachineInfoSections = [''identity'', ''logged_user'', ''network'', ''site'', ''config'', ''hardware'', ''emly'', ''update'']"

definition Delay :: "reboot_args \<Rightarrow> int" where
  "Delay a = (case ra_DelaySeconds a of None \<Rightarrow> RebootDefaultDelaySeconds | Some d \<Rightarrow> d)"

definition Mode :: "reboot_args \<Rightarrow> string" where
  "Mode a = (if ra_WhenUserActive a = [] then WhenUserActiveWarn else ra_WhenUserActive a)"

text \<open>
  \<^verbatim>\<open>DecodeArgs\<close>: a struct decoder that rejects unknown fields; missing arguments (empty
  text) leave the value as it is. The text of the arguments is one JSON value, since it
  was cut out of the JSON message.
\<close>

fun dec_entries_strict :: "'r fields \<Rightarrow> json gomap \<Rightarrow> 'r \<Rightarrow> 'r option" where
  "dec_entries_strict fs [] r = Some r"
| "dec_entries_strict fs ((k, v) # m) r =
     (case find_field fs k of
        None \<Rightarrow> None
      | Some d \<Rightarrow> (case d v r of None \<Rightarrow> None | Some r' \<Rightarrow> dec_entries_strict fs m r'))"

definition DecodeArgs :: "'r fields \<Rightarrow> json option \<Rightarrow> 'r \<Rightarrow> 'r option" where
  "DecodeArgs fs raw r =
     (case raw of
        None \<Rightarrow> Some r
      | Some JNull \<Rightarrow> Some r
      | Some (JObj m) \<Rightarrow> dec_entries_strict fs m r
      | Some _ \<Rightarrow> None)"

definition reboot_fields :: "reboot_args fields" where
  "reboot_fields =
     [(''delay_seconds'', fld (dec_ptr 0 dec_int) ra_DelaySeconds ra_DelaySeconds_update),
      (''when_user_active'', fld dec_string ra_WhenUserActive ra_WhenUserActive_update)]"

definition zero_reboot_args :: reboot_args where
  "zero_reboot_args = \<lparr>ra_DelaySeconds = None, ra_WhenUserActive = []\<rparr>"

text \<open>\<^verbatim>\<open>MachineInfoArgs\<close> has one field, the list of sections.\<close>

definition section_fields :: "string list fields" where
  "section_fields = [(''sections'', dec_strings)]"

definition no_fields :: "unit fields" where
  "no_fields = []"

text \<open>\<^verbatim>\<open>ValidateArgs\<close>: \<open>None\<close> when the arguments are acceptable.\<close>

definition ValidateArgs :: "string \<Rightarrow> json option \<Rightarrow> error_code option" where
  "ValidateArgs name raw =
     (if name = CmdMachineInfo then
        (case DecodeArgs section_fields raw [] of
           None \<Rightarrow> Some ErrInvalidArgs
         | Some sections \<Rightarrow>
             if \<exists>s \<in> set sections. s \<notin> set MachineInfoSections then Some ErrInvalidArgs else None)
      else if name = CmdMachineReboot then
        (case DecodeArgs reboot_fields raw zero_reboot_args of
           None \<Rightarrow> Some ErrInvalidArgs
         | Some a \<Rightarrow>
             if Delay a < 0 \<or> Delay a > RebootMaxDelaySeconds then Some ErrInvalidArgs
             else if Mode a \<noteq> WhenUserActiveWarn \<and> Mode a \<noteq> WhenUserActiveSkip then Some ErrInvalidArgs
             else None)
      else if name \<in> {CmdEMLyManifestCheck, CmdUpdaterManifestCheck, CmdAppsListUpgradable, CmdServiceRestart} then
        (case DecodeArgs no_fields raw () of None \<Rightarrow> Some ErrInvalidArgs | Some _ \<Rightarrow> None)
      else Some ErrUnsupportedCommand)"

text \<open>The reboot arguments a handler reads after validation, ignoring a decode error.\<close>

definition rebootArgs :: "json option \<Rightarrow> reboot_args" where
  "rebootArgs raw = (case DecodeArgs reboot_fields raw zero_reboot_args of None \<Rightarrow> zero_reboot_args | Some a \<Rightarrow> a)"

section \<open>Lemmas\<close>

lemma ValidateArgs_known: "ValidateArgs name raw = None \<Longrightarrow> name \<in> set CommandNames"
  by (auto simp: ValidateArgs_def CommandNames_def split: if_splits option.splits)

lemma ValidateArgs_reboot:
  "ValidateArgs CmdMachineReboot raw = None \<Longrightarrow>
   0 \<le> Delay (rebootArgs raw) \<and> Delay (rebootArgs raw) \<le> RebootMaxDelaySeconds \<and>
   Mode (rebootArgs raw) \<in> {WhenUserActiveWarn, WhenUserActiveSkip}"
  by (auto simp: ValidateArgs_def rebootArgs_def command_defs split: option.splits if_splits)

lemma ValidateArgs_no_args:
  assumes "ValidateArgs name raw = None"
    and "name \<in> {CmdEMLyManifestCheck, CmdUpdaterManifestCheck, CmdAppsListUpgradable, CmdServiceRestart}"
  shows "raw \<in> {None, Some JNull, Some (JObj [])}"
proof -
  have "DecodeArgs no_fields raw () \<noteq> None"
    using assms by (auto simp: ValidateArgs_def command_defs split: option.splits)
  then show ?thesis
    by (auto simp: DecodeArgs_def no_fields_def find_field_def split: option.splits json.splits elim: dec_entries_strict.elims)
qed

section \<open>Properties\<close>

text \<open>
  Only commands the client knows, with arguments it understands, pass validation:
  the name is one of the six of the protocol; a reboot's delay is between 0 and an
  hour and its mode is warn or skip; the commands without arguments carry none.
\<close>

theorem ValidateArgs_sound:
  assumes "ValidateArgs name raw = None"
  shows "name \<in> set CommandNames \<and>
    (name = CmdMachineReboot \<longrightarrow> 0 \<le> Delay (rebootArgs raw) \<and> Delay (rebootArgs raw) \<le> 3600 \<and>
       Mode (rebootArgs raw) \<in> {''warn'', ''skip''}) \<and>
    (name = CmdServiceRestart \<longrightarrow> raw \<in> {None, Some JNull, Some (JObj [])})"
  using ValidateArgs_known [OF assms] ValidateArgs_reboot [of raw] ValidateArgs_no_args [OF assms] assms
  by (auto simp: RebootMaxDelaySeconds_def WhenUserActiveWarn_def WhenUserActiveSkip_def)

theorem ValidateArgs_sound_witness:
  "Delay (rebootArgs (Some (JObj [(''delay_seconds'', JInt 120)]))) \<le> 3600"
proof -
  have "ValidateArgs CmdMachineReboot (Some (JObj [(''delay_seconds'', JInt 120)])) = None"
    by (simp add: ValidateArgs_def command_defs DecodeArgs_def reboot_fields_def find_field_def fld_def dec_ptr_def
        dec_int_def in_int64_def min_int64_def max_int64_def zero_reboot_args_def Delay_def Mode_def
        RebootMaxDelaySeconds_def WhenUserActiveWarn_def)
  from ValidateArgs_sound [OF this] show ?thesis by simp
qed

end
