(* ===== verification/StateStore.thy ===== *)
theory StateStore
  imports Files
begin

text \<open>
  \<^verbatim>\<open>internal/state/state.go\<close>: the state file with its three independent lifecycles
  (the pending update, the self-update record, the pending commands) and the
  read-modify-write every operation goes through. \<^verbatim>\<open>mu\<close> serialises the operations, so
  each is one step. The bytes of the file and their JSON form are a parameter of the
  store: \<open>marshal\<close> and \<open>unmarshal\<close>, of which the theorems need the round trip \<open>codec_ok\<close>.
\<close>

section \<open>Records\<close>

record pending =
  pn_Version :: string
  pn_SetupPath :: string
  pn_SHA256 :: string
  pn_Forced :: bool
  pn_DownloadedAt :: time

record self_update =
  su_Version :: string
  su_FromVersion :: string
  su_SetupPath :: string
  su_SHA256 :: string
  su_Attempts :: int
  su_GaveUp :: bool
  su_LaunchedAt :: time

record pending_command =
  pc_ID :: string
  pc_Name :: string
  pc_AcceptedAt :: time

record state =
  st_Pending :: "pending option"
  st_SelfUpdate :: "self_update option"
  st_PendingCommands :: "pending_command list"

definition empty_state :: state where
  "empty_state = \<lparr>st_Pending = None, st_SelfUpdate = None, st_PendingCommands = []\<rparr>"

record 'b codec =
  marshal :: "state \<Rightarrow> 'b"
  unmarshal :: "'b \<Rightarrow> state option"

definition codec_ok :: "'b codec \<Rightarrow> bool" where
  "codec_ok c \<longleftrightarrow> (\<forall>st. unmarshal c (marshal c st) = Some st)"

text \<open>The store's path, with the codec of its file.\<close>

record 'b store =
  sr_Path :: string
  sr_codec :: "'b codec"

section \<open>Operations\<close>

datatype load_error = ReadError | ErrCorrupt

definition loadLocked :: "'b store \<Rightarrow> 'b env \<Rightarrow> 'b fs \<Rightarrow> load_error + state" where
  "loadLocked s e f =
     (case f (sr_Path s) of
        None \<Rightarrow> if sys_ok e OpRead then Inr empty_state else Inl ReadError
      | Some data \<Rightarrow>
          if \<not> sys_ok e OpRead then Inl ReadError
          else case unmarshal (sr_codec s) data of
            None \<Rightarrow> Inl ErrCorrupt
          | Some st \<Rightarrow> Inr st)"

definition saveLocked :: "'b store \<Rightarrow> 'b env \<Rightarrow> state \<Rightarrow> 'b fs \<Rightarrow> 'b fs list \<times> bool" where
  "saveLocked s e st f = atomic_save e False (sr_Path s) (marshal (sr_codec s) st) f"

definition corrupt_path :: "'b store \<Rightarrow> string" where
  "corrupt_path s = sr_Path s @ ''.corrupt''"

text \<open>
  \<^verbatim>\<open>update\<close>: the states it passes through and whether it returned nil.
\<close>

definition update :: "'b store \<Rightarrow> 'b env \<Rightarrow> (state \<Rightarrow> state) \<Rightarrow> 'b fs \<Rightarrow> 'b fs list \<times> bool" where
  "update s e mutate f =
     (case loadLocked s e f of
        Inl ErrCorrupt \<Rightarrow>
          if \<not> sys_ok e OpBackup then ([], False)
          else (let f1 = rename (sr_Path s) (corrupt_path s) f;
                    (trace, ok) = saveLocked s e (mutate empty_state) f1
                in (f1 # trace, ok))
      | Inl ReadError \<Rightarrow> ([], False)
      | Inr st \<Rightarrow> saveLocked s e (mutate st) f)"

definition SetPending :: "pending \<Rightarrow> state \<Rightarrow> state" where
  "SetPending p st = st\<lparr>st_Pending := Some p\<rparr>"

definition ClearPending :: "state \<Rightarrow> state" where
  "ClearPending st = st\<lparr>st_Pending := None\<rparr>"

definition SetSelfUpdate :: "self_update \<Rightarrow> state \<Rightarrow> state" where
  "SetSelfUpdate su st = st\<lparr>st_SelfUpdate := Some su\<rparr>"

definition ClearSelfUpdate :: "state \<Rightarrow> state" where
  "ClearSelfUpdate st = st\<lparr>st_SelfUpdate := None\<rparr>"

definition AddPendingCommand :: "pending_command \<Rightarrow> state \<Rightarrow> state" where
  "AddPendingCommand c st = st\<lparr>st_PendingCommands := st_PendingCommands st @ [c]\<rparr>"

definition RemovePendingCommand :: "string \<Rightarrow> state \<Rightarrow> state" where
  "RemovePendingCommand i st =
     st\<lparr>st_PendingCommands := filter (\<lambda>c. pc_ID c \<noteq> i) (st_PendingCommands st)\<rparr>"

definition DropPendingCommands :: "state \<Rightarrow> state" where
  "DropPendingCommands st = st\<lparr>st_PendingCommands := []\<rparr>"

text \<open>
  \<^verbatim>\<open>TakePendingCommands\<close> returns what the mutation saw, also when the save then fails.
\<close>

definition TakePendingCommands ::
  "'b store \<Rightarrow> 'b env \<Rightarrow> 'b fs \<Rightarrow> pending_command list \<times> 'b fs list \<times> bool" where
  "TakePendingCommands s e f =
     ((case loadLocked s e f of
         Inr st \<Rightarrow> st_PendingCommands st
       | Inl _ \<Rightarrow> []),
      update s e DropPendingCommands f)"

lemmas state_ops = SetPending_def ClearPending_def SetSelfUpdate_def ClearSelfUpdate_def
  AddPendingCommand_def RemovePendingCommand_def DropPendingCommands_def

section \<open>The store as a record store\<close>

text \<open>What a read that does not fail returns.\<close>

definition contents :: "'b store \<Rightarrow> 'b fs \<Rightarrow> state option" where
  "contents s f =
     (case f (sr_Path s) of None \<Rightarrow> Some empty_state | Some data \<Rightarrow> unmarshal (sr_codec s) data)"

text \<open>
  The environments the theorems speak about: the codec round-trips and the temporary
  file \<^verbatim>\<open>os.CreateTemp\<close> made (a fresh \<^verbatim>\<open>state-*.tmp\<close>) is neither the state file nor its
  backup.
\<close>

definition good_env :: "'b store \<Rightarrow> 'b env \<Rightarrow> bool" where
  "good_env s e \<longleftrightarrow> codec_ok (sr_codec s) \<and> sys_tmp e \<noteq> sr_Path s \<and> sys_tmp e \<noteq> corrupt_path s"

definition update_fs :: "'b store \<Rightarrow> 'b env \<Rightarrow> (state \<Rightarrow> state) \<Rightarrow> 'b fs \<Rightarrow> 'b fs \<times> bool" where
  "update_fs s e g f = (final f (update s e g f), snd (update s e g f))"

lemma loadLocked_contents:
  "loadLocked s e f = Inr st \<Longrightarrow> contents s f = Some st"
  "loadLocked s e f = Inl ErrCorrupt \<Longrightarrow> contents s f = None \<and> f (sr_Path s) \<noteq> None"
  by (auto simp: loadLocked_def contents_def split: option.splits if_splits)

lemma contents_save:
  assumes "good_env s e"
  shows "saveLocked s e st f = (trace, True) \<Longrightarrow> contents s (final f (trace, True)) = Some st"
    and "saveLocked s e st f = (trace, False) \<Longrightarrow> contents s (final f (trace, False)) = contents s f"
  using assms atomic_save_success [of e False "sr_Path s" "marshal (sr_codec s) st" f trace]
    atomic_save_failure [of e False "sr_Path s" "marshal (sr_codec s) st" f trace]
  by (auto simp: saveLocked_def contents_def good_env_def codec_ok_def)

lemma corrupt_path_neq [simp]: "corrupt_path s \<noteq> sr_Path s" "sr_Path s \<noteq> corrupt_path s"
  by (auto simp: corrupt_path_def)

lemma contents_rename_corrupt:
  "f (sr_Path s) \<noteq> None \<Longrightarrow> contents s (rename (sr_Path s) (corrupt_path s) f) = Some empty_state"
  by (auto simp: contents_def rename_def)

lemma final_Cons: "final f (g # tr, ok) = final g (tr, ok)"
  by (simp add: final_def)

lemma update_success:
  assumes "good_env s e" "update s e g f = (trace, True)"
  shows "contents s (final f (trace, True)) =
         Some (g (case contents s f of None \<Rightarrow> empty_state | Some st \<Rightarrow> st))"
proof (cases "loadLocked s e f")
  case (Inl err)
  then have c: "err = ErrCorrupt" using assms(2) by (cases err) (auto simp: update_def)
  obtain tr where tr: "saveLocked s e (g empty_state) (rename (sr_Path s) (corrupt_path s) f) = (tr, True)"
    and trace: "trace = rename (sr_Path s) (corrupt_path s) f # tr"
    using assms(2) Inl c by (auto simp: update_def Let_def split: if_splits prod.splits)
  show ?thesis
    using contents_save(1) [OF assms(1) tr] loadLocked_contents(2) [of s e f] Inl c
    by (simp add: trace final_Cons)
next
  case (Inr st)
  then show ?thesis
    using assms(2) contents_save(1) [OF assms(1), of "g st" f trace] loadLocked_contents(1) [OF Inr]
    by (simp add: update_def)
qed

lemma update_failure:
  assumes "good_env s e" "update s e g f = (trace, False)" "contents s f = Some st"
  shows "contents s (final f (trace, False)) = Some st"
proof (cases "loadLocked s e f")
  case (Inl err)
  then have "err = ReadError"
    using loadLocked_contents(2) [of s e f] assms(3) by (cases err) auto
  then show ?thesis using Inl assms(2,3) by (simp add: update_def final_def)
next
  case (Inr st')
  then show ?thesis
    using assms(2,3) contents_save(2) [OF assms(1), of "g st'" f trace] by (simp add: update_def)
qed

interpretation ss: record_store "update_fs s" "contents s" empty_state "good_env s" for s :: "'b store"
proof
  fix e g w w'
  assume good: "good_env s e"
  show "update_fs s e g w = (w', True) \<Longrightarrow>
      contents s w' = Some (g (case contents s w of None \<Rightarrow> empty_state | Some s \<Rightarrow> s))"
    using update_success [OF good, of g w "fst (update s e g w)"] by (auto simp: update_fs_def prod_eq_iff)
  show "update_fs s e g w = (w', False) \<Longrightarrow> contents s w = Some st \<Longrightarrow> contents s w' = Some st" for st
    using update_failure [OF good, of g w "fst (update s e g w)" st] by (auto simp: update_fs_def prod_eq_iff)
qed

section \<open>Lifecycles\<close>

text \<open>The operations, as data, and which lifecycle each belongs to.\<close>

datatype op =
    OSetPending pending
  | OClearPending
  | OSetSelfUpdate self_update
  | OClearSelfUpdate
  | OAddCommand pending_command
  | ORemoveCommand string
  | OTakeCommands

fun mutation :: "op \<Rightarrow> state \<Rightarrow> state" where
  "mutation (OSetPending p) = SetPending p"
| "mutation OClearPending = ClearPending"
| "mutation (OSetSelfUpdate su) = SetSelfUpdate su"
| "mutation OClearSelfUpdate = ClearSelfUpdate"
| "mutation (OAddCommand c) = AddPendingCommand c"
| "mutation (ORemoveCommand i) = RemovePendingCommand i"
| "mutation OTakeCommands = DropPendingCommands"

datatype lifecycle = LPending | LSelfUpdate | LCommands

fun lifecycle_of :: "op \<Rightarrow> lifecycle" where
  "lifecycle_of (OSetPending _) = LPending"
| "lifecycle_of OClearPending = LPending"
| "lifecycle_of (OSetSelfUpdate _) = LSelfUpdate"
| "lifecycle_of OClearSelfUpdate = LSelfUpdate"
| "lifecycle_of (OAddCommand _) = LCommands"
| "lifecycle_of (ORemoveCommand _) = LCommands"
| "lifecycle_of OTakeCommands = LCommands"

definition same_on :: "lifecycle \<Rightarrow> state \<Rightarrow> state \<Rightarrow> bool" where
  "same_on l a b = (case l of
      LPending \<Rightarrow> st_Pending a = st_Pending b
    | LSelfUpdate \<Rightarrow> st_SelfUpdate a = st_SelfUpdate b
    | LCommands \<Rightarrow> st_PendingCommands a = st_PendingCommands b)"

lemma mutation_frame: "lifecycle_of x \<noteq> l \<Longrightarrow> same_on l (mutation x st) st"
  by (cases x; cases l) (auto simp: same_on_def state_ops)

lemma mutation_cong: "same_on l a b \<Longrightarrow> same_on l (mutation x a) (mutation x b)"
  by (cases x; cases l) (auto simp: same_on_def state_ops)

lemma same_on_trans: "same_on l a b \<Longrightarrow> same_on l b c \<Longrightarrow> same_on l a c"
  by (cases l) (auto simp: same_on_def)

lemma same_on_refl [simp]: "same_on l a a"
  by (cases l) (auto simp: same_on_def)

lemma fold_mutation_cong: "same_on l a b \<Longrightarrow> same_on l (fold mutation xs a) (fold mutation xs b)"
  by (induction xs arbitrary: a b) (auto simp: mutation_cong)

lemma fold_mutation_filter:
  "same_on l (fold mutation xs st) (fold mutation (filter (\<lambda>x. lifecycle_of x = l) xs) st)"
proof (induction xs arbitrary: st)
  case (Cons x xs)
  show ?case
  proof (cases "lifecycle_of x = l")
    case False
    have "same_on l (fold mutation xs (mutation x st)) (fold mutation xs st)"
      by (rule fold_mutation_cong [OF mutation_frame [OF False]])
    from same_on_trans [OF this Cons [of st]] False show ?thesis by simp
  qed (use Cons in simp)
qed simp

text \<open>A sequence of operations on the store, each in its own environment.\<close>

definition run_ops :: "'b store \<Rightarrow> ('b env \<times> op) list \<Rightarrow> 'b fs \<Rightarrow> 'b fs \<times> bool list" where
  "run_ops s xs = ss.run s (map (\<lambda>(e, x). (e, mutation x)) xs)"

fun succeeded :: "bool list \<Rightarrow> op list \<Rightarrow> op list" where
  "succeeded (True # oks) (x # xs) = x # succeeded oks xs"
| "succeeded (False # oks) (x # xs) = succeeded oks xs"
| "succeeded _ _ = []"

lemma fold_succeeded:
  "length oks = length xs \<Longrightarrow>
   fold (\<lambda>(ok, u). if ok then snd u else id) (zip oks (map (\<lambda>(e, x). (e, mutation x)) xs)) st =
   fold mutation (succeeded oks (map snd xs)) st"
  by (induction oks xs arbitrary: st rule: list_induct2) (auto split: prod.splits)

lemma run_ops_contents:
  assumes "run_ops s xs f = (f', oks)" "\<forall>x \<in> set xs. good_env s (fst x)" "contents s f = Some st"
  shows "contents s f' = Some (fold mutation (succeeded oks (map snd xs)) st)"
proof -
  have len: "length oks = length xs" 
    using ss.length_run [OF assms(1) [unfolded run_ops_def]] by simp
  have "\<forall>u \<in> set (map (\<lambda>(e, x). (e, mutation x)) xs). good_env s (fst u)"
    using assms(2) by (auto split: prod.splits)
  from ss.run_applies_successes [OF assms(1) [unfolded run_ops_def] this assms(3)] len
  show ?thesis by (simp add: fold_succeeded)
qed

section \<open>Properties\<close>

text \<open>
  No lost update between the three lifecycles of the state file. However the
  operations of the poll loop, the command handlers and the welcome burst interleave,
  and whichever of their system calls fail, what the file holds for one lifecycle is
  what the successful operations of that lifecycle alone, in their order, make of it.
\<close>

theorem lifecycles_independent:
  assumes "run_ops s xs f = (f', oks)" "\<forall>x \<in> set xs. good_env s (fst x)" "contents s f = Some st"
  shows "\<exists>st'. contents s f' = Some st' \<and>
    (\<forall>l. same_on l st' (fold mutation (filter (\<lambda>x. lifecycle_of x = l) (succeeded oks (map snd xs))) st))"
  using run_ops_contents [OF assms] fold_mutation_filter by blast

text \<open>
  C7: An update of the state file is atomic. Whatever system calls fail and whenever
  the process dies, the file a later start finds either is as it was before or holds
  exactly the new state; when the operation reports success it holds the new state,
  when it reports failure a readable file is unchanged; and a file that could not be
  parsed is never lost: its bytes are in the backup before anything is written.
\<close>

theorem update_atomic:
  assumes "good_env s e" and "f (sr_Path s) = Some data"
  shows "(\<forall>h \<in> set (fst (update s e g f)).
       h (sr_Path s) = Some data \<or>
       (\<exists>st. unmarshal (sr_codec s) data = Some st \<and> h (sr_Path s) = Some (marshal (sr_codec s) (g st))) \<or>
       unmarshal (sr_codec s) data = None \<and> h (corrupt_path s) = Some data \<and>
         h (sr_Path s) \<in> {None, Some (marshal (sr_codec s) (g empty_state))}) \<and>
    (snd (update s e g f) \<longrightarrow> contents s (final f (update s e g f)) =
       Some (g (case unmarshal (sr_codec s) data of None \<Rightarrow> empty_state | Some st \<Rightarrow> st))) \<and>
    (\<not> snd (update s e g f) \<and> unmarshal (sr_codec s) data \<noteq> None \<longrightarrow>
       contents s (final f (update s e g f)) = unmarshal (sr_codec s) data)"
proof -
  have tmp: "sys_tmp e \<noteq> sr_Path s" "sys_tmp e \<noteq> corrupt_path s" using assms(1) by (auto simp: good_env_def)
  have c: "contents s f = unmarshal (sr_codec s) data" using assms(2) by (simp add: contents_def)
  have crash: "h (sr_Path s) = f' (sr_Path s) \<or> h (sr_Path s) = Some (marshal (sr_codec s) st)"
    if "h \<in> set (fst (saveLocked s e st f'))" for h st f'
    using that tmp(1) unfolding saveLocked_def by (rule atomic_save_crash)
  have frame: "h (corrupt_path s) = f' (corrupt_path s)"
    if "h \<in> set (fst (saveLocked s e st f'))" for h st f'
    using that tmp(2) unfolding saveLocked_def by (auto intro: atomic_save_frame)
  have 1: "h (sr_Path s) = Some data \<or>
       (\<exists>st. unmarshal (sr_codec s) data = Some st \<and> h (sr_Path s) = Some (marshal (sr_codec s) (g st))) \<or>
       unmarshal (sr_codec s) data = None \<and> h (corrupt_path s) = Some data \<and>
         h (sr_Path s) \<in> {None, Some (marshal (sr_codec s) (g empty_state))}"
    if h: "h \<in> set (fst (update s e g f))" for h
  proof (cases "unmarshal (sr_codec s) data")
    case None
    let ?f1 = "rename (sr_Path s) (corrupt_path s) f"
    have f1: "?f1 (sr_Path s) = None" "?f1 (corrupt_path s) = Some data"
      using assms(2) by (auto simp: rename_def)
    from h None assms(2) have "h = ?f1 \<or> h \<in> set (fst (saveLocked s e (g empty_state) ?f1))"
      by (auto simp: update_def loadLocked_def Let_def split: if_splits prod.splits)
    with f1 None crash [of h "g empty_state" ?f1] frame [of h "g empty_state" ?f1] show ?thesis by auto
  next
    case (Some st)
    with h assms(2) have "h \<in> set (fst (saveLocked s e (g st) f))"
      by (auto simp: update_def loadLocked_def split: if_splits)
    with Some crash [of h "g st" f] assms(2) show ?thesis by auto
  qed
  have 2: "contents s (final f (update s e g f)) =
       Some (g (case unmarshal (sr_codec s) data of None \<Rightarrow> empty_state | Some st \<Rightarrow> st))"
    if "snd (update s e g f)"
    using update_success [OF assms(1), of g f "fst (update s e g f)"] that c by (simp add: prod_eq_iff)
  have 3: "contents s (final f (update s e g f)) = unmarshal (sr_codec s) data"
    if "\<not> snd (update s e g f)" "unmarshal (sr_codec s) data \<noteq> None"
    using update_failure [OF assms(1), of g f "fst (update s e g f)"] that c by (auto simp: prod_eq_iff)
  from 1 2 3 show ?thesis by blast
qed

text \<open>
  A command recorded before the process dies is reported exactly once. After a
  successful \<^verbatim>\<open>AddPendingCommand\<close>, the next \<^verbatim>\<open>TakePendingCommands\<close> whose read succeeds
  returns it, after everything recorded before it; and once that call reports
  success, a further one returns nothing.
\<close>

theorem pending_commands_taken_once:
  assumes "good_env s e1" "good_env s e2" "sys_ok e2 OpRead" "sys_ok e3 OpRead"
    and "contents s f = Some st"
    and "update s e1 (AddPendingCommand c) f = (tr1, True)" and "f1 = final f (tr1, True)"
    and "TakePendingCommands s e2 f1 = (taken, tr2, True)" and "f2 = final f1 (tr2, True)"
  shows "taken = st_PendingCommands st @ [c] \<and> fst (TakePendingCommands s e3 f2) = []"
proof -
  have load: "loadLocked s e h = Inr st'" if "sys_ok e OpRead" "contents s h = Some st'" for e h st'
    using that by (auto simp: loadLocked_def contents_def split: option.splits)
  have 1: "contents s f1 = Some (AddPendingCommand c st)"
    using update_success [OF assms(1) assms(6)] assms(5,7) by simp
  have "update s e2 DropPendingCommands f1 = (tr2, True)" and
    taken: "taken = st_PendingCommands (AddPendingCommand c st)"
    using assms(8) load [OF assms(3) 1] by (auto simp: TakePendingCommands_def)
  then have "contents s f2 = Some (DropPendingCommands (AddPendingCommand c st))"
    using update_success [OF assms(2)] assms(9) 1 by simp
  from load [OF assms(4) this] taken show ?thesis
    by (simp add: TakePendingCommands_def state_ops)
qed

section \<open>A concrete store\<close>

text \<open>
  A codec that stores the record itself, and an environment in which every call
  succeeds.
\<close>

definition demo_store :: "state option store" where
  "demo_store = \<lparr>sr_Path = ''state.json'', sr_codec = \<lparr>marshal = Some, unmarshal = (\<lambda>b. b)\<rparr>\<rparr>"

definition demo_env :: "state option env" where
  "demo_env = \<lparr>sys_ok = (\<lambda>_. True), sys_tmp = ''state-1.tmp'', sys_torn = None\<rparr>"

definition demo_cmd :: pending_command where
  "demo_cmd = \<lparr>pc_ID = ''c1'', pc_Name = ''service.restart'', pc_AcceptedAt = 5\<rparr>"

lemma demo_good: "good_env demo_store demo_env" "good_env demo_store (demo_env\<lparr>sys_ok := ok\<rparr>)"
  by (simp_all add: good_env_def demo_store_def demo_env_def codec_ok_def corrupt_path_def)

theorem lifecycles_independent_witness:
  "\<exists>f' oks st'. run_ops demo_store [(demo_env, OAddCommand demo_cmd), (demo_env\<lparr>sys_ok := (\<lambda>x. x \<noteq> OpRename)\<rparr>, OClearPending)]
      (\<lambda>_. None) = (f', oks) \<and> contents demo_store f' = Some st' \<and>
      same_on LCommands st' (fold mutation (filter (\<lambda>x. lifecycle_of x = LCommands)
        (succeeded oks [OAddCommand demo_cmd, OClearPending])) empty_state)"
proof -
  let ?xs = "[(demo_env, OAddCommand demo_cmd), (demo_env\<lparr>sys_ok := (\<lambda>x. x \<noteq> OpRename)\<rparr>, OClearPending)]"
  obtain f' oks where r: "run_ops demo_store ?xs (\<lambda>_. None) = (f', oks)"
    by (cases "run_ops demo_store ?xs (\<lambda>_. None)")
  have "contents demo_store (\<lambda>_. None) = Some empty_state" by (simp add: contents_def)
  then show ?thesis using lifecycles_independent [OF r] demo_good r by auto
qed

theorem update_atomic_witness:
  "contents demo_store (final (\<lambda>_. Some (Some empty_state))
      (update demo_store demo_env (AddPendingCommand demo_cmd) (\<lambda>_. Some (Some empty_state)))) =
   Some (AddPendingCommand demo_cmd empty_state)"
proof -
  have "snd (update demo_store demo_env (AddPendingCommand demo_cmd) (\<lambda>_. Some (Some empty_state)))"
    by (simp add: update_def loadLocked_def saveLocked_def atomic_save_def demo_store_def demo_env_def Let_def)
  moreover have "unmarshal (sr_codec demo_store) (Some empty_state) = Some empty_state"
    by (simp add: demo_store_def)
  ultimately show ?thesis
    using update_atomic [OF demo_good(1), of "\<lambda>_. Some (Some empty_state)" "Some empty_state" "AddPendingCommand demo_cmd"]
    by simp
qed

theorem pending_commands_taken_once_witness:
  "\<exists>f1 f2. fst (TakePendingCommands demo_store demo_env f1) = [demo_cmd] \<and>
     fst (TakePendingCommands demo_store demo_env f2) = []"
proof -
  let ?f0 = "\<lambda>_. None :: state option option"
  let ?u = "update demo_store demo_env (AddPendingCommand demo_cmd) ?f0"
  let ?f1 = "final ?f0 (fst ?u, True)"
  let ?t = "TakePendingCommands demo_store demo_env ?f1"
  have 1: "?u = (fst ?u, True)"
    by (simp add: update_def loadLocked_def saveLocked_def atomic_save_def demo_store_def demo_env_def Let_def)
  have r: "sys_ok demo_env OpRead" by (simp add: demo_env_def)
  have c: "contents demo_store ?f0 = Some empty_state" by (simp add: contents_def)
  have c1: "contents demo_store ?f1 = Some (AddPendingCommand demo_cmd empty_state)"
    using update_success [OF demo_good(1) 1] c by simp
  have "snd (update demo_store demo_env DropPendingCommands f)" if "contents demo_store f = Some st" for f st
    using that
    by (auto simp: update_def loadLocked_def saveLocked_def atomic_save_def demo_store_def demo_env_def
        Let_def contents_def split: option.splits)
  then have 2: "?t = (fst ?t, fst (snd ?t), True)" using c1 by (simp add: TakePendingCommands_def prod_eq_iff)
  from pending_commands_taken_once [OF demo_good(1) demo_good(1) r r c 1 refl 2 refl]
  show ?thesis by (auto simp: empty_state_def)
qed

end
