(* ===== verification/Systems.thy ===== *)
theory Systems
  imports Main
begin

text \<open>
  Reachable states and invariants, once for all the state machines of the
  development: a component that several goroutines act on is a set of initial states
  and a step relation whose steps are what the component's mutex makes atomic.
\<close>

locale transition_system =
  fixes init :: "'s \<Rightarrow> bool"
    and step :: "'s \<Rightarrow> 'a \<Rightarrow> 's \<Rightarrow> bool"
begin

inductive reachable :: "'s \<Rightarrow> bool" where
  reachable_init: "init s \<Longrightarrow> reachable s"
| reachable_step: "reachable s \<Longrightarrow> step s a s' \<Longrightarrow> reachable s'"

text \<open>The executions: a list of actions taken one after the other.\<close>

inductive run :: "'s \<Rightarrow> 'a list \<Rightarrow> 's \<Rightarrow> bool" where
  run_Nil: "run s [] s"
| run_Cons: "step s a s' \<Longrightarrow> run s' as s'' \<Longrightarrow> run s (a # as) s''"

inductive_cases run_NilE: "run s [] s'"
inductive_cases run_ConsE: "run s (a # as) s'"

lemma reachable_invariant:
  assumes "reachable s"
    and "\<And>s. init s \<Longrightarrow> I s"
    and "\<And>s a s'. I s \<Longrightarrow> step s a s' \<Longrightarrow> I s'"
  shows "I s"
  using assms(1) by (induction rule: reachable.induct) (use assms(2,3) in blast)+

lemma run_invariant:
  assumes "run s as s'" "I s" and "\<And>s a s'. I s \<Longrightarrow> step s a s' \<Longrightarrow> I s'"
  shows "I s'"
  using assms(1,2) by (induction rule: run.induct) (use assms(3) in blast)+

lemma run_reachable: "run s as s' \<Longrightarrow> reachable s \<Longrightarrow> reachable s'"
  by (induction rule: run.induct) (blast intro: reachable_step)+

lemma run_append: "run s (as @ bs) s'' \<longleftrightarrow> (\<exists>s'. run s as s' \<and> run s' bs s'')"
proof (induction as arbitrary: s)
  case Nil
  then show ?case by (auto intro: run_Nil elim: run_NilE)
next
  case (Cons a as)
  then show ?case by (auto elim!: run_ConsE intro: run_Cons) (metis run_Cons)+
qed

end

end
