(* ===== verification/PowerGate.thy ===== *)
theory PowerGate
  imports Protocol StateStore Systems
begin

text \<open>
  \<^verbatim>\<open>internal/service/clientpower.go\<close>: the gate that keeps installs and destructive
  commands (service restart, machine reboot) apart, and the execution of a
  destructive command. \<^verbatim>\<open>destructiveMu\<close> makes each operation of the gate one step;
  the steps of the poll loop and of the command goroutines interleave freely.
\<close>

definition minRebootNoticeWithUser :: duration where "minRebootNoticeWithUser = 60 * Second"
definition rebootGrace :: duration where "rebootGrace = 5 * Minute"
definition serviceRestartGrace :: duration where "serviceRestartGrace = 3 * Minute"

lemmas power_consts = minRebootNoticeWithUser_def rebootGrace_def serviceRestartGrace_def

section \<open>The gate\<close>

record gate =
  ga_installing :: int
  ga_pending :: bool
  ga_deadline :: time
  ga_id :: string
  ga_skipLogged :: bool

definition zero_gate :: gate where
  "zero_gate = \<lparr>ga_installing = 0, ga_pending = False, ga_deadline = 0, ga_id = [], ga_skipLogged = False\<rparr>"

definition clearDestructivePendingLocked :: "gate \<Rightarrow> gate" where
  "clearDestructivePendingLocked g =
     g\<lparr>ga_pending := False, ga_deadline := 0, ga_id := [], ga_skipLogged := False\<rparr>"

text \<open>
  The flag after the deadline has been enforced, the new gate, and the command whose
  pending record is removed with it.
\<close>

definition destructivePendingLocked :: "time \<Rightarrow> gate \<Rightarrow> bool \<times> gate \<times> string option" where
  "destructivePendingLocked now g =
     (if ga_pending g \<and> \<not> is_zero_time (ga_deadline g) \<and> \<not> now < ga_deadline g then
        (let g' = clearDestructivePendingLocked g
         in (ga_pending g', g', if ga_id g \<noteq> [] then Some (ga_id g) else None))
      else (ga_pending g, g, None))"

definition destructivePendingNow :: "time \<Rightarrow> gate \<Rightarrow> bool \<times> gate \<times> string option" where
  "destructivePendingNow now g = destructivePendingLocked now g"

definition beginInstall :: "time \<Rightarrow> gate \<Rightarrow> bool \<times> gate \<times> string option" where
  "beginInstall now g =
     (let (p, g', gone) = destructivePendingLocked now g
      in if p then (False, g', gone) else (True, g'\<lparr>ga_installing := ga_installing g' + 1\<rparr>, gone))"

definition endInstall :: "gate \<Rightarrow> gate" where
  "endInstall g = g\<lparr>ga_installing := ga_installing g - 1\<rparr>"

definition commitDestructive :: "string \<Rightarrow> time \<Rightarrow> gate \<Rightarrow> bool \<times> gate" where
  "commitDestructive i deadline g =
     (if ga_installing g > 0 then (False, g)
      else (True, g\<lparr>ga_pending := True, ga_deadline := deadline, ga_id := i, ga_skipLogged := False\<rparr>))"

definition clearDestructivePending :: "gate \<Rightarrow> gate" where
  "clearDestructivePending g = clearDestructivePendingLocked g"

text \<open>Whether the skip is logged now, and the gate that remembers it.\<close>

definition logDestructiveSkipOnce :: "gate \<Rightarrow> bool \<times> gate" where
  "logDestructiveSkipOnce g = (\<not> ga_skipLogged g, g\<lparr>ga_skipLogged := True\<rparr>)"

lemmas gate_defs = clearDestructivePendingLocked_def destructivePendingLocked_def destructivePendingNow_def
  beginInstall_def endInstall_def commitDestructive_def clearDestructivePending_def logDestructiveSkipOnce_def

section \<open>Admission\<close>

datatype session_state = SessionNone | SessionActiveConsole | SessionActiveRDP | SessionDisconnected

definition userActive :: "session_state \<Rightarrow> bool" where
  "userActive s \<longleftrightarrow> s = SessionActiveConsole \<or> s = SessionActiveRDP"

definition admitDestructive ::
  "time \<Rightarrow> session_state \<Rightarrow> command \<Rightarrow> gate \<Rightarrow> error_code option \<times> gate \<times> string option" where
  "admitDestructive now user cmd g =
     (if \<not> Destructive (cm_Name cmd) then (None, g, None)
      else if ga_installing g > 0 then (Some ErrBusy, g, None)
      else let (p, g', gone) = destructivePendingNow now g in
      if p then (Some ErrBusy, g', gone)
      else if cm_Name cmd = CmdMachineReboot \<and> Mode (rebootArgs (cm_Args cmd)) = WhenUserActiveSkip \<and> userActive user
      then (Some ErrUserActive, g', gone)
      else (None, g', gone))"

section \<open>Running a destructive command\<close>

text \<open>
  What happens outside: the writes of the state file, the launches, the user at the
  machine, the clock. \<open>px_user\<close> is read after admission, \<open>px_now\<close> at the commit.
\<close>

record power_env =
  px_accepted :: time
  px_now :: time
  px_user :: session_state
  px_add_ok :: bool
  px_remove_ok :: bool
  px_restart_ok :: bool
  px_reboot_ok :: bool

datatype power_effect =
    CloseConnection
  | SendError string
  | Restart string
  | Reboot string duration

text \<open>The gate, the pending commands of the state file, and what was done, in order.\<close>

record power_world =
  pw_gate :: gate
  pw_commands :: "pending_command list"
  pw_effects :: "power_effect list"

definition emit_effect :: "power_effect \<Rightarrow> power_world \<Rightarrow> power_world" where
  "emit_effect x w = w\<lparr>pw_effects := pw_effects w @ [x]\<rparr>"

definition drop_command :: "power_env \<Rightarrow> string \<Rightarrow> power_world \<Rightarrow> power_world" where
  "drop_command e i w =
     (if px_remove_ok e then w\<lparr>pw_commands := filter (\<lambda>c. pc_ID c \<noteq> i) (pw_commands w)\<rparr> else w)"

definition reboot_delay :: "power_env \<Rightarrow> json option \<Rightarrow> duration" where
  "reboot_delay e args =
     (let delay = Delay (rebootArgs args) * Second
      in if userActive (px_user e) \<and> delay < minRebootNoticeWithUser then minRebootNoticeWithUser else delay)"

definition runDestructive :: "power_env \<Rightarrow> string \<Rightarrow> command \<Rightarrow> power_world \<Rightarrow> power_world" where
  "runDestructive e i cmd w =
     (let rec = \<lparr>pc_ID = i, pc_Name = cm_Name cmd, pc_AcceptedAt = px_accepted e\<rparr>;
          fail = (\<lambda>w. emit_effect (SendError i) (drop_command e i w))
      in if \<not> px_add_ok e then fail w
      else let w = w\<lparr>pw_commands := pw_commands w @ [rec]\<rparr> in
      if cm_Name cmd = CmdServiceRestart then
        (let w = emit_effect CloseConnection w;
             (ok, g) = commitDestructive i (px_now e + serviceRestartGrace) (pw_gate w);
             w = w\<lparr>pw_gate := g\<rparr>
         in if \<not> ok then drop_command e i w
            else if \<not> px_restart_ok e then
              drop_command e i (w\<lparr>pw_gate := clearDestructivePending (pw_gate w)\<rparr>)
            else emit_effect (Restart i) w)
      else if cm_Name cmd = CmdMachineReboot then
        (let delay = reboot_delay e (cm_Args cmd);
             (ok, g) = commitDestructive i (px_now e + (delay + rebootGrace)) (pw_gate w);
             w = w\<lparr>pw_gate := g\<rparr>
         in if \<not> ok then fail w
            else if \<not> px_reboot_ok e then fail (w\<lparr>pw_gate := clearDestructivePending (pw_gate w)\<rparr>)
            else emit_effect (Reboot i delay) w)
      else w)"

section \<open>The gate as a state machine\<close>

text \<open>
  The steps of all goroutines. Only an actor whose \<^verbatim>\<open>beginInstall\<close> was granted ends an
  install, so an end needs an install in flight; \<open>Clear\<close> is a destructive command whose
  launch failed.
\<close>

datatype gate_action =
    ABegin time bool
  | AEnd
  | ACommit string time bool
  | AClear
  | ACheck time bool
  | ALogSkip bool

inductive gate_step :: "gate \<Rightarrow> gate_action \<Rightarrow> gate \<Rightarrow> bool" where
  begin_install: "beginInstall now g = (ok, g', gone) \<Longrightarrow> gate_step g (ABegin now ok) g'"
| end_install: "ga_installing g > 0 \<Longrightarrow> gate_step g AEnd (endInstall g)"
| commit: "commitDestructive i d g = (ok, g') \<Longrightarrow> gate_step g (ACommit i d ok) g'"
| clear: "gate_step g AClear (clearDestructivePending g)"
| check: "destructivePendingNow now g = (p, g', gone) \<Longrightarrow> gate_step g (ACheck now p) g'"
| log_skip: "logDestructiveSkipOnce g = (l, g') \<Longrightarrow> gate_step g (ALogSkip l) g'"

inductive_simps gate_step_begin: "gate_step g (ABegin now ok) g'"
inductive_simps gate_step_end: "gate_step g AEnd g'"
inductive_simps gate_step_commit: "gate_step g (ACommit i d ok) g'"
inductive_simps gate_step_clear: "gate_step g AClear g'"
inductive_simps gate_step_check: "gate_step g (ACheck now p) g'"

lemmas gate_step_simps = gate_step_begin gate_step_end gate_step_commit gate_step_clear gate_step_check

interpretation gate: transition_system "\<lambda>g. g = zero_gate" gate_step .

definition gate_inv :: "gate \<Rightarrow> bool" where
  "gate_inv g \<longleftrightarrow> ga_installing g \<ge> 0 \<and> (ga_pending g \<longrightarrow> ga_installing g = 0)"

lemma gate_inv_step [inv_intros]: "gate_inv g \<Longrightarrow> gate_step g a g' \<Longrightarrow> gate_inv g'"
  by (auto simp: gate_inv_def gate_defs Let_def elim!: gate_step.cases split: if_splits)

lemma gate_inv_reachable: "gate.reachable g \<Longrightarrow> gate_inv g"
  by (rule gate.reachable_invariant [where I = gate_inv])
     (simp_all add: gate_inv_step, simp add: gate_inv_def zero_gate_def)

section \<open>Properties\<close>


text \<open>
  The gate heals. A committed command whose non-zero deadline has passed no longer
  blocks anything: the next check finds the flag clear, names the command whose pending
  record must go, and the next install is granted.
\<close>

theorem gate_heals_after_deadline:
  assumes "ga_pending g" "ga_deadline g \<noteq> 0" "ga_deadline g \<le> now"
  shows "fst (destructivePendingNow now g) = False \<and> fst (beginInstall now g) \<and>
    snd (snd (beginInstall now g)) = (if ga_id g = [] then None else Some (ga_id g)) \<and>
    \<not> ga_pending (fst (snd (beginInstall now g)))"
  using assms by (simp add: gate_defs is_zero_time_def)


text \<open>
  The commit does not look at an earlier commit. Two destructive commands admitted
  before either commits both commit; when the second one's launch then fails, its clean-up
  clears the flag the first one set, and an install is granted although the first
  command is still under way and its deadline has not passed.
\<close>

theorem second_commit_releases_gate:
  assumes "now < d1"
  shows "\<exists>g. gate.run zero_gate
      [ACheck now False, ACheck now False, ACommit i1 d1 True, ACommit i2 d2 True, AClear, ABegin now True] g \<and>
    ga_installing g = 1"
proof -
  define g1 where "g1 = snd (commitDestructive i1 d1 zero_gate)"
  define g2 where "g2 = snd (commitDestructive i2 d2 g1)"
  define g3 where "g3 = clearDestructivePending g2"
  define g4 where "g4 = fst (snd (beginInstall now g3))"
  have "gate_step zero_gate (ACheck now False) zero_gate"
    by (simp add: gate_step_simps gate_defs zero_gate_def)
  moreover have "gate_step zero_gate (ACommit i1 d1 True) g1" "gate_step g1 (ACommit i2 d2 True) g2"
    by (simp_all add: gate_step_simps g1_def g2_def gate_defs zero_gate_def)
  moreover have "gate_step g2 AClear g3" by (simp add: gate_step_simps g3_def)
  moreover have "gate_step g3 (ABegin now True) g4"
    by (simp add: gate_step_simps g4_def g3_def g2_def g1_def gate_defs zero_gate_def)
  moreover have "ga_installing g4 = 1" by (simp add: g4_def g3_def g2_def g1_def gate_defs zero_gate_def)
  ultimately show ?thesis by (meson gate.run_Cons gate.run_Nil)
qed

section \<open>Witnesses\<close>

definition demo_gate :: gate where
  "demo_gate = snd (commitDestructive ''c1'' 100 zero_gate)"

lemma demo_gate_reachable: "gate.reachable demo_gate"
proof -
  have "gate_step zero_gate (ACommit ''c1'' 100 True) demo_gate"
    by (simp add: gate_step_simps demo_gate_def gate_defs zero_gate_def)
  then show ?thesis using gate.reachable_init gate.reachable_step by blast
qed


theorem gate_heals_after_deadline_witness: "fst (beginInstall 100 demo_gate)"
  using gate_heals_after_deadline [of demo_gate 100] by (simp add: demo_gate_def commitDestructive_def zero_gate_def)

definition demo_power_env :: power_env where
  "demo_power_env = \<lparr>px_accepted = 1, px_now = 2, px_user = SessionActiveConsole, px_add_ok = True,
     px_remove_ok = True, px_restart_ok = True, px_reboot_ok = True\<rparr>"

definition demo_reboot :: command where
  "demo_reboot = \<lparr>cm_Name = CmdMachineReboot, cm_Args = Some (JObj [(''delay_seconds'', JInt 5)]),
     cm_ExpiresAt = [], cm_IssuedBy = []\<rparr>"

definition demo_power_world :: power_world where
  "demo_power_world = \<lparr>pw_gate = zero_gate, pw_commands = [], pw_effects = []\<rparr>"


theorem second_commit_releases_gate_witness:
  "\<exists>g. gate.run zero_gate
      [ACheck 5 False, ACheck 5 False, ACommit ''r'' 100 True, ACommit ''b'' 200 True, AClear, ABegin 5 True] g \<and>
    ga_installing g = 1"
  using second_commit_releases_gate [of 5 100 "''r''" "''b''" 200] by simp

end
