(* ===== verification/Wire.thy ===== *)
theory Wire
  imports Prelude "HOL-Library.Word"
begin

text \<open>
  \<^verbatim>\<open>internal/wsclient/backoff.go\<close>, \<^verbatim>\<open>id.go\<close> and \<^verbatim>\<open>session.go\<close>: the reconnection schedule,
  the message ids (ULIDs) and what a session remembers of the server's welcome.
  Durations are 64-bit, ids are built from machine words bit by bit.
\<close>

unbundle bit_operations_syntax

section \<open>Backoff\<close>

definition DefaultBackoffBase :: duration where "DefaultBackoffBase = 5 * Second"
definition DefaultBackoffMax :: duration where "DefaultBackoffMax = 5 * Minute"
definition DefaultStableFor :: duration where "DefaultStableFor = 60 * Second"

record backoff =
  bo_Base :: duration
  bo_Max :: duration
  bo_StableFor :: duration
  bo_cur :: duration

definition bo_base :: "backoff \<Rightarrow> duration" where
  "bo_base b = (if bo_Base b > 0 then bo_Base b else DefaultBackoffBase)"

definition bo_max :: "backoff \<Rightarrow> duration" where
  "bo_max b = (if bo_Max b > 0 then bo_Max b else DefaultBackoffMax)"

definition stableFor :: "backoff \<Rightarrow> duration" where
  "stableFor b = (if bo_StableFor b > 0 then bo_StableFor b else DefaultStableFor)"

text \<open>\<open>jitter rnd d\<close>: \<open>rnd n\<close> stands for \<^verbatim>\<open>rand.Int64N(n)\<close>, a value in \<open>[0, n)\<close>.\<close>

definition jitter :: "(int \<Rightarrow> int) \<Rightarrow> duration \<Rightarrow> duration" where
  "jitter rnd d = (if d \<le> 0 then 0 else rnd (d + 1))"

definition random_below :: "(int \<Rightarrow> int) \<Rightarrow> bool" where
  "random_below rnd \<longleftrightarrow> (\<forall>n > 0. 0 \<le> rnd n \<and> rnd n < n)"

definition Next :: "(int \<Rightarrow> int) \<Rightarrow> backoff \<Rightarrow> duration \<times> backoff" where
  "Next rnd b =
     (let cur = (if bo_cur b \<le> 0 then bo_base b else wrap64 (bo_cur b * 2));
          cur = (if cur > bo_max b then bo_max b else cur)
      in (jitter rnd cur, b\<lparr>bo_cur := cur\<rparr>))"

definition Reset :: "backoff \<Rightarrow> backoff" where
  "Reset b = b\<lparr>bo_cur := 0\<rparr>"

definition Settle :: "duration \<Rightarrow> backoff \<Rightarrow> backoff" where
  "Settle connectedFor b = (if connectedFor \<ge> stableFor b then Reset b else b)"

text \<open>The ceiling after \<open>n\<close> attempts from a fresh schedule.\<close>

fun attempts :: "nat \<Rightarrow> backoff \<Rightarrow> backoff" where
  "attempts 0 b = b"
| "attempts (Suc n) b = attempts n (snd (Next (\<lambda>_. 0) b))"

lemma Next_params [simp]:
  "bo_base (snd (Next rnd b)) = bo_base b" "bo_max (snd (Next rnd b)) = bo_max b"
  "stableFor (snd (Next rnd b)) = stableFor b"
  by (simp_all add: Next_def Let_def bo_base_def bo_max_def stableFor_def)

lemma bo_pos: "bo_base b > 0" "bo_max b > 0" "stableFor b > 0"
  by (simp_all add: bo_base_def bo_max_def stableFor_def DefaultBackoffBase_def DefaultBackoffMax_def
      DefaultStableFor_def Second_def Minute_def)

text \<open>A schedule whose cap leaves room for doubling without overflow.\<close>

definition sane :: "backoff \<Rightarrow> bool" where
  "sane b \<longleftrightarrow> bo_max b \<le> 2 ^ 61 \<and> bo_cur b \<le> bo_max b"

lemma sane_Next: "sane b \<Longrightarrow> sane (snd (Next rnd b))"
  by (simp add: sane_def) (simp add: Next_def Let_def)

lemma Next_cur:
  assumes "sane b"
  shows "bo_cur (snd (Next rnd b)) = min (bo_max b) (if bo_cur b \<le> 0 then bo_base b else 2 * bo_cur b)"
proof -
  have "wrap64 (bo_cur b * 2) = 2 * bo_cur b" if "bo_cur b > 0"
    using assms that by (subst wrap64_id) (auto simp: sane_def in_int64_def min_int64_def max_int64_def)
  then show ?thesis by (simp add: Next_def Let_def)
qed

lemma attempts_cur:
  assumes "sane b" "bo_cur b > 0"
  shows "bo_cur (attempts n b) = min (bo_max b) (2 ^ n * bo_cur b)"
  using assms
proof (induction n arbitrary: b)
  case 0
  then show ?case by (simp add: sane_def)
next
  case (Suc n)
  let ?b = "snd (Next (\<lambda>_. 0) b)"
  have c: "bo_cur ?b = min (bo_max b) (2 * bo_cur b)" using Next_cur [OF Suc.prems(1)] Suc.prems(2) by simp
  then have "bo_cur ?b > 0" using bo_pos(2) [of b] Suc.prems(2) by simp
  from Suc.IH [OF sane_Next [OF Suc.prems(1)] this]
  have "bo_cur (attempts (Suc n) b) = min (bo_max b) (2 ^ n * min (bo_max b) (2 * bo_cur b))"
    by (simp add: c)
  also have "\<dots> = min (bo_max b) (2 ^ Suc n * bo_cur b)"
  proof (cases "bo_max b \<le> 2 * bo_cur b")
    case True
    have "bo_max b \<le> 2 ^ n * bo_max b" using bo_pos(2) [of b] by simp
    moreover have "2 ^ n * bo_max b \<le> 2 ^ Suc n * bo_cur b"
      using mult_left_mono [OF True, of "2 ^ n"] by (simp add: mult.left_commute)
    ultimately have "bo_max b \<le> 2 ^ n * bo_max b" "bo_max b \<le> 2 ^ Suc n * bo_cur b" by linarith+
    then show ?thesis using True by (simp add: min_absorb1 del: power_Suc)
  qed (simp add: min_absorb2 mult.left_commute)
  finally show ?case .
qed

section \<open>Message ids\<close>

definition crockford :: string where
  "crockford = ''0123456789ABCDEFGHJKMNPQRSTVWXYZ''"

text \<open>
  The 16 bytes of an id: six of the time in milliseconds, big end first, then ten of
  entropy, all zero when it could not be read.
\<close>

definition id_bytes :: "64 word \<Rightarrow> 8 word list option \<Rightarrow> 8 word list" where
  "id_bytes ms entropy =
     map (\<lambda>i. ucast (drop_bit (40 - 8 * i) ms)) [0..<6] @
     (case entropy of None \<Rightarrow> replicate 10 0 | Some e \<Rightarrow> take 10 e)"

text \<open>Bit \<open>p\<close> of the bytes, the test of the inner loop.\<close>

definition byte_bit :: "8 word list \<Rightarrow> nat \<Rightarrow> bool" where
  "byte_bit b p \<longleftrightarrow> b ! (p div 8) AND drop_bit (p mod 8) 0x80 \<noteq> 0"

definition id_digit :: "8 word list \<Rightarrow> nat \<Rightarrow> 8 word" where
  "id_digit b i =
     fold (\<lambda>j v. push_bit 1 v OR of_bool (i * 5 + j \<ge> 2 \<and> byte_bit b (i * 5 + j - 2))) [0..<5] 0"

definition newIDAt :: "64 word \<Rightarrow> 8 word list option \<Rightarrow> string" where
  "newIDAt ms entropy = map (\<lambda>i. crockford ! unat (id_digit (id_bytes ms entropy) i)) [0..<26]"

lemma id_digit_unfold:
  "id_digit b i =
     push_bit 1 (push_bit 1 (push_bit 1 (push_bit 1 (push_bit 1 0
       OR of_bool (i * 5 \<ge> 2 \<and> byte_bit b (i * 5 - 2)))
       OR of_bool (i * 5 + 1 \<ge> 2 \<and> byte_bit b (i * 5 + 1 - 2)))
       OR of_bool (i * 5 + 2 \<ge> 2 \<and> byte_bit b (i * 5 + 2 - 2)))
       OR of_bool (i * 5 + 3 \<ge> 2 \<and> byte_bit b (i * 5 + 3 - 2)))
       OR of_bool (i * 5 + 4 \<ge> 2 \<and> byte_bit b (i * 5 + 4 - 2))"
  by (simp add: id_digit_def upt_rec)

lemma bit_of_bool_word: "bit (of_bool P :: 8 word) n \<longleftrightarrow> P \<and> n = 0"
  by (cases P) (simp_all add: bit_1_iff)

text \<open>Digit \<open>i\<close> holds the five bits from \<open>5 i - 2\<close> on, high bit first, and nothing above.\<close>

lemma bit_id_digit:
  assumes "j < 5"
  shows "bit (id_digit b i) (4 - j) \<longleftrightarrow> i * 5 + j \<ge> 2 \<and> byte_bit b (i * 5 + j - 2)"
proof -
  have "j = 0 \<or> j = 1 \<or> j = 2 \<or> j = 3 \<or> j = 4" using assms by auto
  then show ?thesis
    by (elim disjE) (simp_all add: id_digit_unfold bit_or_iff bit_push_bit_iff bit_of_bool_word)
qed

lemma bit_id_digit_high:
  assumes "5 \<le> n"
  shows "\<not> bit (id_digit b i) n"
proof (cases "n < 8")
  case True
  then have "n = 5 \<or> n = 6 \<or> n = 7" using assms by auto
  then show ?thesis
    by (elim disjE) (simp_all add: id_digit_unfold bit_or_iff bit_push_bit_iff bit_of_bool_word)
next
  case False
  then show ?thesis using bit_imp_le_length [of "id_digit b i" n] by auto
qed

lemma id_digit_less: "unat (id_digit b i) < 32"
proof -
  have "id_digit b i = take_bit 5 (id_digit b i)"
    by (rule bit_word_eqI) (use bit_id_digit_high [of _ b i] in \<open>auto simp: bit_take_bit_iff not_less [symmetric]\<close>)
  then have "unat (id_digit b i) = take_bit 5 (unat (id_digit b i))"
    by (metis unsigned_take_bit_eq)
  also have "\<dots> < 2 ^ 5" by (rule take_bit_nat_less_exp)
  finally show ?thesis by simp
qed

lemma crockford_distinct: "distinct crockford" "length crockford = 32"
  by (simp_all add: crockford_def)

lemma byte_bit_iff:
  assumes "p < 128" "length b = 16"
  shows "byte_bit b p \<longleftrightarrow> bit (b ! (p div 8)) (7 - p mod 8)"
proof -
  have m: "drop_bit (p mod 8) (0x80 :: 8 word) = push_bit (7 - p mod 8) 1"
  proof -
    have "p mod 8 < 8" by simp
    then consider "p mod 8 = 0" | "p mod 8 = 1" | "p mod 8 = 2" | "p mod 8 = 3" | "p mod 8 = 4"
      | "p mod 8 = 5" | "p mod 8 = 6" | "p mod 8 = 7" by linarith
    then show ?thesis by cases (simp_all only:; code_simp)+
  qed
  have "x AND push_bit k 1 \<noteq> 0 \<longleftrightarrow> bit x k" if "k < 8" for x :: "8 word" and k
    using that by (simp add: and_exp_eq_0_iff_not_bit push_bit_eq_mult mult.commute)
  then show ?thesis unfolding byte_bit_def m by simp
qed

lemma id_bytes_length: "entropy = None \<or> length (the entropy) \<ge> 10 \<Longrightarrow> length (id_bytes ms entropy) = 16"
  by (auto simp: id_bytes_def split: option.splits)

lemma newIDAt_digits:
  "newIDAt ms e = newIDAt ms' e' \<Longrightarrow> i < 26 \<Longrightarrow>
   id_digit (id_bytes ms e) i = id_digit (id_bytes ms' e') i"
proof -
  assume eq: "newIDAt ms e = newIDAt ms' e'" and i: "i < 26"
  have "crockford ! unat (id_digit (id_bytes ms e) i) = crockford ! unat (id_digit (id_bytes ms' e') i)"
    using eq i unfolding newIDAt_def by (auto dest: map_eq_conv [THEN iffD1])
  then have "unat (id_digit (id_bytes ms e) i) = unat (id_digit (id_bytes ms' e') i)"
    using crockford_distinct id_digit_less nth_eq_iff_index_eq by metis
  then show ?thesis by (rule word_unat_eq_iff [THEN iffD2])
qed

lemma newIDAt_bits:
  assumes "newIDAt ms e = newIDAt ms' e'" "p < 128"
  shows "byte_bit (id_bytes ms e) p \<longleftrightarrow> byte_bit (id_bytes ms' e') p"
proof -
  let ?i = "(p + 2) div 5" and ?j = "(p + 2) mod 5"
  have i: "?i < 26" and j: "?j < 5" and p: "?i * 5 + ?j = p + 2" using assms(2) by auto
  have "id_digit (id_bytes ms e) ?i = id_digit (id_bytes ms' e') ?i" by (rule newIDAt_digits [OF assms(1) i])
  then show ?thesis
    using bit_id_digit [OF j, of "id_bytes ms e" ?i] bit_id_digit [OF j, of "id_bytes ms' e'" ?i] p by simp
qed

lemma newIDAt_bytes:
  assumes "newIDAt ms e = newIDAt ms' e'" "length (id_bytes ms e) = 16" "length (id_bytes ms' e') = 16"
  shows "id_bytes ms e = id_bytes ms' e'"
proof (rule nth_equalityI)
  show "length (id_bytes ms e) = length (id_bytes ms' e')" using assms by simp
  fix k assume "k < length (id_bytes ms e)"
  then have k: "k < 16" using assms by simp
  show "id_bytes ms e ! k = id_bytes ms' e' ! k"
  proof (rule bit_word_eqI)
    fix n assume "n < LENGTH(8)"
    then have n: "n < 8" by simp
    let ?p = "8 * k + (7 - n)"
    have "?p mod 8 = 7 - n" using n by (subst mod_mult_self4) auto
    then have p: "?p < 128" "?p div 8 = k" "7 - ?p mod 8 = n" using k n by auto
    show "bit (id_bytes ms e ! k) n = bit (id_bytes ms' e' ! k) n"
      using newIDAt_bits [OF assms(1) p(1)] byte_bit_iff [OF p(1) assms(2)] byte_bit_iff [OF p(1) assms(3)]
      unfolding p(2,3) by (simp only:)
  qed
qed

section \<open>Sessions\<close>

record limits =
  lm_MaxMessageBytes :: int
  lm_MaxEventsPerMinute :: int
  lm_AckTimeoutSeconds :: int

definition DefaultLimits :: limits where
  "DefaultLimits = \<lparr>lm_MaxMessageBytes = 65536, lm_MaxEventsPerMinute = 60, lm_AckTimeoutSeconds = 5\<rparr>"

record welcome_frame =
  wc_Protocol :: int
  wc_AcceptedCapabilities :: "string list"
  wc_Limits :: limits

record session =
  ss_secure :: bool
  ss_accepted :: "string set"
  ss_limits :: limits

definition newSession :: "string \<Rightarrow> welcome_frame \<Rightarrow> session" where
  "newSession url w =
     \<lparr>ss_secure = HasPrefix url ''wss://'', ss_accepted = set (wc_AcceptedCapabilities w),
      ss_limits = (if lm_MaxMessageBytes (wc_Limits w) \<le> 0 then DefaultLimits else wc_Limits w)\<rparr>"

definition Secure :: "session \<Rightarrow> bool" where "Secure s = ss_secure s"

definition Accepted :: "session \<Rightarrow> string \<Rightarrow> bool" where
  "Accepted s name \<longleftrightarrow> name \<in> ss_accepted s"

datatype write_result = Written | ErrTooLarge | WriteFailed

text \<open>\<^verbatim>\<open>write\<close> of a marshalled frame; \<open>ok\<close> says whether the connection took it.\<close>

definition session_write :: "session \<Rightarrow> string \<Rightarrow> bool \<Rightarrow> write_result" where
  "session_write s frame ok =
     (if int (length frame) > lm_MaxMessageBytes (ss_limits s) then ErrTooLarge
      else if ok then Written else WriteFailed)"

section \<open>Properties\<close>

text \<open>
  The reconnection schedule grows to its cap and no further. From a fresh schedule
  with a cap that can be doubled, the \<open>n\<close>-th consecutive attempt has the ceiling
  \<open>base * 2^(n-1)\<close>, or the cap when that is less; the delay handed out lies between
  zero and the ceiling; and a connection that stayed up for the stability window sends
  the schedule back to its base, while a shorter one leaves it alone.
\<close>

theorem Backoff_schedule:
  assumes "random_below rnd" "sane b"
  shows "(bo_cur b \<le> 0 \<longrightarrow>
       bo_cur (attempts (Suc n) b) = min (bo_max b) (2 ^ n * min (bo_max b) (bo_base b))) \<and>
    0 \<le> fst (Next rnd b) \<and> fst (Next rnd b) \<le> bo_cur (snd (Next rnd b)) \<and>
    bo_cur (snd (Next rnd b)) \<le> bo_max b \<and>
    (d \<ge> stableFor b \<longrightarrow> bo_cur (snd (Next rnd (Settle d b))) = min (bo_max b) (bo_base b)) \<and>
    (d < stableFor b \<longrightarrow> Settle d b = b)"
proof -
  let ?b = "snd (Next (\<lambda>_. 0) b)"
  have first: "bo_cur (attempts (Suc n) b) = min (bo_max b) (2 ^ n * min (bo_max b) (bo_base b))" if "bo_cur b \<le> 0"
  proof -
    have c: "bo_cur ?b = min (bo_max b) (bo_base b)" using Next_cur [OF assms(2)] that by simp
    then have "bo_cur ?b > 0" using bo_pos [of b] by simp
    from attempts_cur [OF sane_Next [OF assms(2)] this, of n] show ?thesis by (simp add: c)
  qed
  have pos: "bo_cur (snd (Next rnd b)) > 0"
    using Next_cur [OF assms(2), of rnd] bo_pos [of b] by simp
  have "fst (Next rnd b) = rnd (bo_cur (snd (Next rnd b)) + 1)"
    using pos by (simp add: Next_def Let_def jitter_def)
  then have j: "0 \<le> fst (Next rnd b)" "fst (Next rnd b) \<le> bo_cur (snd (Next rnd b))"
    using assms(1) pos unfolding random_below_def by (smt (verit))+
  have "bo_max (Reset b) = bo_max b" "bo_base (Reset b) = bo_base b" "sane (Reset b)" "bo_cur (Reset b) = 0"
    using assms(2) bo_pos(2) [of b] by (simp_all add: Reset_def bo_max_def bo_base_def sane_def split: if_splits)
  then have settle: "bo_cur (snd (Next rnd (Settle d b))) = min (bo_max b) (bo_base b)" if "d \<ge> stableFor b"
    using Next_cur [of "Reset b" rnd] that by (simp add: Settle_def)
  show ?thesis
    using first j settle Next_cur [OF assms(2), of rnd] by (auto simp: Settle_def)
qed

text \<open>
  A message id is 26 characters of the ULID alphabet, and ids are as unique as their
  inputs: two ids are equal only when the 48 bits of their times and their ten bytes of
  entropy are.
\<close>

theorem newIDAt_injective:
  assumes "length e \<ge> 10" "length e' \<ge> 10"
  shows "length (newIDAt ms (Some e)) = 26 \<and> set (newIDAt ms (Some e)) \<subseteq> set crockford \<and>
    (newIDAt ms (Some e) = newIDAt ms' (Some e') \<longrightarrow>
       take 10 e = take 10 e' \<and> take_bit 48 ms = take_bit 48 ms')"
proof -
  have chars: "set (newIDAt ms (Some e)) \<subseteq> set crockford"
    using id_digit_less crockford_distinct(2) unfolding newIDAt_def by (auto intro!: nth_mem)
  have "take 10 e = take 10 e' \<and> take_bit 48 ms = take_bit 48 ms'"
    if eq: "newIDAt ms (Some e) = newIDAt ms' (Some e')"
  proof -
    have b: "id_bytes ms (Some e) = id_bytes ms' (Some e')"
      by (rule newIDAt_bytes [OF eq]) (use assms in \<open>auto intro: id_bytes_length\<close>)
    then have ent: "take 10 e = take 10 e'" by (simp add: id_bytes_def)
    have byte: "(ucast (drop_bit (40 - 8 * i) ms) :: 8 word) = ucast (drop_bit (40 - 8 * i) ms')" if "i < 6" for i
      using b that by (simp add: id_bytes_def)
    have "take_bit 48 ms = take_bit 48 ms'"
    proof (rule bit_word_eqI)
      fix n assume "n < LENGTH(64)"
      show "bit (take_bit 48 ms) n = bit (take_bit 48 ms') n"
      proof (cases "n < 48")
        case True
        define i where "i = 5 - n div 8"
        have "n div 8 \<le> 5" using True by auto
        then have i: "i < 6" "40 - 8 * i + n mod 8 = n" by (auto simp: i_def diff_mult_distrib2)
        have "bit (ucast (drop_bit (40 - 8 * i) ms) :: 8 word) (n mod 8) = bit (ucast (drop_bit (40 - 8 * i) ms') :: 8 word) (n mod 8)"
          using byte [OF i(1)] by simp
        then show ?thesis using True i(2) by (simp add: bit_simps)
      qed (simp add: bit_take_bit_iff)
    qed
    with ent show ?thesis by simp
  qed
  then show ?thesis using chars by (simp add: newIDAt_def)
qed

theorem Backoff_schedule_witness:
  "bo_cur (attempts 3 \<lparr>bo_Base = 0, bo_Max = 0, bo_StableFor = 0, bo_cur = 0\<rparr>) = 20 * Second"
  using Backoff_schedule [of "\<lambda>_. 0" "\<lparr>bo_Base = 0, bo_Max = 0, bo_StableFor = 0, bo_cur = 0\<rparr>" 2 0]
  by (simp add: random_below_def sane_def bo_max_def bo_base_def DefaultBackoffMax_def DefaultBackoffBase_def
      Minute_def Second_def)

theorem newIDAt_injective_witness:
  "newIDAt 1 (Some (replicate 10 7)) \<noteq> newIDAt 2 (Some (replicate 10 7))"
  using newIDAt_injective [of "replicate 10 7" "replicate 10 7" 1 2] by auto

end
