(* ===== verification/SelfUpdate.thy ===== *)
theory SelfUpdate
  imports Manifest StateStore
begin

text \<open>
  \<^verbatim>\<open>internal/selfupdate/selfupdate.go\<close>: when the updater replaces itself. \<open>Reconcile\<close>
  settles the record a previous launch left, \<open>Decide\<close> applies the rules to the offered
  release. \<open>self_cycle\<close> is what the poll loop makes of the two on one cycle, and the
  theorems bound what a bad release can do to a machine over any number of cycles.
\<close>

definition MaxAttempts :: int where "MaxAttempts = 3"
definition Cooldown :: duration where "Cooldown = 10 * Minute"

datatype outcome = OutcomeNone | OutcomeLanded | OutcomeMissed

definition Reconcile :: "golib \<Rightarrow> string \<Rightarrow> self_update option \<Rightarrow> manifest_error + outcome" where
  "Reconcile L running rec =
     (case rec of
        None \<Rightarrow> Inr OutcomeNone
      | Some r \<Rightarrow>
          if su_Version r = [] then Inr OutcomeNone
          else case Less L running (su_Version r) of
            Inl e \<Rightarrow> Inl e
          | Inr behind \<Rightarrow> Inr (if behind then OutcomeMissed else OutcomeLanded))"

datatype reason =
    NoReleasePublished
  | AlreadyRunning string string
  | NewRelease
  | Abandoned string int
  | GivingUp string int
  | InCooldown string duration
  | Retrying string int

record decision =
  de_Install :: bool
  de_Attempt :: int
  de_GiveUp :: bool
  de_Reason :: reason

definition no_install :: "reason \<Rightarrow> decision" where
  "no_install why = \<lparr>de_Install = False, de_Attempt = 0, de_GiveUp = False, de_Reason = why\<rparr>"

definition Decide ::
  "golib \<Rightarrow> string \<Rightarrow> updater_manifest option \<Rightarrow> self_update option \<Rightarrow> time \<Rightarrow> manifest_error + decision" where
  "Decide L running m rec now =
     (if \<not> Offered m then Inr (no_install NoReleasePublished)
      else let v = um_Version (the m) in
      case Less L running v of
        Inl e \<Rightarrow> Inl e
      | Inr newer \<Rightarrow>
          if \<not> newer then Inr (no_install (AlreadyRunning running v))
          else case rec of
            None \<Rightarrow> Inr \<lparr>de_Install = True, de_Attempt = 1, de_GiveUp = False, de_Reason = NewRelease\<rparr>
          | Some r \<Rightarrow>
              if su_Version r \<noteq> v
              then Inr \<lparr>de_Install = True, de_Attempt = 1, de_GiveUp = False, de_Reason = NewRelease\<rparr>
              else if su_GaveUp r then Inr (no_install (Abandoned v (su_Attempts r)))
              else if su_Attempts r \<ge> MaxAttempts
              then Inr \<lparr>de_Install = False, de_Attempt = 0, de_GiveUp = True, de_Reason = GivingUp v (su_Attempts r)\<rparr>
              else if time_sub now (su_LaunchedAt r) < Cooldown
              then Inr (no_install (InCooldown v (time_sub now (su_LaunchedAt r))))
              else Inr \<lparr>de_Install = True, de_Attempt = su_Attempts r + 1, de_GiveUp = False,
                        de_Reason = Retrying v (su_Attempts r + 1)\<rparr>)"

section \<open>One cycle\<close>

text \<open>
  \<^verbatim>\<open>reconcileSelfUpdate\<close>: the record kept for \<open>Decide\<close>, and what the store holds afterwards.
  An unreadable store counts as no record. The record is cleared when the release landed
  or its version does not parse; \<open>clear_ok\<close> says whether that write succeeds.
\<close>

definition reconcileSelfUpdate ::
  "golib \<Rightarrow> string \<Rightarrow> bool \<Rightarrow> bool \<Rightarrow> self_update option \<Rightarrow> self_update option \<times> self_update option" where
  "reconcileSelfUpdate L running load_ok clear_ok rec =
     (let cleared = (if clear_ok then None else rec) in
      if \<not> load_ok then (None, rec)
      else case rec of
        None \<Rightarrow> (None, None)
      | Some r \<Rightarrow>
          (case Reconcile L running (Some r) of
             Inl _ \<Rightarrow> (None, cleared)
           | Inr OutcomeLanded \<Rightarrow> (None, cleared)
           | Inr _ \<Rightarrow> (Some r, Some r)))"

text \<open>
  What one cycle meets: the running version, the manifest, the clock when the decision
  is taken and when the launch is recorded, the path the setup was downloaded to, and
  which of its steps succeed (\<open>ci_prepared\<close>: download, signature check, install gate;
  \<open>ci_load_ok\<close>, \<open>ci_clear_ok\<close>, \<open>ci_store_ok\<close>: reading and writing the state file;
  \<open>ci_launch_ok\<close>: starting the setup).
\<close>

record cycle_input =
  ci_running :: string
  ci_manifest :: "updater_manifest option"
  ci_now :: time
  ci_launched :: time
  ci_setup :: string
  ci_prepared :: bool
  ci_load_ok :: bool
  ci_clear_ok :: bool
  ci_store_ok :: bool
  ci_launch_ok :: bool

text \<open>
  One cycle of \<^verbatim>\<open>selfUpdate\<close>, as far as the attempt record is concerned: the record in
  the store afterwards, and whether a setup was launched. The attempt is recorded
  before the launch and a failed launch does not take it back; when it cannot be
  recorded nothing is launched. The handler itself, with every effect, is shown to
  refine this.
\<close>

definition self_cycle :: "golib \<Rightarrow> cycle_input \<Rightarrow> self_update option \<Rightarrow> self_update option \<times> bool" where
  "self_cycle L ci rec0 =
     (let (rec, stored) = reconcileSelfUpdate L (ci_running ci) (ci_load_ok ci) (ci_clear_ok ci) rec0 in
      case Decide L (ci_running ci) (ci_manifest ci) rec (ci_now ci) of
        Inl _ \<Rightarrow> (stored, False)
      | Inr d \<Rightarrow>
          if de_GiveUp d then
            (if ci_store_ok ci \<and> rec \<noteq> None then map_option (\<lambda>r. r\<lparr>su_GaveUp := True\<rparr>) rec else stored, False)
          else if \<not> de_Install d \<or> \<not> ci_prepared ci \<or> \<not> ci_store_ok ci then (stored, False)
          else (Some \<lparr>su_Version = um_Version (the (ci_manifest ci)), su_FromVersion = ci_running ci,
                      su_SetupPath = ci_setup ci, su_SHA256 = um_SHA256 (the (ci_manifest ci)),
                      su_Attempts = de_Attempt d, su_GaveUp = False, su_LaunchedAt = ci_launched ci\<rparr>,
                ci_launch_ok ci))"

section \<open>Lemmas\<close>

lemma Decide_Install:
  assumes "Decide L running m rec now = Inr d" "de_Install d"
  shows "Offered m \<and> Less L running (um_Version (the m)) = Inr True \<and>
    ((rec = None \<or> su_Version (the rec) \<noteq> um_Version (the m)) \<and> de_Attempt d = 1 \<or>
     (\<exists>r. rec = Some r \<and> su_Version r = um_Version (the m) \<and> \<not> su_GaveUp r \<and>
        su_Attempts r < MaxAttempts \<and> \<not> time_sub now (su_LaunchedAt r) < Cooldown \<and>
        de_Attempt d = su_Attempts r + 1))"
  using assms by (auto simp: Decide_def Let_def no_install_def split: if_splits sum.splits option.splits)

text \<open>
  What is left of the budget of version \<open>v\<close>: the number of launches the record still
  allows.
\<close>

definition budget :: "string \<Rightarrow> self_update option \<Rightarrow> nat" where
  "budget v rec =
     (case rec of
        None \<Rightarrow> 3
      | Some r \<Rightarrow> if su_Version r \<noteq> v then 3 else if su_GaveUp r then 0 else nat (MaxAttempts - su_Attempts r))"

text \<open>The manifest, when one could be fetched, names version \<open>v\<close>.\<close>

definition offers :: "string \<Rightarrow> cycle_input \<Rightarrow> bool" where
  "offers v ci \<longleftrightarrow> (\<forall>m. ci_manifest ci = Some m \<longrightarrow> um_Version m = v)"

text \<open>
  A release that has not landed: every cycle runs a binary older than \<open>v\<close>, both
  versions readable.
\<close>

definition not_landed :: "golib \<Rightarrow> string \<Rightarrow> cycle_input \<Rightarrow> bool" where
  "not_landed L v ci \<longleftrightarrow> Less L (ci_running ci) v = Inr True"

lemma reconcile_budget:
  assumes "not_landed L v ci" "reconcileSelfUpdate L (ci_running ci) True ok rec0 = (rec, stored)"
  shows "budget v rec = budget v rec0" and "budget v stored = budget v rec0"
  using assms
  by (auto simp: reconcileSelfUpdate_def Reconcile_def budget_def not_landed_def Let_def
      split: option.splits sum.splits if_splits)

lemma self_cycle_budget:
  assumes v: "v \<noteq> []" "offers v ci" "not_landed L v ci" "ci_load_ok ci" and step: "self_cycle L ci rec0 = (rec', launched)"
  shows "budget v rec' + (if launched then 1 else 0) \<le> budget v rec0"
proof -
  obtain rec stored where r: "reconcileSelfUpdate L (ci_running ci) True (ci_clear_ok ci) rec0 = (rec, stored)"
    by (cases "reconcileSelfUpdate L (ci_running ci) True (ci_clear_ok ci) rec0")
  note b = reconcile_budget [OF v(3) r]
  have m: "um_Version m = v" if "ci_manifest ci = Some m" for m using v(2) that by (auto simp: offers_def)
  show ?thesis
  proof (cases "Decide L (ci_running ci) (ci_manifest ci) rec (ci_now ci)")
    case (Inl e)
    then show ?thesis using step b r by (simp add: self_cycle_def Let_def v(4))
  next
    case (Inr d)
    consider (giveup) "de_GiveUp d"
      | (idle) "\<not> de_GiveUp d" "\<not> de_Install d \<or> \<not> ci_prepared ci \<or> \<not> ci_store_ok ci"
      | (go) "\<not> de_GiveUp d" "de_Install d" "ci_prepared ci" "ci_store_ok ci" by blast
    then show ?thesis
    proof cases
      case giveup
      then have "rec' = map_option (\<lambda>r. r\<lparr>su_GaveUp := True\<rparr>) rec \<or> rec' = stored" "\<not> launched"
        using step Inr r by (auto simp: self_cycle_def Let_def v(4))
      moreover have "budget v (map_option (\<lambda>r. r\<lparr>su_GaveUp := True\<rparr>) rec) \<le> budget v rec"
        by (cases rec) (auto simp: budget_def)
      ultimately show ?thesis using b by auto
    next
      case idle
      then show ?thesis using step Inr b r by (auto simp: self_cycle_def Let_def v(4))
    next
      case go
      obtain m1 where m1: "ci_manifest ci = Some m1"
        using Decide_Install [OF Inr go(2)] by (auto simp: Offered_def split: option.splits)
      then have "um_Version m1 = v" by (rule m)
      then have a: "rec' \<noteq> None" "su_Version (the rec') = v" "\<not> su_GaveUp (the rec')"
        "su_Attempts (the rec') = de_Attempt d"
        using step Inr m1 r go by (auto simp: self_cycle_def Let_def v(4))
      then have "budget v rec' = nat (MaxAttempts - de_Attempt d)" by (auto simp: budget_def)
      moreover have "nat (MaxAttempts - de_Attempt d) + 1 \<le> budget v rec"
        using Decide_Install [OF Inr go(2)] m1 \<open>um_Version m1 = v\<close> by (auto simp: budget_def MaxAttempts_def split: option.splits)
      ultimately show ?thesis using b by simp
    qed
  qed
qed

lemma budget_le: "\<forall>r. rec = Some r \<longrightarrow> 0 \<le> su_Attempts r \<Longrightarrow> int (budget v rec) \<le> MaxAttempts"
  by (auto simp: budget_def MaxAttempts_def split: option.splits)

section \<open>Properties\<close>

text \<open>
  The updater never downgrades itself and never hurries a setup. A decision to
  install is only taken for a published release strictly newer than the running
  binary; a second launch of the same release waits until the cooldown has passed
  since the first, is never made for a release that was abandoned, and is counted as
  one more attempt, of at most three.
\<close>

theorem Decide_safe:
  assumes "version_order L" "Decide L running m rec now = Inr d" "de_Install d"
    and "\<forall>r. rec = Some r \<longrightarrow> 0 \<le> su_Attempts r"
  shows "Offered m \<and> Less L running (um_Version (the m)) = Inr True \<and>
    Less L (um_Version (the m)) running = Inr False \<and> 1 \<le> de_Attempt d \<and> de_Attempt d \<le> MaxAttempts \<and>
    (\<forall>r. rec = Some r \<and> su_Version r = um_Version (the m) \<longrightarrow>
       \<not> su_GaveUp r \<and> now - su_LaunchedAt r \<ge> Cooldown \<and> de_Attempt d = su_Attempts r + 1)"
proof -
  have cool: "now - t \<ge> Cooldown" if "\<not> time_sub now t < Cooldown" for t
    using that by (auto simp: time_sub_def Cooldown_def Minute_def min_int64_def max_int64_def)
  show ?thesis
    using Decide_Install [OF assms(2,3)] Less_asym [OF assms(1)] assms(4) cool
    by (auto simp: MaxAttempts_def)
qed

text \<open>
  Reconciling tells the two outcomes apart: a record is settled exactly when the
  running binary is at least the version that was launched, and a release that has
  landed is not launched again, whatever the manifest offers at that version.
\<close>

theorem landed_not_relaunched:
  assumes "su_Version r = v" "v \<noteq> []" "Less L running v = Inr False"
    and "ci_running ci = running" "offers v ci" "ci_load_ok ci"
  shows "Reconcile L running (Some r) = Inr OutcomeLanded \<and>
    self_cycle L ci (Some r) = (if ci_clear_ok ci then None else Some r, False)"
  using assms
  by (cases "ci_manifest ci")
    (auto simp: Reconcile_def self_cycle_def reconcileSelfUpdate_def Decide_def offers_def Offered_def
      no_install_def Let_def)

section \<open>A concrete history\<close>

definition demo_versions :: golib where
  "demo_versions = \<lparr>NewVersion_ok = (\<lambda>v. v \<noteq> []), LessThan = (\<lambda>a b. length a < length b),
     ParseJSON = (\<lambda>_. None), ParseRFC3339 = (\<lambda>_. None), ParseURL = (\<lambda>_. None),
     ParseCIDR = (\<lambda>_. None), ParseIP = (\<lambda>_. None)\<rparr>"

definition demo_release :: updater_manifest where
  "demo_release = zero_updater_manifest\<lparr>um_Version := ''1.10'', um_Download := ''https://x'', um_SHA256 := ''ab''\<rparr>"

definition demo_cycle :: "time \<Rightarrow> cycle_input" where
  "demo_cycle t = \<lparr>ci_running = ''1.9'', ci_manifest = Some demo_release, ci_now = t, ci_launched = t, ci_setup = ''s.exe'',
     ci_prepared = True, ci_load_ok = True, ci_clear_ok = True, ci_store_ok = True, ci_launch_ok = True\<rparr>"

definition demo_record :: self_update where
  "demo_record = \<lparr>su_Version = ''1.10'', su_FromVersion = ''1.9'', su_SetupPath = [], su_SHA256 = ''ab'',
     su_Attempts = 2, su_GaveUp = False, su_LaunchedAt = 0\<rparr>"

theorem Decide_safe_witness:
  "\<exists>d. Decide demo_versions ''1.9'' (Some demo_release) (Some demo_record) 700000000000 = Inr d \<and>
     de_Install d \<and> de_Attempt d = 3 \<and> de_Attempt d \<le> MaxAttempts"
proof -
  have v: "version_order demo_versions" by (auto simp: version_order_def demo_versions_def)
  let ?d = "\<lparr>de_Install = True, de_Attempt = 3, de_GiveUp = False, de_Reason = Retrying ''1.10'' 3\<rparr>"
  have d: "Decide demo_versions ''1.9'' (Some demo_release) (Some demo_record) 700000000000 = Inr ?d"
    by (simp add: Decide_def Offered_def demo_release_def demo_record_def Less_def demo_versions_def Let_def
        MaxAttempts_def time_sub_def Cooldown_def Minute_def min_int64_def max_int64_def)
  have "\<forall>r. Some demo_record = Some r \<longrightarrow> 0 \<le> su_Attempts r" by (simp add: demo_record_def)
  from Decide_safe [OF v d _ this] d show ?thesis by auto
qed

theorem landed_not_relaunched_witness:
  "self_cycle demo_versions ((demo_cycle 5)\<lparr>ci_running := ''1.10''\<rparr>) (Some demo_record) = (None, False)"
  using landed_not_relaunched [of demo_record "''1.10''" demo_versions "''1.10''" "(demo_cycle 5)\<lparr>ci_running := ''1.10''\<rparr>"]
  by (simp add: demo_record_def offers_def demo_cycle_def demo_release_def Less_def demo_versions_def)

end
