(* ===== verification/EventChannel.thy ===== *)
theory EventChannel
  imports Wire Protocol SelfUpdate Systems
begin

text \<open>
  \<^verbatim>\<open>internal/service/clientevents.go\<close> and \<^verbatim>\<open>clientupdates.go\<close>: the events the service
  sends over the client channel. The buffer that holds them while no session is up, the
  generations that keep a dead connection's burst from publishing its session, the
  burst that follows a welcome, and the rules that keep the update events from being
  repeated.
\<close>

section \<open>Names\<close>

definition EvtMachineInfo :: string where "EvtMachineInfo = ''machine.info''"
definition EvtSessionChanged :: string where "EvtSessionChanged = ''session.changed''"
definition EvtUpdateAvailable :: string where "EvtUpdateAvailable = ''update.available''"
definition EvtUpdateStarted :: string where "EvtUpdateStarted = ''update.started''"
definition EvtUpdateApplied :: string where "EvtUpdateApplied = ''update.applied''"
definition EvtUpdateFailed :: string where "EvtUpdateFailed = ''update.failed''"
definition EvtServiceStarted :: string where "EvtServiceStarted = ''service.started''"
definition TopicReleasePublished :: string where "TopicReleasePublished = ''release.published''"
definition TopicConfigPublished :: string where "TopicConfigPublished = ''config.published''"

definition EventNames :: "string list" where
  "EventNames = [EvtMachineInfo, EvtSessionChanged, EvtUpdateAvailable, EvtUpdateStarted, EvtUpdateApplied,
     EvtUpdateFailed, EvtServiceStarted]"

definition TopicNames :: "string list" where
  "TopicNames = [TopicReleasePublished, TopicConfigPublished]"

lemmas event_defs = EvtMachineInfo_def EvtSessionChanged_def EvtUpdateAvailable_def EvtUpdateStarted_def
  EvtUpdateApplied_def EvtUpdateFailed_def EvtServiceStarted_def TopicReleasePublished_def TopicConfigPublished_def

text \<open>The loop of \<^verbatim>\<open>capabilities\<close>: the names seen so far and the list built so far.\<close>

fun dedupe :: "string list \<Rightarrow> string set \<Rightarrow> string list" where
  "dedupe [] seen = []"
| "dedupe (c # cs) seen = (if c \<in> seen then dedupe cs seen else c # dedupe cs (insert c seen))"

definition capabilities :: "string list" where
  "capabilities = dedupe (CommandNames @ EventNames @ TopicNames) {}"

lemma dedupe_set: "set (dedupe cs seen) = set cs - seen"
  by (induction cs seen rule: dedupe.induct) auto

lemma dedupe_distinct: "distinct (dedupe cs seen)"
  by (induction cs seen rule: dedupe.induct) (auto simp: dedupe_set)

section \<open>The buffer\<close>

definition eventBufferSize :: nat where "eventBufferSize = 32"

definition bootWindow :: duration where "bootWindow = 10 * Minute"

type_synonym 'p event = "string \<times> 'p"

text \<open>
  What the goroutines share: the buffer, the generation of the connection attempts, and
  the published session with the generation of the connection it belongs to.
\<close>

record 'p channel =
  ch_buf :: "'p event list"
  ch_gen :: nat
  ch_session :: "(nat \<times> session) option"

definition push_event :: "'p event \<Rightarrow> 'p event list \<Rightarrow> 'p event list" where
  "push_event ev buf =
     (let buf = buf @ [ev] in if length buf > eventBufferSize then last_n eventBufferSize buf else buf)"

datatype emitted = DroppedEvent | SentEvent | BufferedEvent

text \<open>\<open>emit r ev c\<close>: \<open>r\<close> is what the write on the session answers, when there is one.\<close>

definition emit :: "write_result \<Rightarrow> 'p event \<Rightarrow> 'p channel \<Rightarrow> 'p channel \<times> emitted" where
  "emit r ev c =
     (let buffered = (c\<lparr>ch_buf := push_event ev (ch_buf c)\<rparr>, BufferedEvent) in
      case ch_session c of
        None \<Rightarrow> if fst ev = EvtSessionChanged then (c, DroppedEvent) else buffered
      | Some (_, s) \<Rightarrow>
          if \<not> Accepted s (fst ev) then (c, DroppedEvent)
          else (case r of Written \<Rightarrow> (c, SentEvent) | ErrTooLarge \<Rightarrow> (c, DroppedEvent) | WriteFailed \<Rightarrow> buffered))"

text \<open>
  The loop of \<^verbatim>\<open>flushEvents\<close> over the events it took: those handed over, and those put
  back. \<open>rs\<close> are the answers of the connection, one per call of \<open>send\<close>; a connection that
  gives no more answers is gone.
\<close>

fun flush_loop ::
  "(string \<Rightarrow> write_result \<Rightarrow> write_result) \<Rightarrow> write_result list \<Rightarrow> 'p event list \<Rightarrow> 'p event list \<times> 'p event list" where
  "flush_loop send rs [] = ([], [])"
| "flush_loop send [] (ev # evs) = ([], ev # evs)"
| "flush_loop send (r # rs) (ev # evs) =
     (case send (fst ev) r of
        Written \<Rightarrow> (let (sent, rest) = flush_loop send rs evs in (ev # sent, rest))
      | ErrTooLarge \<Rightarrow> flush_loop send rs evs
      | WriteFailed \<Rightarrow> ([], ev # evs))"

text \<open>
  \<^verbatim>\<open>flushEvents\<close>, during which other goroutines may have buffered the events \<open>during\<close>.
  The lock is held when the buffer is taken and when the rest is put back, not between.
\<close>

definition flushEvents ::
  "(string \<Rightarrow> write_result \<Rightarrow> write_result) \<Rightarrow> write_result list \<Rightarrow> 'p event list \<Rightarrow> 'p event list \<Rightarrow>
   'p event list \<times> 'p event list" where
  "flushEvents send rs during buf =
     (let (sent, rest) = flush_loop send rs buf; meanwhile = fold push_event during []
      in (sent, if rest = [] then meanwhile else rest @ meanwhile))"

section \<open>Generations\<close>

definition nextWSGeneration :: "'p channel \<Rightarrow> nat \<times> 'p channel" where
  "nextWSGeneration c = (Suc (ch_gen c), c\<lparr>ch_gen := Suc (ch_gen c)\<rparr>)"

definition storeWSSession :: "nat \<Rightarrow> session \<Rightarrow> 'p channel \<Rightarrow> 'p channel" where
  "storeWSSession gen s c = (if ch_gen c = gen then c\<lparr>ch_session := Some (gen, s)\<rparr> else c)"

definition clearWSSession :: "nat \<Rightarrow> 'p channel \<Rightarrow> 'p channel" where
  "clearWSSession gen c =
     (let c = (if ch_gen c = gen then c\<lparr>ch_gen := Suc (ch_gen c)\<rparr> else c) in c\<lparr>ch_session := None\<rparr>)"

text \<open>
  The supervisor makes one connection at a time: \<open>active\<close> is the generation of the one
  that is up, if any. The bursts of all connections ever made may still be running, so
  any generation handed out so far may store its session at any moment.
\<close>

datatype ws_action = AStart | AStore nat session | AStop

inductive ws_step ::
  "'p channel \<times> nat option \<times> nat set \<Rightarrow> ws_action \<Rightarrow> 'p channel \<times> nat option \<times> nat set \<Rightarrow> bool" where
  ws_start: "nextWSGeneration c = (g, c') \<Longrightarrow> ws_step (c, None, gs) AStart (c', Some g, insert g gs)"
| ws_store: "g \<in> gs \<Longrightarrow> ws_step (c, a, gs) (AStore g s) (storeWSSession g s c, a, gs)"
| ws_stop: "ws_step (c, Some g, gs) AStop (clearWSSession g c, None, gs)"

inductive_cases ws_stepE: "ws_step (c, a, gs) act (c', a', gs')"

interpretation ws: transition_system "\<lambda>(c, a, gs). ch_gen c = 0 \<and> ch_session c = None \<and> a = None \<and> gs = {}" ws_step .

definition ws_inv :: "'p channel \<times> nat option \<times> nat set \<Rightarrow> bool" where
  "ws_inv = (\<lambda>(c, a, gs). (\<forall>g s. ch_session c = Some (g, s) \<longrightarrow> a = Some g) \<and>
     (\<forall>g \<in> gs. g \<le> ch_gen c) \<and> (\<forall>g. a = Some g \<longrightarrow> ch_gen c = g) \<and> (a = None \<longrightarrow> ch_gen c \<notin> gs))"

lemma ws_inv_step [inv_intros]: "ws_inv s \<Longrightarrow> ws_step s act s' \<Longrightarrow> ws_inv s'"
  by (auto simp: ws_inv_def nextWSGeneration_def storeWSSession_def clearWSSession_def Let_def
      elim!: ws_step.cases split: if_splits)

section \<open>The start of the service\<close>

record service_started =
  sd_Reason :: string
  sd_BootTime :: "time option"
  sd_StartedAt :: time
  sd_UpdaterVersion :: string
  sd_PreviousVersion :: string
  sd_CompletedCommands :: "string list"

definition serviceStartedReason ::
  "pending_command list \<Rightarrow> self_update option \<Rightarrow> time \<Rightarrow> time \<Rightarrow> string" where
  "serviceStartedReason cmds landed boot started =
     (if list_ex (\<lambda>c. pc_Name c = CmdMachineReboot) cmds then ''boot''
      else if list_ex (\<lambda>c. pc_Name c = CmdServiceRestart) cmds then ''command''
      else if landed \<noteq> None then ''self_update''
      else if \<not> is_zero_time boot \<and> time_sub started boot < bootWindow then ''boot''
      else ''unknown'')"

definition buildServiceStarted ::
  "string \<Rightarrow> pending_command list \<Rightarrow> self_update option \<Rightarrow> time \<Rightarrow> time \<Rightarrow> service_started" where
  "buildServiceStarted version cmds landed boot startedAt =
     \<lparr>sd_Reason = serviceStartedReason cmds landed boot startedAt,
      sd_BootTime = (if is_zero_time boot then None else Some boot),
      sd_StartedAt = startedAt, sd_UpdaterVersion = version,
      sd_PreviousVersion = (case landed of Some l \<Rightarrow> if su_FromVersion l \<noteq> version then su_FromVersion l else [] | None \<Rightarrow> []),
      sd_CompletedCommands = map pc_ID cmds\<rparr>"

text \<open>
  The part of the process that reports the start: whether \<^verbatim>\<open>service.started\<close> was sent, the
  payload built by the \<^verbatim>\<open>sync.Once\<close>, and the commands the state file still holds.
  \<open>load_ok\<close> and \<open>save_ok\<close> say whether the state file could be read and written; what was
  read is reported also when the write then fails.
\<close>

record starter =
  st_sent :: bool
  st_payload :: "service_started option"
  st_commands :: "pending_command list"

definition cachedServiceStarted ::
  "string \<Rightarrow> self_update option \<Rightarrow> time \<Rightarrow> time \<Rightarrow> bool \<Rightarrow> bool \<Rightarrow> starter \<Rightarrow> service_started \<times> starter" where
  "cachedServiceStarted version landed boot startedAt load_ok save_ok st =
     (case st_payload st of
        Some p \<Rightarrow> (p, st)
      | None \<Rightarrow>
          (let cmds = (if load_ok then st_commands st else []);
               p = buildServiceStarted version cmds landed boot startedAt
           in (p, st\<lparr>st_payload := Some p, st_commands := (if load_ok \<and> save_ok then [] else st_commands st)\<rparr>)))"

datatype 'p wire_event = Started service_started | Other "'p event"

text \<open>
  What one burst meets: the answers of its writes (the first, those of the two flushes),
  the events buffered by others during the flushes, the machine information it sends.
\<close>

record 'p burst_env =
  be_landed :: "self_update option"
  be_boot :: time
  be_load_ok :: bool
  be_save_ok :: bool
  be_first :: write_result
  be_flush1 :: "write_result list"
  be_during1 :: "'p event list"
  be_between :: "'p event list"
  be_flush2 :: "write_result list"
  be_during2 :: "'p event list"
  be_last :: write_result
  be_info :: 'p

text \<open>\<^verbatim>\<open>wsSend\<close>: an event the server did not accept counts as sent.\<close>

definition wsSend :: "session \<Rightarrow> string \<Rightarrow> write_result \<Rightarrow> write_result" where
  "wsSend s name r = (if \<not> Accepted s name then Written else r)"

definition handleWelcomeBurst ::
  "string \<Rightarrow> time \<Rightarrow> nat \<Rightarrow> session \<Rightarrow> 'p burst_env \<Rightarrow> starter \<times> 'p channel \<Rightarrow>
   (starter \<times> 'p channel) \<times> 'p wire_event list" where
  "handleWelcomeBurst version startedAt gen s e stc =
     (let (st, c) = stc;
          (st, out1) =
            (if st_sent st then (st, [])
             else let (p, st') = cachedServiceStarted version (be_landed e) (be_boot e) startedAt (be_load_ok e) (be_save_ok e) st in
                  if wsSend s EvtServiceStarted (be_first e) = Written
                  then (st'\<lparr>st_sent := True\<rparr>, if Accepted s EvtServiceStarted then [Started p] else [])
                  else (st', []));
          (sent1, buf1) = flushEvents (wsSend s) (be_flush1 e) (be_during1 e) (ch_buf c);
          c = storeWSSession gen s (c\<lparr>ch_buf := buf1\<rparr>);
          (sent2, buf2) = flushEvents (wsSend s) (be_flush2 e) (be_during2 e) (fold push_event (be_between e) (ch_buf c));
          c = c\<lparr>ch_buf := buf2\<rparr>;
          out4 = (if wsSend s EvtMachineInfo (be_last e) = Written \<and> Accepted s EvtMachineInfo
                  then [Other (EvtMachineInfo, be_info e)] else []);
          visible = filter (\<lambda>ev. Accepted s (fst ev))
      in ((st, c), out1 @ map Other (visible sent1) @ map Other (visible sent2) @ out4))"

fun is_started :: "'p wire_event \<Rightarrow> bool" where
  "is_started (Started _) = True"
| "is_started (Other _) = False"

text \<open>The bursts of a process, one connection after the other.\<close>

fun bursts ::
  "string \<Rightarrow> time \<Rightarrow> (nat \<times> session \<times> 'p burst_env) list \<Rightarrow> starter \<times> 'p channel \<Rightarrow>
   (starter \<times> 'p channel) \<times> 'p wire_event list" where
  "bursts version startedAt [] stc = (stc, [])"
| "bursts version startedAt ((g, s, e) # bs) stc =
     (let (stc1, out1) = handleWelcomeBurst version startedAt g s e stc;
          (stc2, out2) = bursts version startedAt bs stc1
      in (stc2, out1 @ out2))"

section \<open>Update events\<close>

record update_event =
  ue_Target :: string
  ue_FromVersion :: string
  ue_ToVersion :: string
  ue_Forced :: bool
  ue_Attempt :: int
  ue_Trigger :: string
  ue_DurationMS :: int
  ue_Reinstalled :: bool
  ue_WillRetry :: bool
  ue_Error :: "string option"

definition update_event_of :: "string \<Rightarrow> string \<Rightarrow> string \<Rightarrow> int \<Rightarrow> update_event" where
  "update_event_of target from to attempt =
     \<lparr>ue_Target = target, ue_FromVersion = from, ue_ToVersion = to, ue_Forced = False, ue_Attempt = attempt,
      ue_Trigger = [], ue_DurationMS = 0, ue_Reinstalled = False, ue_WillRetry = False, ue_Error = None\<rparr>"

datatype service_event =
    UpdateAvailable string string
  | UpdateStarted update_event
  | UpdateApplied update_event
  | UpdateFailed update_event

type_synonym update_failed_key = "string \<times> string \<times> int \<times> string"

text \<open>
  What the poll goroutine remembers of its announcements, and the events it emitted, in
  order.
\<close>

record announcer =
  an_announced :: "string gomap"
  an_failed :: "update_failed_key set"
  an_events :: "service_event list"

definition emit_service :: "service_event \<Rightarrow> announcer \<Rightarrow> announcer" where
  "emit_service ev a = a\<lparr>an_events := an_events a @ [ev]\<rparr>"

definition announceUpdate :: "string \<Rightarrow> string \<Rightarrow> announcer \<Rightarrow> announcer" where
  "announceUpdate target available a =
     (if (case map_of (an_announced a) target of None \<Rightarrow> [] | Some v \<Rightarrow> v) = available then a
      else emit_service (UpdateAvailable target available)
             (a\<lparr>an_announced := AList.update target available (an_announced a)\<rparr>))"

definition markUpdateFailed :: "update_failed_key \<Rightarrow> announcer \<Rightarrow> bool \<times> announcer" where
  "markUpdateFailed key a =
     (if key \<in> an_failed a then (False, a) else (True, a\<lparr>an_failed := insert key (an_failed a)\<rparr>))"

definition failed_key :: "update_event \<Rightarrow> update_failed_key" where
  "failed_key ev = (ue_Target ev, ue_ToVersion ev, ue_Attempt ev, case ue_Error ev of None \<Rightarrow> [] | Some c \<Rightarrow> c)"

definition emitUpdateFailed :: "update_event \<Rightarrow> announcer \<Rightarrow> announcer" where
  "emitUpdateFailed ev a =
     (case markUpdateFailed (failed_key ev) a of
        (first, a') \<Rightarrow> if first then emit_service (UpdateFailed ev) a' else a')"

definition installFailureCode :: "string \<Rightarrow> string" where
  "installFailureCode err =
     (if Contains err ''post-install verification failed'' then ''version_mismatch'' else ''setup_exit_code'')"

text \<open>Any history of the poll goroutine's reports.\<close>

datatype report = RAvailable string string | RFailed update_event | RMark update_failed_key
  | RStarted update_event | RApplied update_event

fun report_op :: "report \<Rightarrow> announcer \<Rightarrow> announcer" where
  "report_op (RAvailable t v) a = announceUpdate t v a"
| "report_op (RFailed ev) a = emitUpdateFailed ev a"
| "report_op (RMark k) a = snd (markUpdateFailed k a)"
| "report_op (RStarted ev) a = emit_service (UpdateStarted ev) a"
| "report_op (RApplied ev) a = emit_service (UpdateApplied ev) a"

fun failures :: "service_event list \<Rightarrow> update_event list" where
  "failures [] = []"
| "failures (UpdateFailed ev # evs) = ev # failures evs"
| "failures (_ # evs) = failures evs"

section \<open>Lemmas\<close>

lemma push_event_last: "push_event ev buf = last_n eventBufferSize (buf @ [ev])"
  by (simp add: push_event_def Let_def)

lemma last_n_last_n: "last_n n (last_n n xs @ ys) = last_n n (xs @ ys)"
  by (cases "length xs \<le> n") (simp_all add: last_n_def add.commute)

lemma fold_push_event: "length buf \<le> eventBufferSize \<Longrightarrow> fold push_event evs buf = last_n eventBufferSize (buf @ evs)"
proof (induction evs arbitrary: buf)
  case (Cons ev evs)
  have "fold push_event (ev # evs) buf = last_n eventBufferSize (push_event ev buf @ evs)"
    by (simp add: Cons.IH push_event_last)
  also have "\<dots> = last_n eventBufferSize (buf @ ev # evs)"
    by (simp add: push_event_last last_n_last_n)
  finally show ?case .
qed simp

text \<open>Each event a flush takes is sent, dropped as too large, or put back; the order is kept.\<close>

lemma flush_loop_conserves:
  "flush_loop send rs buf = (sent, rest) \<Longrightarrow>
   \<exists>done. buf = done @ rest \<and> length done \<le> length rs \<and>
     sent = map fst (filter (\<lambda>(ev, r). send (fst ev) r = Written) (zip done rs)) \<and>
     (\<forall>(ev, r) \<in> set (zip done rs). send (fst ev) r \<noteq> WriteFailed)"
proof (induction send rs buf arbitrary: sent rule: flush_loop.induct)
  case (3 send r rs ev evs)
  show ?case
  proof (cases "send (fst ev) r")
    case Written
    then obtain sent' where s: "flush_loop send rs evs = (sent', rest)" "sent = ev # sent'"
      using 3(3) by (auto split: prod.splits)
    from 3(1) [OF Written s(1)] obtain don where "evs = don @ rest" "length don \<le> length rs"
      "sent' = map fst (filter (\<lambda>(ev, r). send (fst ev) r = Written) (zip don rs))"
      "\<forall>(ev, r) \<in> set (zip don rs). send (fst ev) r \<noteq> WriteFailed" by blast
    then show ?thesis using Written s by (intro exI [of _ "ev # don"]) auto
  next
    case ErrTooLarge
    then have "flush_loop send rs evs = (sent, rest)" using 3(3) by simp
    from 3(2) [OF ErrTooLarge this] obtain don where "evs = don @ rest" "length don \<le> length rs"
      "sent = map fst (filter (\<lambda>(ev, r). send (fst ev) r = Written) (zip don rs))"
      "\<forall>(ev, r) \<in> set (zip don rs). send (fst ev) r \<noteq> WriteFailed" by blast
    then show ?thesis using ErrTooLarge by (intro exI [of _ "ev # don"]) auto
  next
    case WriteFailed
    then show ?thesis using 3(3) by (intro exI [of _ "[]"]) simp
  qed
qed auto

lemma cachedServiceStarted_payload:
  "cachedServiceStarted v l b t lo so st = (p, st') \<Longrightarrow> st_payload st' = Some p \<and> st_sent st' = st_sent st \<and>
     (st_payload st \<noteq> None \<longrightarrow> st' = st)"
  by (auto simp: cachedServiceStarted_def Let_def split: option.splits)

lemma filter_is_started_Other [simp]: "filter is_started (map Other evs) = []"
  by (induction evs) simp_all

lemma Started_unique:
  assumes "Started p \<in> set xs" "filter is_started xs = [] \<or> (\<exists>q. filter is_started xs = [Started q] \<and> P q)"
  shows "P p"
proof -
  have "Started p \<in> set (filter is_started xs)" using assms(1) by simp
  with assms(2) show ?thesis by (metis empty_iff list.set set_ConsD wire_event.inject(1))
qed

lemma burst_started:
  assumes "handleWelcomeBurst v t g s e (st, c) = ((st', c'), out)"
  shows "(filter is_started out = [] \<or> (\<exists>p. filter is_started out = [Started p] \<and> hd out = Started p \<and>
       st_payload st' = Some p \<and> st_sent st' \<and> \<not> st_sent st)) \<and>
    (\<forall>q. st_payload st = Some q \<longrightarrow> st_payload st' = Some q) \<and> (st_sent st \<longrightarrow> st_sent st')"
proof -
  obtain p st1 where c: "cachedServiceStarted v (be_landed e) (be_boot e) t (be_load_ok e) (be_save_ok e) st = (p, st1)"
    by (cases "cachedServiceStarted v (be_landed e) (be_boot e) t (be_load_ok e) (be_save_ok e) st")
  note c1 = cachedServiceStarted_payload [OF c]
  show ?thesis
    using assms c1 by (auto simp: handleWelcomeBurst_def Let_def c split: prod.splits if_splits)
qed

lemma bursts_started:
  "bursts v t bs (st, c) = ((st', c'), out) \<Longrightarrow>
   (filter is_started out = [] \<or> (\<exists>p. filter is_started out = [Started p] \<and> \<not> st_sent st)) \<and>
   (\<forall>q p. st_payload st = Some q \<and> Started p \<in> set out \<longrightarrow> p = q)"
proof (induction bs arbitrary: st c out)
  case (Cons b bs)
  obtain g s e where b: "b = (g, s, e)" by (cases b)
  obtain st1 c1 out1 where h: "handleWelcomeBurst v t g s e (st, c) = ((st1, c1), out1)"
    by (metis prod.collapse)
  obtain out2 where r: "bursts v t bs (st1, c1) = ((st', c'), out2)" "out = out1 @ out2"
    using Cons.prems h by (auto simp: b split: prod.splits)
  note b1 = burst_started [OF h] and b2 = Cons.IH [OF r(1)]
  have "p = q" if "st_payload st = Some q" "Started p \<in> set out1" for p q
    using Started_unique [OF that(2) conjunct1 [OF b1]] b1 that by auto
  moreover have "p = q" if "st_payload st = Some q" "Started p \<in> set out2" for p q
    using conjunct2 [OF b2] conjunct1 [OF conjunct2 [OF b1]] that by blast
  ultimately have same: "\<forall>q p. st_payload st = Some q \<and> Started p \<in> set out \<longrightarrow> p = q"
    unfolding r(2) by (metis Un_iff set_append)
  have "filter is_started out = [] \<or> (\<exists>p. filter is_started out = [Started p] \<and> \<not> st_sent st)"
  proof (cases "filter is_started out1 = []")
    case True
    then show ?thesis using b1 b2 r(2) by auto
  next
    case False
    then have "st_sent st1" "\<not> st_sent st" using b1 by auto
    then show ?thesis using b1 b2 r(2) by auto
  qed
  with same show ?case by simp
qed simp

lemma failed_once_step:
  assumes "distinct (map failed_key (failures (an_events a)))"
    "set (map failed_key (failures (an_events a))) \<subseteq> an_failed a"
  shows "distinct (map failed_key (failures (an_events (report_op r a)))) \<and>
    set (map failed_key (failures (an_events (report_op r a)))) \<subseteq> an_failed (report_op r a)"
proof -
  have app: "failures (xs @ ys) = failures xs @ failures ys" for xs ys
    by (induction xs rule: failures.induct) simp_all
  show ?thesis
    using assms
    by (cases r) (auto simp: announceUpdate_def emitUpdateFailed_def markUpdateFailed_def emit_service_def app
        split: if_splits)
qed

section \<open>Properties\<close>

text \<open>
  No event is lost, repeated or reordered by a flush. Of the buffered events a flush
  took, a prefix was handled: those the connection took were sent in their order and
  only those it refused as too large were dropped; the rest goes back to the front of
  the buffer, ahead of the last 32 events that arrived meanwhile. Without a session an
  event is buffered, the oldest going first when more than 32 are waiting.
\<close>

theorem flush_conserves_events:
  assumes "flushEvents send rs during buf = (sent, buf')"
  shows "(\<exists>done rest. buf = done @ rest \<and>
       sent = map fst (filter (\<lambda>(ev, r). send (fst ev) r = Written) (zip done rs)) \<and>
       (\<forall>(ev, r) \<in> set (zip done rs). send (fst ev) r \<noteq> WriteFailed) \<and>
       buf' = rest @ last_n eventBufferSize during) \<and>
    (\<forall>c ev r. ch_session c = None \<and> fst ev \<noteq> EvtSessionChanged \<longrightarrow>
       emit r ev c = (c\<lparr>ch_buf := last_n eventBufferSize (ch_buf c @ [ev])\<rparr>, BufferedEvent))"
proof -
  obtain rest where r: "flush_loop send rs buf = (sent, rest)" "buf' = rest @ fold push_event during []"
    using assms by (auto simp: flushEvents_def Let_def split: prod.splits if_splits)
  have "fold push_event during [] = last_n eventBufferSize during"
    using fold_push_event [of "[]" during] by simp
  then show ?thesis
    using flush_loop_conserves [OF r(1)] r(2) by (auto simp: emit_def Let_def push_event_last)
qed

text \<open>
  The bound on the buffer is one on what \<^verbatim>\<open>emit\<close> leaves, not on what a failed flush puts
  back: 32 buffered events and 32 that arrived during the flush make 64.
\<close>

lemma flush_exceeds_buffer_size:
  "length (snd (flushEvents (\<lambda>_ r. r) [WriteFailed] (replicate 32 ev) (replicate 32 ev))) = 2 * eventBufferSize"
proof -
  have "fold push_event (replicate 32 ev) [] = replicate 32 ev"
    using fold_push_event [of "[]" "replicate 32 ev"] by (simp add: eventBufferSize_def)
  then show ?thesis by (simp add: flushEvents_def eventBufferSize_def numeral_eq_Suc)
qed



text \<open>
  The client channel hears of each failure once. Whatever the poll goroutine reports,
  in whatever order, no two \<^verbatim>\<open>update.failed\<close> events of a process have the same target,
  version, attempt and code.
\<close>

theorem update_failed_once:
  assumes "an_events a = [] "
  shows "distinct (map failed_key (failures (an_events (fold report_op rs a))))"
proof -
  have "distinct (map failed_key (failures (an_events (fold report_op rs a)))) \<and>
      set (map failed_key (failures (an_events (fold report_op rs a)))) \<subseteq> an_failed (fold report_op rs a)"
    if "distinct (map failed_key (failures (an_events a)))"
      "set (map failed_key (failures (an_events a))) \<subseteq> an_failed a" for a
    using that by (induction rs arbitrary: a) (simp, metis failed_once_step fold_simps(2))
  from this [of a] show ?thesis using assms by simp
qed

section \<open>A concrete channel\<close>

definition demo_session :: session where
  "demo_session = newSession ''wss://h'' \<lparr>wc_Protocol = 2, wc_AcceptedCapabilities = [''service.started''], wc_Limits = DefaultLimits\<rparr>"

definition demo_channel :: "nat channel" where
  "demo_channel = \<lparr>ch_buf = [(''update.started'', 1)], ch_gen = 0, ch_session = None\<rparr>"

definition demo_starter :: starter where
  "demo_starter = \<lparr>st_sent = False, st_payload = None,
     st_commands = [\<lparr>pc_ID = ''c1'', pc_Name = CmdServiceRestart, pc_AcceptedAt = 1\<rparr>]\<rparr>"

definition demo_burst :: "write_result \<Rightarrow> nat burst_env" where
  "demo_burst r = \<lparr>be_landed = None, be_boot = 0, be_load_ok = True, be_save_ok = False, be_first = r, be_flush1 = [r], be_during1 = [],
     be_between = [], be_flush2 = [r], be_during2 = [], be_last = r, be_info = 0\<rparr>"

theorem flush_conserves_events_witness:
  "\<exists>done rest. [(''a'', 1 :: nat), (''b'', 2), (''c'', 3)] = done @ rest \<and>
     [(''a'', 1)] = map fst (filter (\<lambda>(ev, r). r = Written) (zip done [Written, ErrTooLarge, WriteFailed])) \<and>
     [(''c'', 3), (''d'', 4)] = rest @ last_n eventBufferSize [(''d'', 4)]"
proof -
  have "flushEvents (\<lambda>_ r. r) [Written, ErrTooLarge, WriteFailed] [(''d'', 4)] [(''a'', 1 :: nat), (''b'', 2), (''c'', 3)] =
      ([(''a'', 1)], [(''c'', 3), (''d'', 4)])"
    by (simp add: flushEvents_def push_event_def eventBufferSize_def)
  from flush_conserves_events [OF this] show ?thesis by auto
qed



theorem update_failed_once_witness:
  "distinct (map failed_key (failures (an_events (fold report_op
     [RFailed (update_event_of ''updater'' ''1'' ''2'' 1), RFailed (update_event_of ''updater'' ''1'' ''2'' 1)]
     \<lparr>an_announced = [], an_failed = {}, an_events = []\<rparr>))))"
  by (rule update_failed_once) simp

end
