(* ===== verification/SelfHeal.thy ===== *)
theory SelfHeal
  imports Prelude
begin

text \<open>
  What a cycle keeps healing on the machine: the file associations of EMLy in the
  registry (\<^verbatim>\<open>internal/assoc/assoc.go\<close>) and the code-signing certificate in the trust
  stores (\<^verbatim>\<open>internal/cert\<close>). Both are written only where they differ, so that repeating
  them is harmless; that is what is proved. Windows is the environment: any of its calls
  may fail.
\<close>

section \<open>File associations\<close>

text \<open>
  The string values under HKLM, by key path and value name. The registry does not
  distinguish the case of either.
\<close>

type_synonym registry = "string \<times> string \<Rightarrow> string option"

definition reg_key :: "string \<Rightarrow> string \<Rightarrow> string \<times> string" where
  "reg_key path name = (ToLower path, ToLower name)"

record reg_env =
  rg_stat :: "string \<Rightarrow> bool"
  rg_create :: "string \<Rightarrow> bool"
  rg_read :: "string \<Rightarrow> string \<Rightarrow> bool"
  rg_write :: "string \<Rightarrow> string \<Rightarrow> bool"

record mapping_entry =
  ma_Ext :: string
  ma_ProgID :: string
  ma_DisplayName :: string

text \<open>The registry afterwards, and whether a write happened; \<open>None\<close> for an error.\<close>

definition ensureValue :: "reg_env \<Rightarrow> string \<Rightarrow> string \<Rightarrow> string \<Rightarrow> registry \<Rightarrow> registry \<times> bool option" where
  "ensureValue e path name want r =
     (if \<not> rg_create e path then (r, None)
      else if rg_read e path name \<and> r (reg_key path name) = Some want then (r, Some False)
      else if \<not> rg_write e path name then (r, None)
      else (r(reg_key path name \<mapsto> want), Some True))"

text \<open>A list of values, in order: what was changed until the end or the first error.\<close>

fun ensure_values :: "reg_env \<Rightarrow> (string \<times> string \<times> string) list \<Rightarrow> bool \<Rightarrow> registry \<Rightarrow> registry \<times> bool \<times> bool" where
  "ensure_values e [] changed r = (r, changed, True)"
| "ensure_values e ((path, name, want) # vs) changed r =
     (case ensureValue e path name want r of
        (r', None) \<Rightarrow> (r', changed, False)
      | (r', Some c) \<Rightarrow> ensure_values e vs (changed \<or> c) r')"

definition classes :: "string \<Rightarrow> string" where
  "classes s = ''Software'' @ [CHR 0x5C] @ ''Classes'' @ [CHR 0x5C] @ s"

definition entry_values :: "mapping_entry \<Rightarrow> string \<Rightarrow> string \<Rightarrow> (string \<times> string \<times> string) list" where
  "entry_values m command icon =
     (let progRoot = classes (ma_ProgID m)
      in [(classes (ma_Ext m), [], ma_ProgID m),
          (progRoot, [], ma_DisplayName m),
          (progRoot @ [CHR 0x5C] @ ''DefaultIcon'', [], icon),
          (progRoot @ [CHR 0x5C] @ ''shell'' @ [CHR 0x5C] @ ''open'' @ [CHR 0x5C] @ ''command'', [], command),
          (progRoot @ [CHR 0x5C] @ ''shell'' @ [CHR 0x5C] @ ''open'', ''FriendlyAppName'', ''EMLy'')])"

definition repairOne :: "reg_env \<Rightarrow> mapping_entry \<Rightarrow> string \<Rightarrow> string \<Rightarrow> registry \<Rightarrow> registry \<times> bool \<times> bool" where
  "repairOne e m command icon r = ensure_values e (entry_values m command icon) False r"

text \<open>
  The mappings in order: the registry, whether a mapping was changed, and whether all
  succeeded. A mapping that fails half way does not count as changed.
\<close>

fun repair_loop :: "reg_env \<Rightarrow> string \<Rightarrow> string \<Rightarrow> mapping_entry list \<Rightarrow> bool \<Rightarrow> registry \<Rightarrow> registry \<times> bool \<times> bool" where
  "repair_loop e command icon [] changed r = (r, changed, True)"
| "repair_loop e command icon (m # ms) changed r =
     (case repairOne e m command icon r of
        (r', c, ok) \<Rightarrow> if \<not> ok then (r', changed, False) else repair_loop e command icon ms (changed \<or> c) r')"

definition open_command :: "string \<Rightarrow> string" where
  "open_command exePath = [CHR 0x22] @ exePath @ [CHR 0x22] @ '' '' @ [CHR 0x22] @ ''%1'' @ [CHR 0x22]"

text \<open>The registry, the result \<^verbatim>\<open>changed\<close>, success, and whether Explorer was notified.\<close>

definition Repair :: "reg_env \<Rightarrow> string \<Rightarrow> mapping_entry list \<Rightarrow> registry \<Rightarrow> registry \<times> bool \<times> bool \<times> bool" where
  "Repair e exePath mappings r =
     (if \<not> rg_stat e exePath then (r, False, False, False)
      else case repair_loop e (open_command exePath) (exePath @ '',0'') mappings False r of
        (r', changed, ok) \<Rightarrow> (r', changed, ok, ok \<and> changed))"

definition DefaultMappings :: "string \<Rightarrow> string \<Rightarrow> mapping_entry list" where
  "DefaultMappings progIDEml progIDMsg =
     [\<lparr>ma_Ext = ''.eml'', ma_ProgID = progIDEml, ma_DisplayName = ''EMLy Email Message''\<rparr>,
      \<lparr>ma_Ext = ''.msg'', ma_ProgID = progIDMsg, ma_DisplayName = ''EMLy Outlook Message''\<rparr>]"

definition ExePath :: "string \<Rightarrow> string \<Rightarrow> string" where
  "ExePath installDir exeName = installDir @ [CHR 0x5C] @ exeName"

section \<open>The trust stores\<close>

datatype location = LocalMachine | Users

record cert_target =
  ct_Location :: location
  ct_SID :: string
  ct_Name :: string

definition storeNames :: "string list" where "storeNames = [''Root'', ''TrustedPublisher'']"

definition MachineTargets :: "cert_target list" where
  "MachineTargets = map (\<lambda>n. \<lparr>ct_Location = LocalMachine, ct_SID = [], ct_Name = n\<rparr>) storeNames"

definition UserTargets :: "string \<Rightarrow> cert_target list" where
  "UserTargets sid = map (\<lambda>n. \<lparr>ct_Location = Users, ct_SID = sid, ct_Name = n\<rparr>) storeNames"

definition StoreName :: "cert_target \<Rightarrow> string" where
  "StoreName t = (if ct_Location t = Users then ct_SID t @ [CHR 0x5C] @ ct_Name t else ct_Name t)"

definition target_String :: "cert_target \<Rightarrow> string" where
  "target_String t =
     (if ct_Location t = Users
      then ''User'' @ [CHR 0x5C] @ ct_Name t @ '' ('' @ ct_SID t @ '')''
      else ''LocalMachine'' @ [CHR 0x5C] @ ct_Name t)"

text \<open>
  The certificates each store holds itself. A store of a user is a collection that also
  shows what the machine store of the same name holds.
\<close>

type_synonym 'c cert_stores = "cert_target \<Rightarrow> 'c set"

definition machine_of :: "cert_target \<Rightarrow> cert_target" where
  "machine_of t = \<lparr>ct_Location = LocalMachine, ct_SID = [], ct_Name = ct_Name t\<rparr>"

definition holds :: "'c cert_stores \<Rightarrow> cert_target \<Rightarrow> 'c \<Rightarrow> bool" where
  "holds s t c \<longleftrightarrow> c \<in> s t \<or> ct_Location t = Users \<and> c \<in> s (machine_of t)"

record cert_env =
  ce_open :: "cert_target \<Rightarrow> bool"
  ce_add :: "cert_target \<Rightarrow> bool"

definition addToStore :: "cert_env \<Rightarrow> 'c \<Rightarrow> cert_target \<Rightarrow> 'c cert_stores \<Rightarrow> 'c cert_stores \<times> bool option" where
  "addToStore e c t s =
     (if \<not> ce_open e t then (s, None)
      else if holds s t c then (s, Some False)
      else if ce_add e t then (s(t := insert c (s t)), Some True)
      else (s, None))"

text \<open>The stores, the labels of those written, and whether every target succeeded.\<close>

fun Ensure_cert :: "cert_env \<Rightarrow> 'c \<Rightarrow> cert_target list \<Rightarrow> 'c cert_stores \<Rightarrow> 'c cert_stores \<times> string list \<times> bool" where
  "Ensure_cert e c [] s = (s, [], True)"
| "Ensure_cert e c (t # ts) s =
     (case addToStore e c t s of
        (s1, r) \<Rightarrow> (case Ensure_cert e c ts s1 of
          (s2, installed, ok) \<Rightarrow>
            (s2, (if r = Some True then target_String t # installed else installed), ok \<and> r \<noteq> None)))"

text \<open>
  \<^verbatim>\<open>ensureCertificate\<close>: \<open>sid\<close> is the user at the console, \<open>cert\<close> the embedded certificate
  when it parses.
\<close>

definition ensureCertificate ::
  "cert_env \<Rightarrow> bool \<Rightarrow> 'c option \<Rightarrow> string option \<Rightarrow> 'c cert_stores \<Rightarrow> 'c cert_stores \<times> string list" where
  "ensureCertificate e enabled cert sid s =
     (if \<not> enabled then (s, [])
      else case cert of
        None \<Rightarrow> (s, [])
      | Some c \<Rightarrow>
          (let targets = MachineTargets @ (case sid of None \<Rightarrow> [] | Some i \<Rightarrow> UserTargets i);
               (s', installed, ok) = Ensure_cert e c targets s
           in (s', installed)))"

section \<open>Lemmas\<close>

definition healthy_reg :: "reg_env \<Rightarrow> bool" where
  "healthy_reg e \<longleftrightarrow> (\<forall>p. rg_stat e p \<and> rg_create e p) \<and> (\<forall>p n. rg_read e p n \<and> rg_write e p n)"

text \<open>A value is right in \<open>r\<close>.\<close>

definition right :: "registry \<Rightarrow> string \<times> string \<times> string \<Rightarrow> bool" where
  "right r v = (case v of (path, name, want) \<Rightarrow> r (reg_key path name) = Some want)"

definition vkey :: "string \<times> string \<times> string \<Rightarrow> string \<times> string" where
  "vkey v = (case v of (path, name, want) \<Rightarrow> reg_key path name)"

lemma ensure_values_frame:
  "k \<notin> vkey ` set vs \<Longrightarrow> fst (ensure_values e vs b r) k = r k"
  by (induction vs arbitrary: b r)
     (auto simp: ensureValue_def vkey_def split: option.splits prod.splits if_splits)

text \<open>Values under distinct keys all end up right, and a change is reported exactly when one was wrong.\<close>

lemma ensure_values_heals:
  assumes "healthy_reg e" "distinct (map vkey vs)" "ensure_values e vs b r = (r', c, ok)"
  shows "ok \<and> (\<forall>v \<in> set vs. right r' v) \<and> c = (b \<or> (\<exists>v \<in> set vs. \<not> right r v)) \<and> (\<not> c \<longrightarrow> r' = r)"
  using assms(2,3)
proof (induction vs arbitrary: b r)
  case (Cons v vs)
  obtain path name want where v: "v = (path, name, want)" by (cases v)
  define r1 where "r1 = (if right r v then r else r(vkey v \<mapsto> want))"
  have e1: "ensureValue e path name want r = (r1, Some (\<not> right r v))"
    using assms(1) by (auto simp: ensureValue_def healthy_reg_def r1_def right_def vkey_def v)
  then have rest: "ensure_values e vs (b \<or> \<not> right r v) r1 = (r', c, ok)" using Cons.prems(2) by (simp add: v)
  note ih = Cons.IH [OF _ rest]
  have d: "distinct (map vkey vs)" "vkey v \<notin> vkey ` set vs" using Cons.prems(1) by auto
  have "right r1 v" by (auto simp: r1_def right_def vkey_def v)
  moreover have "r' (vkey v) = r1 (vkey v)"
    using ensure_values_frame [OF d(2), of e "b \<or> \<not> right r v" r1] rest by simp
  ultimately have a: "right r' v" by (simp add: right_def vkey_def v)
  have "right r1 x = right r x" if "x \<in> set vs" for x
    using that d(2) by (cases x) (auto simp: r1_def right_def vkey_def v image_iff split: prod.splits)
  then have "(\<exists>v \<in> set vs. \<not> right r1 v) = (\<exists>v \<in> set vs. \<not> right r v)" by blast
  with ih [OF d(1)] a show ?case by (auto simp: r1_def)
qed simp

lemma ensure_values_append:
  "ensure_values e (vs @ ws) b r =
     (case ensure_values e vs b r of (r', c, ok) \<Rightarrow> if ok then ensure_values e ws c r' else (r', c, False))"
  by (induction vs arbitrary: b r) (auto split: prod.splits option.splits)

lemma ensure_values_start:
  assumes "ensure_values e vs False r = (r', c, ok)"
  shows "ensure_values e vs b r = (r', b \<or> c, ok)"
  using assms
proof (induction vs arbitrary: b r r' c ok)
  case (Cons v vs)
  obtain path name want where v: "v = (path, name, want)" by (cases v)
  obtain r1 x where e1: "ensureValue e path name want r = (r1, x)" by (cases "ensureValue e path name want r")
  show ?case
  proof (cases x)
    case (Some d)
    obtain r2 c2 ok2 where z: "ensure_values e vs False r1 = (r2, c2, ok2)" by (cases "ensure_values e vs False r1")
    show ?thesis using Cons.prems Cons.IH [OF z, of d] Cons.IH [OF z, of "b \<or> d"] v e1 Some by auto
  qed (use Cons.prems v e1 in auto)
qed auto

lemma healthy_ok: "healthy_reg e \<Longrightarrow> ensure_values e vs b r = (r', c, ok) \<Longrightarrow> ok"
  by (induction vs arbitrary: b r)
     (auto simp: ensureValue_def healthy_reg_def split: if_splits)

lemma repair_loop_flat:
  assumes "healthy_reg e"
  shows "repair_loop e command icon ms b r = ensure_values e (concat (map (\<lambda>m. entry_values m command icon) ms)) b r"
proof (induction ms arbitrary: b r)
  case (Cons m ms)
  obtain r1 c ok where z: "ensure_values e (entry_values m command icon) False r = (r1, c, ok)"
    by (cases "ensure_values e (entry_values m command icon) False r")
  show ?case
    using healthy_ok [OF assms z] ensure_values_start [OF z, of b] z
    by (simp add: repairOne_def Cons.IH ensure_values_append)
qed simp

lemma ToLower_append [simp]: "ToLower (a @ b) = ToLower a @ ToLower b"
  by (simp add: ToLower_def)

text \<open>
  The values of the two mappings have different keys when the names of the classes do:
  the two extensions and the two identifiers differ, however they are spelled.
\<close>

definition distinct_classes :: "string \<Rightarrow> string \<Rightarrow> bool" where
  "distinct_classes a b \<longleftrightarrow> distinct [''.eml'', ''.msg'', ToLower a, ToLower b] \<and>
     (\<forall>x \<in> set a \<union> set b. x \<noteq> CHR 0x5C)"

lemma backslash_split:
  assumes "CHR 0x5C \<notin> set a" "CHR 0x5C \<notin> set b"
  shows "a @ CHR 0x5C # x = b @ CHR 0x5C # y \<longleftrightarrow> a = b \<and> x = y" "a @ CHR 0x5C # x \<noteq> b"
  using assms by (auto simp: append_eq_append_conv2 Cons_eq_append_conv append_eq_Cons_conv)

lemma lower_char_backslash: "lower_char c = CHR 0x5C \<longleftrightarrow> c = CHR 0x5C"
  by (auto simp: lower_char_def Let_def split: if_splits dest!: arg_cong [where f = "of_char :: char \<Rightarrow> nat"])

lemma ToLower_backslash: "CHR 0x5C \<notin> set a \<Longrightarrow> CHR 0x5C \<notin> set (ToLower a)"
  by (auto simp: ToLower_def lower_char_backslash dest: sym)

lemma default_keys_distinct:
  assumes "distinct_classes a b"
  shows "distinct (map vkey (concat (map (\<lambda>m. entry_values m command icon) (DefaultMappings a b))))"
proof -
  have n: "CHR 0x5C \<notin> set (ToLower a)" "CHR 0x5C \<notin> set (ToLower b)"
    using assms by (auto simp: distinct_classes_def intro!: ToLower_backslash)
  have d: "ToLower ''.eml'' = ''.eml''" "ToLower ''.msg'' = ''.msg''"
    "''.eml'' \<noteq> ToLower a" "''.eml'' \<noteq> ToLower b" "''.msg'' \<noteq> ToLower a" "''.msg'' \<noteq> ToLower b" "ToLower a \<noteq> ToLower b"
    using assms by (auto simp: distinct_classes_def ToLower_def lower_char_def)
  have l: "ToLower (c # s) = lower_char c # ToLower s" "ToLower [] = []" for c s by (simp_all add: ToLower_def)
  have r: "b' \<noteq> a' @ CHR 0x5C # x" if "CHR 0x5C \<notin> set a'" "CHR 0x5C \<notin> set b'" for a' b' x
    using backslash_split(2) [OF that] by metis
  show ?thesis
    using n d
    by (simp add: DefaultMappings_def entry_values_def vkey_def reg_key_def classes_def Let_def l lower_char_def
        backslash_split r)
qed

lemma holds_mono: "holds s t c \<Longrightarrow> \<forall>t. s t \<subseteq> s' t \<Longrightarrow> holds s' t c"
  by (auto simp: holds_def)

lemma addToStore_mono: "addToStore e c t s = (s', r) \<Longrightarrow> s x \<subseteq> s' x \<and> s' x \<subseteq> insert c (s x)"
  by (auto simp: addToStore_def split: if_splits)

lemma Ensure_cert_mono:
  "Ensure_cert e c ts s = (s', installed, ok) \<Longrightarrow> \<forall>x. s x \<subseteq> s' x \<and> s' x \<subseteq> insert c (s x)"
proof (induction ts arbitrary: s installed ok)
  case (Cons t ts)
  obtain s1 r where a: "addToStore e c t s = (s1, r)" by (cases "addToStore e c t s")
  obtain i2 ok2 where z: "Ensure_cert e c ts s1 = (s', i2, ok2)" using Cons.prems a by (auto split: prod.splits)
  show ?case using Cons.IH [OF z] addToStore_mono [OF a] by blast
qed auto

lemma Ensure_cert_reaches:
  assumes "Ensure_cert e c ts s = (s', installed, ok)"
  shows "\<forall>t \<in> set ts. ce_open e t \<and> ce_add e t \<or> ok \<longrightarrow> ce_open e t \<and> holds s' t c"
  using assms
proof (induction ts arbitrary: s installed ok)
  case (Cons t ts)
  obtain s1 r where a: "addToStore e c t s = (s1, r)" by (cases "addToStore e c t s")
  obtain i2 ok2 where z: "Ensure_cert e c ts s1 = (s', i2, ok2)" using Cons.prems a by (auto split: prod.splits)
  have ok: "ok = (ok2 \<and> r \<noteq> None)" using Cons.prems a z by simp
  have "ce_open e t \<and> holds s1 t c" if "ce_open e t \<and> ce_add e t \<or> r \<noteq> None"
    using that a by (auto simp: addToStore_def holds_def split: if_splits)
  then have "ce_open e t \<and> holds s' t c" if "ce_open e t \<and> ce_add e t \<or> r \<noteq> None"
    using that holds_mono [of s1 t c s'] Ensure_cert_mono [OF z] by simp
  then show ?case using Cons.IH [OF z] ok by auto
qed simp

lemma Ensure_cert_idle: "\<forall>t \<in> set ts. ce_open e t \<and> holds s t c \<Longrightarrow> Ensure_cert e c ts s = (s, [], True)"
  by (induction ts) (auto simp: addToStore_def)

section \<open>Properties\<close>


text \<open>
  A repair that fails on the second file type has rewritten the first one without
  notifying Explorer, and the next successful repair finds nothing to report for it.
\<close>

lemma failed_repair_not_notified:
  "case Repair \<lparr>rg_stat = \<lambda>_. True, rg_create = \<lambda>_. True, rg_read = \<lambda>_ _. True, rg_write = \<lambda>p _. p \<noteq> classes ''.msg''\<rparr>
     ''x'' (DefaultMappings ''a'' ''b'') (\<lambda>_. None) of
     (r', changed, ok, notified) \<Rightarrow> changed \<and> \<not> ok \<and> \<not> notified \<and> r' (reg_key (classes ''.eml'') []) = Some ''a''"
  by (simp add: Repair_def repairOne_def ensureValue_def DefaultMappings_def entry_values_def reg_key_def classes_def
      Let_def ToLower_def lower_char_def)

text \<open>
  The certificate reaches every store that can be written, and only once. A store that
  fails does not keep the others from being tried; after a round in which none failed
  every target holds the certificate, nothing that was there is removed, and the next round
  writes nothing.
\<close>

theorem Ensure_cert_converges:
  assumes "Ensure_cert e c ts s = (s', installed, ok)"
  shows "(\<forall>t \<in> set ts. ce_open e t \<and> ce_add e t \<longrightarrow> holds s' t c) \<and> (\<forall>t. s t \<subseteq> s' t) \<and>
    (\<forall>t. s' t \<subseteq> insert c (s t)) \<and> (ok \<longrightarrow> Ensure_cert e c ts s' = (s', [], True))"
  using Ensure_cert_mono [OF assms] Ensure_cert_reaches [OF assms] Ensure_cert_idle [of ts e s' c] by blast

section \<open>Witnesses\<close>

definition demo_reg_env :: reg_env where
  "demo_reg_env = \<lparr>rg_stat = \<lambda>_. True, rg_create = \<lambda>_. True, rg_read = \<lambda>_ _. True, rg_write = \<lambda>_ _. True\<rparr>"


definition demo_cert_env :: cert_env where
  "demo_cert_env = \<lparr>ce_open = \<lambda>_. True, ce_add = \<lambda>_. True\<rparr>"

theorem Ensure_cert_converges_witness:
  "holds (fst (Ensure_cert demo_cert_env (7 :: nat) MachineTargets (\<lambda>_. {}))) (hd MachineTargets) 7"
proof -
  obtain s' i k where z: "Ensure_cert demo_cert_env (7 :: nat) MachineTargets (\<lambda>_. {}) = (s', i, k)" by (rule prod_cases3)
  show ?thesis using Ensure_cert_converges [OF z] z by (simp add: MachineTargets_def storeNames_def demo_cert_env_def)
qed

end
