(* ===== verification/World.thy ===== *)
theory World
  imports Sources Download PowerGate EventChannel SelfHeal
begin

text \<open>
  The state one update cycle works on and the world it meets, shared by the self-update
  (\<^verbatim>\<open>internal/service/selfupdate.go\<close>) and the update of EMLy (\<^verbatim>\<open>service.go\<close>): files, the
  records of \<^verbatim>\<open>state.json\<close>, the install gate, what was reported, and what was done to the
  machine, in order. Whether a call outside the program succeeds, what the clock shows
  and what the command goroutines do to the gate meanwhile is the environment's choice.
\<close>

text \<open>What is done to the machine: a setup is recorded with the bytes that were run.\<close>

datatype 'b deed =
    RanSetup string 'b
  | RanUninstaller
  | KilledEMLy
  | LaunchedSelf string 'b

type_synonym emly_section = "(string \<Rightarrow> string) option"

record 'b world =
  wd_files :: "'b fs"
  wd_pending :: "pending option"
  wd_self :: "self_update option"
  wd_commands :: "pending_command list"
  wd_gate :: gate
  wd_pref :: "string option"
  wd_ann :: announcer
  wd_emly :: emly_section
  wd_landed :: "self_update option"
  wd_paused :: bool
  wd_notified :: bool
  wd_trigger :: string
  wd_registry :: registry
  wd_certs :: "string cert_stores"
  wd_did :: "'b deed list"

text \<open>The places where the gate is asked, and the writes of the state file.\<close>

datatype point = PCycle | PApply | PKill | PInstall | PSelfInstall

datatype store_write =
    WDiscard | WSatisfied | WCorrupt | WSetPending | WChecksum | WWipe | WSetFresh | WDone
  | WSelfClear | WSelfGiveUp | WSelfAttempt | WExpired

record 'b cyc_env =
  xe_clock :: "point \<Rightarrow> time"
  xe_now :: time
  xe_launched :: time
  xe_interfere :: "point \<Rightarrow> gate \<Rightarrow> gate"
  xe_load_ok :: bool
  xe_load_pending :: bool
  xe_write_ok :: "store_write \<Rightarrow> bool"
  xe_fetch :: "(string, manifest) renv"
  xe_refetch :: "(string, manifest) renv"
  xe_ufetch :: "(string, updater_manifest) renv"
  xe_dl :: "'b dl_env"
  xe_redl :: "'b dl_env"
  xe_sdl :: "'b dl_env"
  xe_list :: "string \<Rightarrow> 'b fs \<Rightarrow> (string \<times> bool) list"
  xe_rm_ok :: "string \<Rightarrow> bool"
  xe_rd :: "string \<Rightarrow> bool"
  xe_running :: bool
  xe_cancelled :: bool
  xe_warned :: bool
  xe_duration :: int
  xe_run :: "nat \<Rightarrow> 'b \<Rightarrow> emly_section \<Rightarrow> string option \<times> emly_section"
  xe_uninstaller :: bool
  xe_uninstall :: "emly_section \<Rightarrow> emly_section"
  xe_toast :: bool
  xe_reg :: reg_env
  xe_cert :: cert_env
  xe_der :: "string option"
  xe_sid :: "string option"
  xe_signed :: "'b \<Rightarrow> bool"
  xe_launch_ok :: bool
  xe_sys :: "'b env"

text \<open>What is fixed while the service runs.\<close>

record 'b service_setup =
  se_lib :: golib
  se_join :: "url \<Rightarrow> string"
  se_cfg :: config
  se_sha :: "'b \<Rightarrow> string"
  se_version :: string
  se_downloads :: manager
  se_selfDownloads :: manager
  se_cachePath :: string
  se_prevPath :: string

section \<open>Shared steps\<close>

definition doing :: "'b deed \<Rightarrow> 'b world \<Rightarrow> 'b world" where
  "doing d w = w\<lparr>wd_did := wd_did w @ [d]\<rparr>"

text \<open>
  An expired commit takes its pending record with it
  (\<^verbatim>\<open>destructivePendingLocked\<close>).
\<close>

definition drop_gone :: "'b cyc_env \<Rightarrow> string option \<Rightarrow> 'b world \<Rightarrow> 'b world" where
  "drop_gone e gone w =
     (case gone of
        None \<Rightarrow> w
      | Some i \<Rightarrow>
          if xe_write_ok e WExpired then w\<lparr>wd_commands := filter (\<lambda>c. pc_ID c \<noteq> i) (wd_commands w)\<rparr> else w)"

text \<open>\<^verbatim>\<open>destructivePendingNow\<close>, with the log flag of a skip, at a point of the cycle.\<close>

definition check_gate :: "'b cyc_env \<Rightarrow> point \<Rightarrow> 'b world \<Rightarrow> bool \<times> 'b world" where
  "check_gate e pt w =
     (let (p, g, gone) = destructivePendingNow (xe_clock e pt) (xe_interfere e pt (wd_gate w));
          g = (if p then snd (logDestructiveSkipOnce g) else g)
      in (p, drop_gone e gone (w\<lparr>wd_gate := g\<rparr>)))"

definition begin_install :: "'b cyc_env \<Rightarrow> point \<Rightarrow> 'b world \<Rightarrow> bool \<times> 'b world" where
  "begin_install e pt w =
     (let (ok, g, gone) = beginInstall (xe_clock e pt) (xe_interfere e pt (wd_gate w))
      in (ok, drop_gone e gone (w\<lparr>wd_gate := g\<rparr>)))"

definition end_install :: "'b world \<Rightarrow> 'b world" where
  "end_install w = w\<lparr>wd_gate := endInstall (wd_gate w)\<rparr>"

definition clear_pending :: "'b cyc_env \<Rightarrow> store_write \<Rightarrow> 'b world \<Rightarrow> 'b world" where
  "clear_pending e op w = (if xe_write_ok e op then w\<lparr>wd_pending := None\<rparr> else w)"

definition set_pending :: "'b cyc_env \<Rightarrow> store_write \<Rightarrow> pending \<Rightarrow> 'b world \<Rightarrow> 'b world" where
  "set_pending e op p w = (if xe_write_ok e op then w\<lparr>wd_pending := Some p\<rparr> else w)"

definition cleanup :: "'b cyc_env \<Rightarrow> manager \<Rightarrow> string \<Rightarrow> 'b world \<Rightarrow> 'b world" where
  "cleanup e m keep w =
     w\<lparr>wd_files := fst (CleanupExcept m (xe_rm_ok e) (xe_list e (mg_Dir m) (wd_files w)) keep (wd_files w))\<rparr>"

definition announce :: "(announcer \<Rightarrow> announcer) \<Rightarrow> 'b world \<Rightarrow> 'b world" where
  "announce f w = w\<lparr>wd_ann := f (wd_ann w)\<rparr>"

lemma drop_gone_frame [frame_simps]:
  "wd_files (drop_gone e g w) = wd_files w" "wd_pending (drop_gone e g w) = wd_pending w"
  "wd_self (drop_gone e g w) = wd_self w" "wd_gate (drop_gone e g w) = wd_gate w"
  "wd_did (drop_gone e g w) = wd_did w" "wd_emly (drop_gone e g w) = wd_emly w"
  "wd_ann (drop_gone e g w) = wd_ann w" "wd_pref (drop_gone e g w) = wd_pref w"
  by (simp_all add: drop_gone_def split: option.splits)

lemma check_gate_frame [frame_simps]:
  "wd_files (snd (check_gate e pt w)) = wd_files w" "wd_pending (snd (check_gate e pt w)) = wd_pending w"
  "wd_self (snd (check_gate e pt w)) = wd_self w" "wd_did (snd (check_gate e pt w)) = wd_did w"
  "wd_emly (snd (check_gate e pt w)) = wd_emly w"
  by (simp_all add: check_gate_def Let_def case_prod_unfold frame_simps)

lemma begin_install_frame [frame_simps]:
  "wd_files (snd (begin_install e pt w)) = wd_files w" "wd_pending (snd (begin_install e pt w)) = wd_pending w"
  "wd_self (snd (begin_install e pt w)) = wd_self w" "wd_did (snd (begin_install e pt w)) = wd_did w"
  "wd_emly (snd (begin_install e pt w)) = wd_emly w"
  by (simp_all add: begin_install_def Let_def case_prod_unfold frame_simps)

lemma announce_frame [frame_simps]:
  "wd_files (announce f w) = wd_files w" "wd_pending (announce f w) = wd_pending w"
  "wd_self (announce f w) = wd_self w" "wd_did (announce f w) = wd_did w"
  "wd_emly (announce f w) = wd_emly w" "wd_gate (announce f w) = wd_gate w"
  by (simp_all add: announce_def)

lemma end_install_frame [frame_simps]:
  "wd_files (end_install w) = wd_files w" "wd_pending (end_install w) = wd_pending w"
  "wd_self (end_install w) = wd_self w" "wd_did (end_install w) = wd_did w"
  "wd_emly (end_install w) = wd_emly w"
  by (simp_all add: end_install_def)

lemma cleanup_frame [frame_simps]:
  "wd_pending (cleanup e m k w) = wd_pending w" "wd_self (cleanup e m k w) = wd_self w"
  "wd_did (cleanup e m k w) = wd_did w" "wd_emly (cleanup e m k w) = wd_emly w"
  "wd_gate (cleanup e m k w) = wd_gate w"
  by (simp_all add: cleanup_def)

lemma pending_frame [frame_simps]:
  "wd_files (clear_pending e op w) = wd_files w" "wd_files (set_pending e op p w) = wd_files w"
  "wd_self (clear_pending e op w) = wd_self w" "wd_self (set_pending e op p w) = wd_self w"
  "wd_did (clear_pending e op w) = wd_did w" "wd_did (set_pending e op p w) = wd_did w"
  "wd_emly (clear_pending e op w) = wd_emly w" "wd_emly (set_pending e op p w) = wd_emly w"
  "wd_gate (clear_pending e op w) = wd_gate w" "wd_gate (set_pending e op p w) = wd_gate w"
  by (simp_all add: clear_pending_def set_pending_def)

lemma doing_frame [frame_simps]:
  "wd_files (doing d w) = wd_files w" "wd_pending (doing d w) = wd_pending w" "wd_self (doing d w) = wd_self w"
  "wd_emly (doing d w) = wd_emly w" "wd_gate (doing d w) = wd_gate w" "wd_did (doing d w) = wd_did w @ [d]"
  by (simp_all add: doing_def)

section \<open>A concrete machine\<close>

text \<open>
  Contents are strings and their own digests; every call succeeds, every server answers
  at once.
\<close>

definition demo_setup :: "string service_setup" where
  "demo_setup = \<lparr>se_lib = demo_versions, se_join = (\<lambda>_. []), se_cfg = demo_config\<lparr>cf_SelfUpdateManifestURL := ''https://u''\<rparr>,
     se_sha = id, se_version = ''1.9'', se_downloads = \<lparr>mg_Dir = ''E'', mg_Prefix = []\<rparr>,
     se_selfDownloads = \<lparr>mg_Dir = ''S'', mg_Prefix = ''EMLyUpdater-''\<rparr>, se_cachePath = ''c'', se_prevPath = ''p''\<rparr>"

definition always :: "'d \<Rightarrow> ('s, 'd) renv" where
  "always d = \<lparr>re_fetch = (\<lambda>_ _. Inr d), re_done = (\<lambda>_. False), re_wait = (\<lambda>_. False)\<rparr>"

definition demo_dl :: "'b \<Rightarrow> 'b dl_env" where
  "demo_dl b = \<lparr>dl_ok = (\<lambda>_. True), dl_rd = (\<lambda>_. True), dl_fetch = Fetched b\<rparr>"

definition demo_manifest :: manifest where
  "demo_manifest = zero_manifest\<lparr>m_StableVersion := ''2.0.10'', m_StableDownload := ''https://s'',
     m_SHA256Checksums := [(''2.0.10'', ''ef'')]\<rparr>"

definition demo_cyc_env :: "string cyc_env" where
  "demo_cyc_env = \<lparr>xe_clock = (\<lambda>_. 5), xe_now = 5, xe_launched = 6, xe_interfere = (\<lambda>_ g. g), xe_load_ok = True, xe_load_pending = True,
     xe_write_ok = (\<lambda>_. True), xe_fetch = always demo_manifest, xe_refetch = always demo_manifest,
     xe_ufetch = always demo_release, xe_dl = demo_dl ''ef'', xe_redl = demo_dl ''ef'',
     xe_sdl = demo_dl ''ab'', xe_list = (\<lambda>_ _. []), xe_rm_ok = (\<lambda>_. True), xe_rd = (\<lambda>_. True), xe_running = False,
     xe_cancelled = False, xe_warned = True, xe_duration = 0, xe_run = (\<lambda>_ _ _. (None, Some (\<lambda>_. ''2.0.10''))), xe_uninstaller = True,
     xe_uninstall = id, xe_toast = True, xe_reg = demo_reg_env, xe_cert = demo_cert_env, xe_der = Some ''3gIT'', xe_sid = None,
     xe_signed = (\<lambda>b. b = ''ab''), xe_launch_ok = True,
     xe_sys = \<lparr>sys_ok = (\<lambda>_. True), sys_tmp = ''t'', sys_torn = []\<rparr>\<rparr>"

definition demo_world :: "string world" where
  "demo_world = \<lparr>wd_files = (\<lambda>_. None), wd_pending = None, wd_self = None, wd_commands = [], wd_gate = zero_gate,
     wd_pref = None, wd_ann = \<lparr>an_announced = [], an_failed = {}, an_events = []\<rparr>, wd_emly = None, wd_landed = None, wd_paused = False, wd_notified = False,
     wd_trigger = [], wd_registry = (\<lambda>_. None), wd_certs = (\<lambda>_. {}), wd_did = []\<rparr>"

end
