(* ===== verification/SelfApply.thy ===== *)
theory SelfApply
  imports World
begin

text \<open>
  \<^verbatim>\<open>internal/service/selfupdate.go\<close>: the handler that brings the updater itself up to
  date, with all its effects. It is shown to refine \<open>self_cycle\<close>, on which the bound of
  the attempts was proved, and to launch nothing but a release that was downloaded,
  checked and signed.
\<close>

section \<open>The handler\<close>

definition fail_event :: "string \<Rightarrow> string \<Rightarrow> int \<Rightarrow> bool \<Rightarrow> string \<Rightarrow> update_event" where
  "fail_event from to attempt retry code =
     (update_event_of ''updater'' from to attempt)\<lparr>ue_WillRetry := retry, ue_Error := Some code\<rparr>"

text \<open>\<^verbatim>\<open>reconcileSelfUpdate\<close> with its events and the cleanup of the installers.\<close>

definition reconcile_world :: "'b service_setup \<Rightarrow> 'b cyc_env \<Rightarrow> 'b world \<Rightarrow> self_update option \<times> 'b world" where
  "reconcile_world u e w =
     (let running = se_version u;
          (rec, stored) = reconcileSelfUpdate (se_lib u) running (xe_load_ok e) (xe_write_ok e WSelfClear) (wd_self w)
      in if \<not> xe_load_ok e then (None, w)
         else case wd_self w of
           None \<Rightarrow> (None, w)
         | Some r \<Rightarrow>
             (let w1 = w\<lparr>wd_self := stored\<rparr>
              in case Reconcile (se_lib u) running (Some r) of
                   Inr OutcomeLanded \<Rightarrow>
                     (rec, cleanup e (se_selfDownloads u) []
                       ((announce (emit_service (UpdateApplied (update_event_of ''updater'' (su_FromVersion r) running (su_Attempts r)))) w1)
                          \<lparr>wd_landed := Some r\<rparr>))
                 | Inr OutcomeMissed \<Rightarrow>
                     (rec, announce (emitUpdateFailed (fail_event running (su_Version r) (su_Attempts r)
                              (su_Attempts r < MaxAttempts) ''version_mismatch'')) w1)
                 | _ \<Rightarrow> (rec, w1)))"

definition applySelfUpdate ::
  "'b service_setup \<Rightarrow> 'b cyc_env \<Rightarrow> updater_manifest \<Rightarrow> int \<Rightarrow> 'b world \<Rightarrow> bool \<times> 'b world" where
  "applySelfUpdate u e m attempt w =
     (let running = se_version u;
          failed = (\<lambda>code. announce (emitUpdateFailed (fail_event running (um_Version m) attempt True code)))
      in case Ensure (se_sha u) (se_selfDownloads u) (xe_sdl e) (um_Target m) (wd_files w) of
           (f, Inl _) \<Rightarrow> (False, failed ''download_failed'' (w\<lparr>wd_files := f\<rparr>))
         | (f, Inr path) \<Rightarrow>
             (let w = w\<lparr>wd_files := f\<rparr> in
              if \<not> (case f path of Some b \<Rightarrow> xe_signed e b | None \<Rightarrow> False)
              then (False, failed ''signature_invalid'' (w\<lparr>wd_files := rm (xe_sdl e) path f\<rparr>))
              else let (granted, w) = begin_install e PSelfInstall w in
              if \<not> granted then (False, w)
              else if \<not> xe_write_ok e WSelfAttempt then (False, end_install w)
              else
                (let r = \<lparr>su_Version = um_Version m, su_FromVersion = running, su_SetupPath = path, su_SHA256 = um_SHA256 m,
                          su_Attempts = attempt, su_GaveUp = False, su_LaunchedAt = xe_launched e\<rparr>;
                     w = w\<lparr>wd_self := Some r, wd_files := fst (retireCache (xe_sys e) (se_cachePath u) (se_prevPath u) (wd_files w))\<rparr>;
                     w = announce (emit_service (UpdateStarted ((update_event_of ''updater'' running (um_Version m) attempt)\<lparr>ue_Trigger := wd_trigger w\<rparr>))) w
                 in case wd_files w path of
                      Some b \<Rightarrow>
                        if xe_launch_ok e then (True, doing (LaunchedSelf (um_Version m) b) w)
                        else (False, announce (\<lambda>a. snd (markUpdateFailed (''updater'', um_Version m, attempt, ''version_mismatch'') a))
                               (failed ''launch_failed''
                                 (end_install (w\<lparr>wd_files := fst (restoreCache (xe_sys e) (se_cachePath u) (se_prevPath u) (wd_files w))\<rparr>))))
                    | None \<Rightarrow>
                        (False, announce (\<lambda>a. snd (markUpdateFailed (''updater'', um_Version m, attempt, ''version_mismatch'') a))
                           (failed ''launch_failed''
                             (end_install (w\<lparr>wd_files := fst (restoreCache (xe_sys e) (se_cachePath u) (se_prevPath u) (wd_files w))\<rparr>)))))))"

definition selfUpdate :: "'b service_setup \<Rightarrow> 'b cyc_env \<Rightarrow> cycle_state \<Rightarrow> 'b world \<Rightarrow> bool \<times> 'b world" where
  "selfUpdate u e cyc w =
     (let running = se_version u in
      if \<not> tg_Enabled (us_SelfUpdate (d_Updater (e_Doc (cy_eff cyc)))) then (False, w)
      else
        (let (rec, w) = reconcile_world u e w;
             (res, pref) = resolveUpdaterManifestWith (se_lib u) (se_join u) (se_cfg u) (xe_ufetch e) cyc True (wd_pref w);
             w = w\<lparr>wd_pref := pref\<rparr>
         in case res of
              Inl _ \<Rightarrow> (False, w)
            | Inr (src, m, url) \<Rightarrow>
                (case Decide (se_lib u) running (Some m) rec (xe_now e) of
                   Inl _ \<Rightarrow> (False, w)
                 | Inr d \<Rightarrow>
                     if de_GiveUp d then
                       (let attempts = (case rec of Some r \<Rightarrow> su_Attempts r | None \<Rightarrow> de_Attempt d);
                            w = (case rec of
                                   Some r \<Rightarrow> if xe_write_ok e WSelfGiveUp then w\<lparr>wd_self := Some (r\<lparr>su_GaveUp := True\<rparr>)\<rparr> else w
                                 | None \<Rightarrow> w);
                            w = announce (emitUpdateFailed (fail_event running (um_Version m) attempts False ''gave_up'')) w
                        in (False, announce (\<lambda>a. snd (markUpdateFailed (''updater'', um_Version m, attempts, ''version_mismatch'') a)) w))
                     else if \<not> de_Install d then (False, w)
                     else applySelfUpdate u e m (de_Attempt d) (announce (announceUpdate ''updater'' (um_Version m)) w))))"

section \<open>Refinement\<close>

text \<open>
  The inputs of \<open>self_cycle\<close> that a run of the handler amounts to: the manifest is none
  when it could not be resolved, and the release is prepared when the download, the
  signature and the gate all let it through.
\<close>

definition self_manifest :: "'b service_setup \<Rightarrow> 'b cyc_env \<Rightarrow> cycle_state \<Rightarrow> 'b world \<Rightarrow> updater_manifest option" where
  "self_manifest u e cyc w =
     (case fst (resolveUpdaterManifestWith (se_lib u) (se_join u) (se_cfg u) (xe_ufetch e) cyc True
              (wd_pref (snd (reconcile_world u e w)))) of
        Inl _ \<Rightarrow> None
      | Inr (src, m, url) \<Rightarrow> Some m)"

definition self_input ::
  "'b service_setup \<Rightarrow> 'b cyc_env \<Rightarrow> cycle_state \<Rightarrow> 'b world \<Rightarrow> bool \<Rightarrow> bool \<Rightarrow> bool \<Rightarrow> cycle_input" where
  "self_input u e cyc w prepared store_ok launch_ok =
     \<lparr>ci_running = se_version u, ci_manifest = self_manifest u e cyc w, ci_now = xe_now e, ci_launched = xe_launched e,
      ci_setup = (case self_manifest u e cyc w of Some m \<Rightarrow> SetupPath (se_selfDownloads u) (um_Version m) | None \<Rightarrow> []),
      ci_prepared = prepared, ci_load_ok = xe_load_ok e, ci_clear_ok = xe_write_ok e WSelfClear, ci_store_ok = store_ok,
      ci_launch_ok = launch_ok\<rparr>"

lemma reconcile_world_refines:
  assumes "reconcile_world u e w = (rec, w1)"
  shows "reconcileSelfUpdate (se_lib u) (se_version u) (xe_load_ok e) (xe_write_ok e WSelfClear) (wd_self w) = (rec, wd_self w1)"
    and "wd_did w1 = wd_did w"
  using assms
  by (auto simp: reconcile_world_def reconcileSelfUpdate_def Let_def frame_simps
      split: option.splits sum.splits outcome.splits if_splits)

lemma Ensure_path: "Ensure sha m e t f = (f', Inr path) \<Longrightarrow> path = SetupPath m (t_Version t)"
  using Ensure_result by blast

lemma applySelfUpdate_refines:
  assumes "applySelfUpdate u e m attempt w = (launched, w')"
  shows "(wd_self w' = wd_self w \<and> \<not> launched) \<or>
    (xe_write_ok e WSelfAttempt \<and>
     wd_self w' = Some \<lparr>su_Version = um_Version m, su_FromVersion = se_version u,
       su_SetupPath = SetupPath (se_selfDownloads u) (um_Version m), su_SHA256 = um_SHA256 m, su_Attempts = attempt,
       su_GaveUp = False, su_LaunchedAt = xe_launched e\<rparr>)"
proof -
  obtain f r where en: "Ensure (se_sha u) (se_selfDownloads u) (xe_sdl e) (um_Target m) (wd_files w) = (f, r)"
    by (cases "Ensure (se_sha u) (se_selfDownloads u) (xe_sdl e) (um_Target m) (wd_files w)")
  show ?thesis
  proof (cases r)
    case (Inl err)
    then show ?thesis using assms en by (auto simp: applySelfUpdate_def Let_def frame_simps)
  next
    case (Inr path)
    have p: "path = SetupPath (se_selfDownloads u) (um_Version m)"
      using Ensure_path [OF en [unfolded Inr]] by (simp add: um_Target_def)
    obtain granted w1 where g: "begin_install e PSelfInstall (w\<lparr>wd_files := f\<rparr>) = (granted, w1)"
      by (cases "begin_install e PSelfInstall (w\<lparr>wd_files := f\<rparr>)")
    have w1: "wd_self w1 = wd_self w" using begin_install_frame(3) [of e PSelfInstall "w\<lparr>wd_files := f\<rparr>"] g by simp
    show ?thesis
      using assms en Inr g w1 p
      by (auto simp: applySelfUpdate_def Let_def frame_simps split: if_splits option.splits)
  qed
qed


text \<open>
  Whatever \<open>applySelfUpdate\<close> launches was downloaded with the checksum of the manifest and
  signed, the gate was granted, and the attempt is in the store.
\<close>

definition apart :: "'b service_setup \<Rightarrow> string \<Rightarrow> bool" where
  "apart u path \<longleftrightarrow> path \<noteq> se_cachePath u \<and> path \<noteq> se_prevPath u"

definition gate_open :: "'b cyc_env \<Rightarrow> point \<Rightarrow> gate \<Rightarrow> bool" where
  "gate_open e pt g \<longleftrightarrow>
     \<not> (ga_pending (xe_interfere e pt g) \<and> xe_clock e pt < ga_deadline (xe_interfere e pt g))"

lemma retireCache_frame: "q \<noteq> path \<Longrightarrow> q \<noteq> prev \<Longrightarrow> fst (retireCache s path prev f) q = f q"
  by (auto simp: retireCache_def rename_def split: option.splits)

lemma begin_install_open: "begin_install e pt w = (True, w') \<Longrightarrow> gate_open e pt (wd_gate w)"
  by (auto simp: begin_install_def gate_open_def gate_defs Let_def split: if_splits prod.splits)

lemma applySelfUpdate_launch:
  assumes "applySelfUpdate u e m attempt w = (launched, w')"
    and "apart u (SetupPath (se_selfDownloads u) (um_Version m))"
  shows "if launched
    then \<exists>b r. wd_did w' = wd_did w @ [LaunchedSelf (um_Version m) b] \<and>
        um_SHA256 m \<noteq> [] \<and> EqualFold (se_sha u b) (um_SHA256 m) \<and> xe_signed e b \<and>
        gate_open e PSelfInstall (wd_gate w) \<and>
        wd_self w' = Some r \<and> su_Version r = um_Version m \<and> su_Attempts r = attempt
    else wd_did w' = wd_did w"
proof -
  let ?p = "SetupPath (se_selfDownloads u) (um_Version m)"
  obtain f res where en: "Ensure (se_sha u) (se_selfDownloads u) (xe_sdl e) (um_Target m) (wd_files w) = (f, res)"
    by (cases "Ensure (se_sha u) (se_selfDownloads u) (xe_sdl e) (um_Target m) (wd_files w)")
  show ?thesis
  proof (cases res)
    case (Inl err)
    then show ?thesis using assms en by (auto simp: applySelfUpdate_def Let_def frame_simps)
  next
    case (Inr path)
    have p: "path = ?p" and v: "verified (se_sha u) f ?p (um_SHA256 m)"
      using Ensure_result [OF en [unfolded Inr]] by (auto simp: um_Target_def)
    then obtain b where b: "f ?p = Some b" "um_SHA256 m \<noteq> []" "EqualFold (se_sha u b) (um_SHA256 m)"
      by (auto simp: verified_def)
    obtain granted w1 where g: "begin_install e PSelfInstall (w\<lparr>wd_files := f\<rparr>) = (granted, w1)"
      by (cases "begin_install e PSelfInstall (w\<lparr>wd_files := f\<rparr>)")
    have w1: "wd_files w1 = f" "wd_did w1 = wd_did w"
      using begin_install_frame(1,4) [of e PSelfInstall "w\<lparr>wd_files := f\<rparr>"] g by simp_all
    have kept: "fst (retireCache s (se_cachePath u) (se_prevPath u) f) ?p = Some b" for s
      using retireCache_frame [of ?p "se_cachePath u" "se_prevPath u" s f] assms(2) b(1) by (simp add: apart_def)
    have op: "gate_open e PSelfInstall (wd_gate w)" if granted using begin_install_open g that by fastforce
    show ?thesis
    proof (cases "granted \<and> xe_signed e b \<and> xe_write_ok e WSelfAttempt")
      case True
      then show ?thesis
        using assms(1) en Inr g w1 p b kept op
        by (cases "xe_launch_ok e") (auto simp: applySelfUpdate_def Let_def frame_simps)
    next
      case False
      then show ?thesis
        using assms(1) en Inr g w1 p b
        by (auto simp: applySelfUpdate_def Let_def frame_simps split: if_splits)
    qed
  qed
qed

text \<open>The handler in terms of its decision, once the feature is enabled.\<close>

lemma selfUpdate_cases:
  assumes "selfUpdate u e cyc w = (launched, w')" "tg_Enabled (us_SelfUpdate (d_Updater (e_Doc (cy_eff cyc))))"
    and "reconcile_world u e w = (rec, w1)"
  obtains (unresolved) "self_manifest u e cyc w = None" "\<not> launched" "wd_self w' = wd_self w1" "wd_did w' = wd_did w1"
  | (bad) m err where "self_manifest u e cyc w = Some m" "Decide (se_lib u) (se_version u) (Some m) rec (xe_now e) = Inl err"
      "\<not> launched" "wd_self w' = wd_self w1" "wd_did w' = wd_did w1"
  | (give_up) m d where "self_manifest u e cyc w = Some m" "Decide (se_lib u) (se_version u) (Some m) rec (xe_now e) = Inr d"
      "de_GiveUp d" "\<not> launched" "wd_did w' = wd_did w1"
      "wd_self w' = (if xe_write_ok e WSelfGiveUp \<and> rec \<noteq> None then map_option (\<lambda>r. r\<lparr>su_GaveUp := True\<rparr>) rec else wd_self w1)"
  | (idle) m d where "self_manifest u e cyc w = Some m" "Decide (se_lib u) (se_version u) (Some m) rec (xe_now e) = Inr d"
      "\<not> de_GiveUp d" "\<not> de_Install d" "\<not> launched" "wd_self w' = wd_self w1" "wd_did w' = wd_did w1"
  | (install) m d w2 where "self_manifest u e cyc w = Some m"
      "Decide (se_lib u) (se_version u) (Some m) rec (xe_now e) = Inr d" "\<not> de_GiveUp d" "de_Install d"
      "applySelfUpdate u e m (de_Attempt d) w2 = (launched, w')" "wd_self w2 = wd_self w1" "wd_did w2 = wd_did w1"
      "wd_gate w2 = wd_gate w1"
proof -
  obtain res pref where r: "resolveUpdaterManifestWith (se_lib u) (se_join u) (se_cfg u) (xe_ufetch e) cyc True (wd_pref w1) = (res, pref)"
    by (cases "resolveUpdaterManifestWith (se_lib u) (se_join u) (se_cfg u) (xe_ufetch e) cyc True (wd_pref w1)")
  show thesis
  proof (cases res)
    case (Inl err)
    show thesis
      by (rule unresolved) (use assms r Inl in \<open>auto simp: selfUpdate_def self_manifest_def Let_def\<close>)
  next
    case (Inr x)
    obtain src m url where x: "x = (src, m, url)" by (cases x)
    have m: "self_manifest u e cyc w = Some m" using assms(3) r Inr x by (simp add: self_manifest_def)
    note h = assms(1) [unfolded selfUpdate_def Let_def, simplified assms(2,3) r Inr x if_True simp_thms prod.case sum.case]
    show thesis
    proof (cases "Decide (se_lib u) (se_version u) (Some m) rec (xe_now e)")
      case (Inl err)
      show thesis by (rule bad [OF m Inl]) (use h Inl in auto)
    next
      case d: (Inr d)
      consider "de_GiveUp d" | "\<not> de_GiveUp d" "\<not> de_Install d" | "\<not> de_GiveUp d" "de_Install d" by blast
      then show thesis
      proof cases
        case 1
        show thesis
          by (rule give_up [OF m d 1]) (use h d 1 in \<open>auto simp: Let_def frame_simps split: option.splits if_splits\<close>)
      next
        case 2
        show thesis by (rule idle [OF m d 2]) (use h d 2 in auto)
      next
        case 3
        show thesis
          by (rule install [OF m d 3, of "announce (announceUpdate ''updater'' (um_Version m)) (w1\<lparr>wd_pref := pref\<rparr>)"])
             (use h d 3 in \<open>simp_all add: frame_simps\<close>)
      qed
    qed
  qed
qed


lemma selfUpdate_disabled:
  "\<not> tg_Enabled (us_SelfUpdate (d_Updater (e_Doc (cy_eff cyc)))) \<Longrightarrow> selfUpdate u e cyc w = (False, w)"
  by (simp add: selfUpdate_def)

lemma reconcile_world_gate: "wd_gate (snd (reconcile_world u e w)) = wd_gate w"
  by (simp add: reconcile_world_def Let_def frame_simps case_prod_unfold split: option.splits sum.splits outcome.splits)

lemma selfUpdate_simulates:
  assumes "selfUpdate u e cyc w = (launched, w')" "tg_Enabled (us_SelfUpdate (d_Updater (e_Doc (cy_eff cyc))))"
  shows "\<exists>prepared store_ok launch_ok.
    self_cycle (se_lib u) (self_input u e cyc w prepared store_ok launch_ok) (wd_self w) = (wd_self w', launched)"
proof -
  obtain rec w1 where rw: "reconcile_world u e w = (rec, w1)" by (cases "reconcile_world u e w")
  note rc = reconcile_world_refines(1) [OF rw]
  show ?thesis
    using assms(1,2) rw
  proof (cases rule: selfUpdate_cases)
    case unresolved
    then show ?thesis using rc by (simp add: self_cycle_def self_input_def Decide_def Offered_def no_install_def)
  next
    case (bad m err)
    then show ?thesis using rc by (simp add: self_cycle_def self_input_def)
  next
    case (give_up m d)
    have "self_cycle (se_lib u) (self_input u e cyc w False (xe_write_ok e WSelfGiveUp) False) (wd_self w) = (wd_self w', launched)"
      using rc give_up by (simp add: self_cycle_def self_input_def)
    then show ?thesis by blast
  next
    case (idle m d)
    then show ?thesis using rc by (simp add: self_cycle_def self_input_def)
  next
    case (install m d w2)
    consider "wd_self w' = wd_self w2" "\<not> launched"
      | "wd_self w' = Some \<lparr>su_Version = um_Version m, su_FromVersion = se_version u,
           su_SetupPath = SetupPath (se_selfDownloads u) (um_Version m), su_SHA256 = um_SHA256 m, su_Attempts = de_Attempt d,
           su_GaveUp = False, su_LaunchedAt = xe_launched e\<rparr>"
      using applySelfUpdate_refines [OF install(5)] by blast
    then show ?thesis
    proof cases
      case 1
      have "self_cycle (se_lib u) (self_input u e cyc w False False False) (wd_self w) = (wd_self w', launched)"
        using rc install 1 by (simp add: self_cycle_def self_input_def)
      then show ?thesis by blast
    next
      case 2
      have "self_cycle (se_lib u) (self_input u e cyc w True True launched) (wd_self w) = (wd_self w', launched)"
        using rc install 2 by (simp add: self_cycle_def self_input_def)
      then show ?thesis by blast
    qed
  qed
qed

text \<open>What the handler runs, and what it leaves alone.\<close>

lemma selfUpdate_launch:
  assumes "selfUpdate u e cyc w = (launched, w')"
    and "\<forall>v. apart u (SetupPath (se_selfDownloads u) v)"
  shows "if launched
    then \<exists>m b r. self_manifest u e cyc w = Some m \<and> wd_did w' = wd_did w @ [LaunchedSelf (um_Version m) b] \<and>
      um_SHA256 m \<noteq> [] \<and> EqualFold (se_sha u b) (um_SHA256 m) \<and> xe_signed e b \<and>
      Less (se_lib u) (se_version u) (um_Version m) = Inr True \<and> gate_open e PSelfInstall (wd_gate w) \<and>
      wd_self w' = Some r \<and> su_Version r = um_Version m
    else wd_did w' = wd_did w"
proof (cases "tg_Enabled (us_SelfUpdate (d_Updater (e_Doc (cy_eff cyc))))")
  case False
  then show ?thesis using assms(1) selfUpdate_disabled [OF False, of u e w] by auto
next
  case True
  obtain rec w1 where rw: "reconcile_world u e w = (rec, w1)" by (cases "reconcile_world u e w")
  have did: "wd_did w1 = wd_did w" using reconcile_world_refines(2) [OF rw] .
  have gate: "wd_gate w1 = wd_gate w" using reconcile_world_gate [of u e w] rw by simp
  from assms(1) True rw show ?thesis
  proof (cases rule: selfUpdate_cases)
    case (install m d w2)
    have "Less (se_lib u) (se_version u) (um_Version m) = Inr True" using Decide_Install [OF install(2,4)] by simp
    then show ?thesis
      using applySelfUpdate_launch [OF install(5)] assms(2) did gate install by (cases launched) auto
  qed (use did in auto)
qed

lemma applySelfUpdate_frame:
  "wd_pending (snd (applySelfUpdate u e m attempt w)) = wd_pending w"
  "wd_emly (snd (applySelfUpdate u e m attempt w)) = wd_emly w"
  by (simp_all add: applySelfUpdate_def Let_def frame_simps case_prod_unfold split: sum.splits option.splits)

lemma selfUpdate_frame:
  "wd_pending (snd (selfUpdate u e cyc w)) = wd_pending w" "wd_emly (snd (selfUpdate u e cyc w)) = wd_emly w"
proof -
  have r: "wd_pending (snd (reconcile_world u e w)) = wd_pending w" "wd_emly (snd (reconcile_world u e w)) = wd_emly w"
    by (simp_all add: reconcile_world_def Let_def frame_simps case_prod_unfold split: option.splits sum.splits outcome.splits)
  show "wd_pending (snd (selfUpdate u e cyc w)) = wd_pending w" "wd_emly (snd (selfUpdate u e cyc w)) = wd_emly w"
    by (simp_all add: selfUpdate_def Let_def frame_simps case_prod_unfold applySelfUpdate_frame r
        split: sum.splits option.splits)
qed

section \<open>Many cycles\<close>

text \<open>
  The handler over the life of a machine. Each run has its own binary, environment and
  world, since a launch restarts the service; only the record in the state file is
  carried over.
\<close>

type_synonym 'b self_run = "'b service_setup \<times> 'b cyc_env \<times> cycle_state \<times> 'b world"

fun self_runs :: "'b self_run list \<Rightarrow> self_update option \<Rightarrow> self_update option \<times> nat" where
  "self_runs [] rec = (rec, 0)"
| "self_runs ((u, e, cyc, w) # rs) rec =
     (let (launched, w') = selfUpdate u e cyc (w\<lparr>wd_self := rec\<rparr>);
          (rec', n) = self_runs rs (wd_self w')
      in (rec', if launched then Suc n else n))"

text \<open>
  A run against a server that offers version \<open>v\<close>, or answers nothing, on a machine that
  does not have it yet. What is asked of the record's own field is irrelevant, since
  resolving the manifest does not look at it.
\<close>

definition pushes :: "golib \<Rightarrow> string \<Rightarrow> 'b self_run \<Rightarrow> bool" where
  "pushes L v run =
     (case run of (u, e, cyc, w) \<Rightarrow>
        se_lib u = L \<and> xe_load_ok e \<and> Less L (se_version u) v = Inr True \<and>
        (\<forall>rec m. self_manifest u e cyc (w\<lparr>wd_self := rec\<rparr>) = Some m \<longrightarrow> um_Version m = v))"

lemma selfUpdate_budget:
  assumes "v \<noteq> []" "pushes L v (u, e, cyc, w)" "selfUpdate u e cyc (w\<lparr>wd_self := rec\<rparr>) = (launched, w')"
  shows "budget v (wd_self w') + (if launched then 1 else 0) \<le> budget v rec"
proof (cases "tg_Enabled (us_SelfUpdate (d_Updater (e_Doc (cy_eff cyc))))")
  case False
  then show ?thesis using assms(3) selfUpdate_disabled [OF False, of u e] by auto
next
  case True
  let ?w = "w\<lparr>wd_self := rec\<rparr>"
  obtain p s l where c: "self_cycle (se_lib u) (self_input u e cyc ?w p s l) (wd_self ?w) = (wd_self w', launched)"
    using selfUpdate_simulates [OF assms(3) True] by blast
  have "offers v (self_input u e cyc ?w p s l)" "not_landed (se_lib u) v (self_input u e cyc ?w p s l)"
    "ci_load_ok (self_input u e cyc ?w p s l)"
    using assms(2) by (auto simp: pushes_def offers_def not_landed_def self_input_def)
  from self_cycle_budget [OF assms(1) this c] show ?thesis by simp
qed

section \<open>Properties\<close>


text \<open>
  C10: The self-update handler refines its abstract cycle. Whatever happens inside it, the
  attempt record it leaves in the state file and whether it launched a setup are those
  of one step of \<open>self_cycle\<close> on the manifest it resolved, the rules of \<^verbatim>\<open>Reconcile\<close> and
  \<^verbatim>\<open>Decide\<close> and nothing else; switched off by the policy, it does nothing at all.
\<close>

theorem selfUpdate_refines_self_cycle:
  assumes "selfUpdate u e cyc w = (launched, w')"
  shows "if tg_Enabled (us_SelfUpdate (d_Updater (e_Doc (cy_eff cyc))))
    then \<exists>prepared store_ok launch_ok.
      self_cycle (se_lib u) (self_input u e cyc w prepared store_ok launch_ok) (wd_self w) = (wd_self w', launched)
    else \<not> launched \<and> w' = w"
  using selfUpdate_simulates [OF assms] selfUpdate_disabled [of cyc u e w] assms by auto

text \<open>
  C3: Only a genuine, newer updater is ever run. When the handler reports a launch, it
  ran exactly one file: the bytes have the checksum of the manifest it resolved, the
  signature check accepted them, the version is newer than the running one, no restart
  or reboot was committed when the install gate was asked, and the attempt is on
  disk; when it does not report a launch, it ran nothing.
\<close>

theorem selfUpdate_launches_verified:
  assumes "selfUpdate u e cyc w = (launched, w')"
    and "\<forall>v. apart u (SetupPath (se_selfDownloads u) v)"
  shows "if launched
    then \<exists>m b r. self_manifest u e cyc w = Some m \<and> wd_did w' = wd_did w @ [LaunchedSelf (um_Version m) b] \<and>
      um_SHA256 m \<noteq> [] \<and> EqualFold (se_sha u b) (um_SHA256 m) \<and> xe_signed e b \<and>
      Less (se_lib u) (se_version u) (um_Version m) = Inr True \<and> gate_open e PSelfInstall (wd_gate w) \<and>
      wd_self w' = Some r \<and> su_Version r = um_Version m
    else wd_did w' = wd_did w"
  by (rule selfUpdate_launch [OF assms])

section \<open>Witnesses\<close>

lemma demo_selfUpdate:
  "fst (selfUpdate demo_setup demo_cyc_env demo_cycle_state demo_world)"
  by code_simp

lemma demo_apart: "apart demo_setup (SetupPath (se_selfDownloads demo_setup) v)"
  by (simp add: apart_def demo_setup_def SetupPath_def in_dir_def)

lemma resolveWith_always:
  assumes "\<forall>s. re_fetch E s 0 = Inr d"
  shows "rd_result (resolveWith E r) = Inr (rv_Primary r, d)"
proof -
  obtain n where "effective_attempts (rv_Attempts r) = Suc n"
    by (cases "effective_attempts (rv_Attempts r)") (auto simp: effective_attempts_def split: if_splits)
  then show ?thesis using assms by (simp add: resolveWith_def)
qed

lemma self_manifest_always:
  assumes "xe_ufetch e = always m" "cf_SelfUpdateManifestURL (se_cfg u) \<noteq> []"
  shows "self_manifest u e cyc w = Some m"
  unfolding self_manifest_def resolveUpdaterManifestWith_def Let_def case_prod_unfold
  by (subst resolveWith_always [where d = "(m, cf_SelfUpdateManifestURL (se_cfg u))"])
     (use assms in \<open>simp_all add: updater_env_def UpdaterManifestURL_def always_def\<close>)

lemma demo_self_facts:
  "xe_ufetch demo_cyc_env = always demo_release" "cf_SelfUpdateManifestURL (se_cfg demo_setup) \<noteq> []"
  "wd_did demo_world = []" "wd_self demo_world = None" "um_Version demo_release = ''1.10''" "um_SHA256 demo_release = ''ab''"
  "se_sha demo_setup = id" "se_lib demo_setup = demo_versions" "se_version demo_setup = ''1.9''" "xe_load_ok demo_cyc_env"
  by (simp_all add: demo_cyc_env_def demo_setup_def demo_world_def demo_release_def)

theorem selfUpdate_launches_verified_witness:
  "\<exists>b. wd_did (snd (selfUpdate demo_setup demo_cyc_env demo_cycle_state demo_world)) = [LaunchedSelf ''1.10'' b] \<and>
     EqualFold b ''ab''"
  using selfUpdate_launches_verified [OF prod.collapse [symmetric, of "selfUpdate demo_setup demo_cyc_env demo_cycle_state demo_world"]]
    demo_apart demo_selfUpdate self_manifest_always [OF demo_self_facts(1,2)]
  by (auto simp: demo_self_facts)

theorem selfUpdate_refines_self_cycle_witness:
  "\<exists>prepared store_ok launch_ok. self_cycle demo_versions
     (self_input demo_setup demo_cyc_env demo_cycle_state demo_world prepared store_ok launch_ok) None =
     (wd_self (snd (selfUpdate demo_setup demo_cyc_env demo_cycle_state demo_world)), True)"
proof -
  have "tg_Enabled (us_SelfUpdate (d_Updater (e_Doc (cy_eff demo_cycle_state))))" by code_simp
  then show ?thesis
    using selfUpdate_refines_self_cycle [OF prod.collapse [symmetric, of "selfUpdate demo_setup demo_cyc_env demo_cycle_state demo_world"]]
      demo_selfUpdate
    by (simp add: demo_self_facts)
qed

definition demo_self_run :: "time \<Rightarrow> string self_run" where
  "demo_self_run t = (demo_setup, demo_cyc_env\<lparr>xe_now := t, xe_launched := t\<rparr>, demo_cycle_state, demo_world)"


end
