(* ===== verification/Machine.thy ===== *)
theory Machine
  imports PowerGate GoLib
begin

text \<open>
  \<^verbatim>\<open>internal/machineinfo\<close>: the facts the service reports about its machine. What Windows
  answers (the output of a command, a registry value, a session record) is an argument;
  how the program reads it is modelled: firmware strings and the hardware id, the
  Windows version text, the network addresses, the session of the interactive user and
  the bytes of a session record.
\<close>

section \<open>Strings\<close>

definition upper_char :: "char \<Rightarrow> char" where
  "upper_char c = (let n = of_char c :: nat in if 97 \<le> n \<and> n \<le> 122 then char_of (n - 32) else c)"

definition ToUpper :: "string \<Rightarrow> string" where
  "ToUpper s = map upper_char s"

text \<open>\<^verbatim>\<open>strings.Split\<close> on a one-character separator.\<close>

fun Split :: "char \<Rightarrow> string \<Rightarrow> string list" where
  "Split c [] = [[]]"
| "Split c (x # s) = (if x = c then [] # Split c s else case Split c s of [] \<Rightarrow> [[x]] | f # fs \<Rightarrow> (x # f) # fs)"

definition TrimPrefix :: "string \<Rightarrow> string \<Rightarrow> string" where
  "TrimPrefix s p = (if HasPrefix s p then drop (length p) s else s)"

definition header_char :: "char \<Rightarrow> bool" where
  "header_char c \<longleftrightarrow> \<not> (of_char c < (0x20::nat) \<or> of_char c = (0x7f::nat))"

definition sanitizeHeaderValue :: "string \<Rightarrow> string" where
  "sanitizeHeaderValue s = filter header_char s"

section \<open>The hardware id\<close>

definition normalizeUUID :: "string \<Rightarrow> string" where
  "normalizeUUID s =
     (let u = ToUpper (TrimSpace s)
      in if u \<in> {[], ''00000000-0000-0000-0000-000000000000'', ''FFFFFFFF-FFFF-FFFF-FFFF-FFFFFFFFFFFF''} then [] else u)"

fun wmic_lines :: "string list \<Rightarrow> string" where
  "wmic_lines [] = []"
| "wmic_lines (l # ls) =
     (let line = TrimSpace l
      in if line = [] \<or> EqualFold line ''UUID'' then wmic_lines ls else normalizeUUID line)"

definition parseWMICUUID :: "string \<Rightarrow> string" where
  "parseWMICUUID out = wmic_lines (Split (CHR 0x0A) out)"

text \<open>The output of the two commands, \<open>None\<close> when one fails.\<close>

definition smbiosUUID :: "string option \<Rightarrow> string option \<Rightarrow> string" where
  "smbiosUUID wmic powershell =
     (let u = (case wmic of None \<Rightarrow> [] | Some out \<Rightarrow> parseWMICUUID out)
      in if u \<noteq> [] then u else case powershell of None \<Rightarrow> [] | Some out \<Rightarrow> normalizeUUID out)"

text \<open>\<open>protected_id\<close> is the answer of the \<^verbatim>\<open>machineid\<close> package.\<close>

definition hardwareID :: "string option \<Rightarrow> string option \<Rightarrow> string option \<Rightarrow> string option" where
  "hardwareID wmic powershell protected_id =
     (let uuid = smbiosUUID wmic powershell in if uuid \<noteq> [] then Some uuid else protected_id)"

section \<open>Firmware identifiers\<close>

definition firmwarePlaceholders :: "string list" where
  "firmwarePlaceholders =
     ['''', ''0'', ''N/A'', ''NA'', ''NONE'', ''NULL'', ''INVALID'', ''DEFAULT STRING'', ''NOT SPECIFIED'',
      ''NOT APPLICABLE'', ''NOT AVAILABLE'', ''UNKNOWN'', ''SYSTEM SERIAL NUMBER'', ''CHASSIS SERIAL NUMBER'',
      ''BASE BOARD SERIAL NUMBER'', ''TO BE FILLED BY O.E.M.'', ''TO BE FILLED BY O.E.M'', ''SYSTEM SKU NUMBER'',
      ''SKU'', ''SKUNUMBER'', ''OEM'', ''O.E.M.'', ''OEM SERIAL NUMBER'', ''SERIAL NUMBER'', ''PRODUCT NUMBER'',
      ''FILLED BY O.E.M.'', ''DEFAULT STRING SKU NUMBER'']"

definition normalizeFirmwareValue :: "string \<Rightarrow> string" where
  "normalizeFirmwareValue s =
     (let v = TrimSpace (sanitizeHeaderValue s) in if ToUpper v \<in> set firmwarePlaceholders then [] else v)"

record firmware =
  fw_serial :: string
  fw_sku :: string
  fw_sysSKU :: string

definition firmware_line :: "string \<Rightarrow> firmware \<Rightarrow> firmware" where
  "firmware_line l f =
     (let line = TrimSpace l in
      if HasPrefix line ''SERIAL='' then f\<lparr>fw_serial := normalizeFirmwareValue (TrimPrefix line ''SERIAL='')\<rparr>
      else if HasPrefix line ''SKU='' then f\<lparr>fw_sku := normalizeFirmwareValue (TrimPrefix line ''SKU='')\<rparr>
      else if HasPrefix line ''SYSSKU='' then f\<lparr>fw_sysSKU := normalizeFirmwareValue (TrimPrefix line ''SYSSKU='')\<rparr>
      else f)"

definition firmwareIdentifiers :: "string option \<Rightarrow> string \<times> string" where
  "firmwareIdentifiers output =
     (case output of
        None \<Rightarrow> ([], [])
      | Some out \<Rightarrow>
          (let f = fold firmware_line (Split (CHR 0x0A) out) \<lparr>fw_serial = [], fw_sku = [], fw_sysSKU = []\<rparr>
           in (fw_serial f, if fw_sku f \<noteq> [] then fw_sku f else fw_sysSKU f)))"

section \<open>The Windows version\<close>

text \<open>The values of the registry key, empty or zero when missing.\<close>

record windows_key =
  wk_ProductName :: string
  wk_CurrentBuild :: string
  wk_UBR :: "64 word"
  wk_DisplayVersion :: string
  wk_EditionID :: string

definition getWindowsVersionInfo :: "windows_key \<Rightarrow> string" where
  "getWindowsVersionInfo k =
     (let product = wk_ProductName k; edition = wk_EditionID k; display = wk_DisplayVersion k;
          product = (if edition \<noteq> [] then product @ '' '' @ edition else product);
          product = (if HasPrefix display ''2'' \<and> TrimSpace (takeWhile (\<lambda>c. c \<noteq> CHR ''H'') display) \<ge> ''23''
                     then ''Windows 11'' else product)
      in product @ '' '' @ display @ '' '' @ edition @ '' (Build '' @ wk_CurrentBuild k @ ''.'' @
         Itoa (uint (wk_UBR k)) @ '')'')"

section \<open>Network interfaces\<close>

definition FlagUp :: "32 word" where "FlagUp = 1"
definition FlagLoopback :: "32 word" where "FlagLoopback = 4"

datatype net_addr = IPNetAddr ip | IPAddrAddr ip | OtherAddr

record interface =
  if_Name :: string
  if_Flags :: "32 word"
  if_MAC :: string
  if_Addrs :: "net_addr list option"

record net_interface =
  ni_Name :: string
  ni_MAC :: string
  ni_IPv4 :: "string list"
  ni_IPv6 :: "string list"

definition ip4_String :: "32 word \<Rightarrow> string" where
  "ip4_String w =
     Itoa (uint (drop_bit 24 w)) @ ''.'' @ Itoa (uint (drop_bit 16 w AND 0xFF)) @ ''.'' @
     Itoa (uint (drop_bit 8 w AND 0xFF)) @ ''.'' @ Itoa (uint (w AND 0xFF))"

text \<open>\<open>show6\<close> is \<^verbatim>\<open>IP.String\<close> of an address that is not IPv4.\<close>

definition add_addr :: "(128 word \<Rightarrow> string) \<Rightarrow> net_addr \<Rightarrow> net_interface \<Rightarrow> net_interface" where
  "add_addr show6 a n =
     (case a of
        IPNetAddr (IPv4 w) \<Rightarrow> n\<lparr>ni_IPv4 := ni_IPv4 n @ [ip4_String w]\<rparr>
      | IPNetAddr (IPv6 w) \<Rightarrow> n\<lparr>ni_IPv6 := ni_IPv6 n @ [show6 w]\<rparr>
      | _ \<Rightarrow> n)"

definition interface_up :: "interface \<Rightarrow> bool" where
  "interface_up i \<longleftrightarrow> if_Flags i AND FlagUp \<noteq> 0 \<and> if_Flags i AND FlagLoopback = 0"

definition interfacesFrom :: "(128 word \<Rightarrow> string) \<Rightarrow> interface list \<Rightarrow> net_interface list" where
  "interfacesFrom show6 ifs =
     map (\<lambda>i. fold (add_addr show6) (case if_Addrs i of None \<Rightarrow> [] | Some l \<Rightarrow> l)
                \<lparr>ni_Name = if_Name i, ni_MAC = ToUpper (if_MAC i), ni_IPv4 = [], ni_IPv6 = []\<rparr>)
       (filter interface_up ifs)"

definition NetworkInterfaces :: "(128 word \<Rightarrow> string) \<Rightarrow> interface list option \<Rightarrow> net_interface list" where
  "NetworkInterfaces show6 ifs = (case ifs of None \<Rightarrow> [] | Some l \<Rightarrow> interfacesFrom show6 l)"

definition IsLoopback4 :: "32 word \<Rightarrow> bool" where
  "IsLoopback4 w \<longleftrightarrow> drop_bit 24 w = 127"

fun addr_ip :: "net_addr \<Rightarrow> ip option" where
  "addr_ip (IPNetAddr i) = Some i"
| "addr_ip (IPAddrAddr i) = Some i"
| "addr_ip OtherAddr = None"

definition local_ip4 :: "net_addr \<Rightarrow> string list" where
  "local_ip4 a = (case addr_ip a of Some (IPv4 w) \<Rightarrow> if IsLoopback4 w then [] else [ip4_String w] | _ \<Rightarrow> [])"

definition LocalIPv4Addresses :: "interface list option \<Rightarrow> string list option" where
  "LocalIPv4Addresses ifs =
     (case ifs of
        None \<Rightarrow> None
      | Some l \<Rightarrow> Some (concat (map (\<lambda>i. case if_Addrs i of None \<Rightarrow> [] | Some as \<Rightarrow> concat (map local_ip4 as))
                          (filter interface_up l))))"

definition internalIP :: "interface list option \<Rightarrow> string option" where
  "internalIP ifs = (case LocalIPv4Addresses ifs of None \<Rightarrow> None | Some [] \<Rightarrow> Some [] | Some (x # _) \<Rightarrow> Some x)"

section \<open>The machine's identity\<close>

text \<open>What the calls of \<^verbatim>\<open>Collect\<close> answer.\<close>

record collect_env =
  ce_hostname :: "string option"
  ce_wmic :: "string option"
  ce_powershell :: "string option"
  ce_protected :: "string option"
  ce_domain :: "string option"
  ce_interfaces :: "interface list option"
  ce_windows :: windows_key
  ce_firmware :: "string option"

record info =
  in_Hostname :: string
  in_HWID :: string
  in_ADDomain :: string
  in_InternalIP :: string
  in_OSVersion :: string
  in_Serial :: string
  in_Product :: string

definition or_empty :: "string option \<Rightarrow> string" where
  "or_empty v = (case v of None \<Rightarrow> [] | Some s \<Rightarrow> s)"

text \<open>\<^verbatim>\<open>adDomain\<close>, given the output of the query.\<close>

definition adDomain :: "string option \<Rightarrow> string option" where
  "adDomain out = map_option TrimSpace out"

definition Collect_info :: "collect_env \<Rightarrow> info" where
  "Collect_info e =
     (let (serial, product) = firmwareIdentifiers (ce_firmware e)
      in \<lparr>in_Hostname = or_empty (ce_hostname e),
          in_HWID = or_empty (hardwareID (ce_wmic e) (ce_powershell e) (ce_protected e)),
          in_ADDomain = or_empty (adDomain (ce_domain e)),
          in_InternalIP = or_empty (internalIP (ce_interfaces e)),
          in_OSVersion = sanitizeHeaderValue (getWindowsVersionInfo (ce_windows e)),
          in_Serial = serial, in_Product = product\<rparr>)"

section \<open>Sessions\<close>

definition noActiveConsole :: "32 word" where "noActiveConsole = 0xFFFFFFFF"
definition WTSActive :: "32 word" where "WTSActive = 0"
definition WTSDisconnected :: "32 word" where "WTSDisconnected = 4"

record session_entry =
  se_ID :: "32 word"
  se_State :: "32 word"
  se_User :: string

record picked =
  pk_activeConsole :: "session_entry option"
  pk_active :: "session_entry option"
  pk_disconnected :: "session_entry option"

definition pick_step :: "32 word \<Rightarrow> session_entry \<Rightarrow> picked \<Rightarrow> picked" where
  "pick_step console e p =
     (if se_User e = [] then p
      else if se_State e = WTSActive \<and> console \<noteq> noActiveConsole \<and> se_ID e = console then p\<lparr>pk_activeConsole := Some e\<rparr>
      else if se_State e = WTSActive then (if pk_active p = None then p\<lparr>pk_active := Some e\<rparr> else p)
      else if se_State e = WTSDisconnected then (if pk_disconnected p = None then p\<lparr>pk_disconnected := Some e\<rparr> else p)
      else p)"

definition pickSession :: "session_entry list \<Rightarrow> 32 word \<Rightarrow> (session_entry \<times> session_state) option" where
  "pickSession entries console =
     (let p = fold (pick_step console) entries \<lparr>pk_activeConsole = None, pk_active = None, pk_disconnected = None\<rparr>
      in case pk_activeConsole p of
           Some e \<Rightarrow> Some (e, SessionActiveConsole)
         | None \<Rightarrow>
             (case pk_active p of
                Some e \<Rightarrow> Some (e, SessionActiveRDP)
              | None \<Rightarrow> map_option (\<lambda>e. (e, SessionDisconnected)) (pk_disconnected p)))"

text \<open>\<open>q id cls\<close>: the string Windows reports for a session, empty when the query fails.\<close>

datatype wts_class = WtsUserName | WtsDomainName

definition sessionUser :: "(32 word \<Rightarrow> wts_class \<Rightarrow> string) \<Rightarrow> 32 word \<Rightarrow> string" where
  "sessionUser q i =
     (let user = sanitizeHeaderValue (TrimSpace (q i WtsUserName)) in
      if user = [] then []
      else let domain = sanitizeHeaderValue (TrimSpace (q i WtsDomainName)) in
      if domain = [] \<or> EqualFold domain user then user else domain @ [CHR 0x5C] @ user)"

section \<open>Session records\<close>

definition wtsInfoExLevel1 :: "32 word" where "wtsInfoExLevel1 = 1"
definition wtsInfoExDataOffset :: nat where "wtsInfoExDataOffset = 8"
definition wtsInfoExDisconnectOff :: nat where "wtsInfoExDisconnectOff = wtsInfoExDataOffset + 176"
definition wtsInfoExCurrentOff :: nat where "wtsInfoExCurrentOff = wtsInfoExDataOffset + 192"
definition wtsInfoExMinSize :: nat where "wtsInfoExMinSize = wtsInfoExCurrentOff + 8"

definition le_Uint32 :: "8 word list \<Rightarrow> 32 word" where
  "le_Uint32 b = ucast (b ! 0) OR push_bit 8 (ucast (b ! 1)) OR push_bit 16 (ucast (b ! 2)) OR push_bit 24 (ucast (b ! 3))"

definition le_Uint64 :: "8 word list \<Rightarrow> 64 word" where
  "le_Uint64 b =
     ucast (b ! 0) OR push_bit 8 (ucast (b ! 1)) OR push_bit 16 (ucast (b ! 2)) OR push_bit 24 (ucast (b ! 3)) OR
     push_bit 32 (ucast (b ! 4)) OR push_bit 40 (ucast (b ! 5)) OR push_bit 48 (ucast (b ! 6)) OR push_bit 56 (ucast (b ! 7))"

text \<open>
  \<^verbatim>\<open>Filetime.Nanoseconds\<close> counts from 1970, a \<open>time\<close> of the model from the year 1; the
  product wraps as the 64-bit product of the code does.
\<close>

definition unix_epoch :: time where "unix_epoch = 62135596800 * Second"
definition filetime_epoch :: int where "filetime_epoch = 116444736000000000"

definition Filetime_Nanoseconds :: "32 word \<Rightarrow> 32 word \<Rightarrow> int" where
  "Filetime_Nanoseconds low high = wrap64 ((uint high * 2 ^ 32 + uint low - filetime_epoch) * 100)"

definition fileTimeToTime :: "64 word \<Rightarrow> time" where
  "fileTimeToTime ticks =
     (if sint ticks \<le> 0 then 0
      else unix_epoch + Filetime_Nanoseconds (ucast ticks) (ucast (signed_drop_bit 32 ticks)))"

record session_times =
  st_Disconnect :: time
  st_Current :: time

definition parseSessionInfoEx :: "8 word list \<Rightarrow> session_times option" where
  "parseSessionInfoEx buf =
     (if length buf < wtsInfoExMinSize \<or> le_Uint32 buf \<noteq> wtsInfoExLevel1 then None
      else Some \<lparr>st_Disconnect = fileTimeToTime (le_Uint64 (drop wtsInfoExDisconnectOff buf)),
                 st_Current = fileTimeToTime (le_Uint64 (drop wtsInfoExCurrentOff buf))\<rparr>)"

text \<open>The record Windows hands out for a session, \<open>None\<close> when the query fails.\<close>

definition sessionDisconnectTime :: "(32 word \<Rightarrow> 8 word list option) \<Rightarrow> 32 word \<Rightarrow> time" where
  "sessionDisconnectTime rec i =
     (case rec i of
        None \<Rightarrow> 0
      | Some buf \<Rightarrow> (case parseSessionInfoEx buf of None \<Rightarrow> 0 | Some t \<Rightarrow> st_Disconnect t))"

record user_session =
  us_User :: string
  us_State :: session_state
  us_DisconnectedAt :: time

definition nobody :: user_session where
  "nobody = \<lparr>us_User = [], us_State = SessionNone, us_DisconnectedAt = 0\<rparr>"

record wts =
  wt_sessions :: "(32 word \<times> 32 word) list option"
  wt_string :: "32 word \<Rightarrow> wts_class \<Rightarrow> string"
  wt_record :: "32 word \<Rightarrow> 8 word list option"
  wt_console :: "32 word"

definition InteractiveSession :: "wts \<Rightarrow> (32 word \<times> user_session) option" where
  "InteractiveSession w =
     (case wt_sessions w of
        None \<Rightarrow> None
      | Some ss \<Rightarrow>
          (case pickSession (map (\<lambda>(i, s). \<lparr>se_ID = i, se_State = s, se_User = sessionUser (wt_string w) i\<rparr>) ss) (wt_console w) of
             None \<Rightarrow> None
           | Some (e, state) \<Rightarrow>
               Some (se_ID e, \<lparr>us_User = se_User e, us_State = state,
                 us_DisconnectedAt = (if state = SessionDisconnected then sessionDisconnectTime (wt_record w) (se_ID e) else 0)\<rparr>)))"

definition LoggedUser :: "wts \<Rightarrow> user_session" where
  "LoggedUser w = (case InteractiveSession w of None \<Rightarrow> nobody | Some (_, us) \<Rightarrow> us)"

section \<open>System facts\<close>

record system_facts =
  sf_BootTime :: time
  sf_CPU :: string
  sf_Cores :: int
  sf_MemoryMB :: nat
  sf_SystemDriveTotalMB :: nat
  sf_SystemDriveFreeMB :: nat

record system_env =
  sy_cores :: int
  sy_ticks :: "64 word"
  sy_cpu :: "string option"
  sy_phys :: "64 word option"
  sy_disk :: "(64 word \<times> 64 word) option"

definition CollectSystemFacts :: "system_env \<Rightarrow> time \<Rightarrow> system_facts" where
  "CollectSystemFacts e now =
     (let boot = now + wrap64 (- sint (sy_ticks e) * Millisecond)
      in \<lparr>sf_BootTime = (if sy_ticks e = 0 then 0 else boot - boot mod Second),
          sf_CPU = TrimSpace (or_empty (sy_cpu e)), sf_Cores = sy_cores e,
          sf_MemoryMB = (case sy_phys e of None \<Rightarrow> 0 | Some m \<Rightarrow> unat m div 2 ^ 20),
          sf_SystemDriveTotalMB = (case sy_disk e of None \<Rightarrow> 0 | Some (tot, free) \<Rightarrow> unat tot div 2 ^ 20),
          sf_SystemDriveFreeMB = (case sy_disk e of None \<Rightarrow> 0 | Some (tot, free) \<Rightarrow> unat free div 2 ^ 20)\<rparr>)"

section \<open>Lemmas\<close>

abbreviation header_safe :: "string \<Rightarrow> bool" where
  "header_safe s \<equiv> list_all header_char s"

lemma TrimSpace_safe: "header_safe s \<Longrightarrow> header_safe (TrimSpace s)"
  by (auto simp: TrimSpace_def list_all_iff dest!: set_dropWhileD)

lemma sanitize_safe [simp]: "header_safe (sanitizeHeaderValue s)"
  by (simp add: sanitizeHeaderValue_def list_all_iff)

text \<open>A firmware value that may be reported.\<close>

definition usable :: "string \<Rightarrow> bool" where
  "usable v \<longleftrightarrow> header_safe v \<and> (v = [] \<or> ToUpper v \<notin> set firmwarePlaceholders)"

lemma normalizeFirmwareValue_usable: "usable (normalizeFirmwareValue s)"
  by (simp add: usable_def normalizeFirmwareValue_def Let_def TrimSpace_safe del: set_simps)

lemma firmware_fold_usable:
  "usable (fw_serial f) \<and> usable (fw_sku f) \<and> usable (fw_sysSKU f) \<Longrightarrow>
   usable (fw_serial (fold firmware_line ls f)) \<and> usable (fw_sku (fold firmware_line ls f)) \<and>
   usable (fw_sysSKU (fold firmware_line ls f))"
  by (induction ls arbitrary: f) (simp_all add: firmware_line_def Let_def normalizeFirmwareValue_usable)

lemma firmwareIdentifiers_usable: "usable (fst (firmwareIdentifiers out))" "usable (snd (firmwareIdentifiers out))"
proof -
  have "usable []" by (simp add: usable_def)
  then show "usable (fst (firmwareIdentifiers out))" "usable (snd (firmwareIdentifiers out))"
    using firmware_fold_usable [of "\<lparr>fw_serial = [], fw_sku = [], fw_sysSKU = []\<rparr>"]
    by (auto simp: firmwareIdentifiers_def Let_def split: option.splits)
qed

lemma sessionUser_safe: "header_safe (sessionUser q i)"
  by (simp add: sessionUser_def Let_def) (simp add: header_char_def)

text \<open>The three ranks of a session.\<close>

definition at_console :: "32 word \<Rightarrow> session_entry \<Rightarrow> bool" where
  "at_console console e \<longleftrightarrow> se_User e \<noteq> [] \<and> se_State e = WTSActive \<and> console \<noteq> noActiveConsole \<and> se_ID e = console"

definition attached :: "session_entry \<Rightarrow> bool" where
  "attached e \<longleftrightarrow> se_User e \<noteq> [] \<and> se_State e = WTSActive"

definition detached :: "session_entry \<Rightarrow> bool" where
  "detached e \<longleftrightarrow> se_User e \<noteq> [] \<and> se_State e = WTSDisconnected"

lemma find_append: "find P (xs @ ys) = (case find P xs of Some x \<Rightarrow> Some x | None \<Rightarrow> find P ys)"
  by (induction xs) auto

lemma find_SomeD: "find P xs = Some x \<Longrightarrow> P x \<and> x \<in> set xs"
  by (induction xs) (auto split: if_splits)

lemma find_rev_unique:
  assumes "\<And>x y. x \<in> set xs \<Longrightarrow> y \<in> set xs \<Longrightarrow> P x \<Longrightarrow> P y \<Longrightarrow> x = y"
  shows "find P (rev xs) = find P xs"
  using assms
proof (induction xs)
  case (Cons a xs)
  have IH: "find P (rev xs) = find P xs" by (rule Cons.IH) (use Cons.prems in auto)
  show ?case
  proof (cases "find P xs")
    case (Some x)
    then have "x \<in> set xs" "P x" by (auto simp: find_Some_iff)
    then show ?thesis using Cons.prems [of a x] IH Some by (auto simp: find_append)
  qed (simp add: find_append IH)
qed simp

lemma pick_fold:
  "pk_activeConsole (fold (pick_step console) es p) =
     (case find (at_console console) (rev es) of Some e \<Rightarrow> Some e | None \<Rightarrow> pk_activeConsole p)"
  "pk_active (fold (pick_step console) es p) =
     (case pk_active p of Some e \<Rightarrow> Some e | None \<Rightarrow> find (\<lambda>e. attached e \<and> \<not> at_console console e) es)"
  "pk_disconnected (fold (pick_step console) es p) =
     (case pk_disconnected p of Some e \<Rightarrow> Some e | None \<Rightarrow> find detached es)"
proof -
  show "pk_activeConsole (fold (pick_step console) es p) =
     (case find (at_console console) (rev es) of Some e \<Rightarrow> Some e | None \<Rightarrow> pk_activeConsole p)"
    by (induction es arbitrary: p)
      (auto simp: pick_step_def at_console_def find_append split: option.splits)
  show "pk_active (fold (pick_step console) es p) =
     (case pk_active p of Some e \<Rightarrow> Some e | None \<Rightarrow> find (\<lambda>e. attached e \<and> \<not> at_console console e) es)"
    by (induction es arbitrary: p)
      (auto simp: pick_step_def at_console_def attached_def split: option.splits)
  show "pk_disconnected (fold (pick_step console) es p) =
     (case pk_disconnected p of Some e \<Rightarrow> Some e | None \<Rightarrow> find detached es)"
    by (induction es arbitrary: p)
      (auto simp: pick_step_def detached_def WTSActive_def WTSDisconnected_def split: option.splits)
qed

lemma find_no_console:
  "find (at_console console) es = None \<Longrightarrow> find (\<lambda>e. attached e \<and> \<not> at_console console e) es = find attached es"
  by (induction es) (auto split: if_splits)

text \<open>The bytes of a 64-bit value, little end first.\<close>

definition le_bytes64 :: "64 word \<Rightarrow> 8 word list" where
  "le_bytes64 v = map (\<lambda>i. ucast (drop_bit (8 * i) v)) [0..<8]"

lemma le_bytes64_unfold:
  "le_bytes64 v = [ucast v, ucast (drop_bit 8 v), ucast (drop_bit 16 v), ucast (drop_bit 24 v),
     ucast (drop_bit 32 v), ucast (drop_bit 40 v), ucast (drop_bit 48 v), ucast (drop_bit 56 v)]"
  by (simp add: le_bytes64_def upt_rec)

lemma length_le_bytes64 [simp]: "length (le_bytes64 v) = 8"
  by (simp add: le_bytes64_def)

lemma le_Uint64_bytes: "le_Uint64 (le_bytes64 v @ rest) = v"
proof (rule bit_word_eqI)
  fix n assume "n < LENGTH(64)"
  then consider "n < 8" | "8 \<le> n" "n < 16" | "16 \<le> n" "n < 24" | "24 \<le> n" "n < 32"
    | "32 \<le> n" "n < 40" | "40 \<le> n" "n < 48" | "48 \<le> n" "n < 56" | "56 \<le> n" "n < 64" by fastforce
  then show "bit (le_Uint64 (le_bytes64 v @ rest)) n = bit v n"
    by cases (auto simp: le_Uint64_def le_bytes64_unfold bit_simps)
qed

lemma filetime_halves:
  fixes t :: "64 word"
  assumes "sint t > 0"
  shows "uint (ucast (signed_drop_bit 32 t) :: 32 word) * 2 ^ 32 + uint (ucast t :: 32 word) = sint t"
proof -
  have u: "uint x = sint x mod 2 ^ 64" for x :: "64 word" by (simp add: uint_sint take_bit_eq_mod)
  have lt: "sint t < 2 ^ 63" using sint_lt [of t] by simp
  have hi: "sint (signed_drop_bit 32 t) = sint t div 2 ^ 32" by (simp add: sint_signed_drop_bit_eq drop_bit_eq_div)
  have b: "0 \<le> sint t div 2 ^ 32" "sint t div 2 ^ 32 < 2 ^ 32" using assms lt by simp_all
  have "uint (ucast (signed_drop_bit 32 t) :: 32 word) = sint t div 2 ^ 32"
    using b by (simp add: unsigned_ucast_eq take_bit_eq_mod u hi)
  moreover have "uint (ucast t :: 32 word) = sint t mod 2 ^ 32"
    using assms lt by (simp add: unsigned_ucast_eq take_bit_eq_mod u)
  ultimately show ?thesis by simp
qed

lemma fileTimeToTime_exact:
  assumes "0 < sint t" "in_int64 ((sint t - filetime_epoch) * 100)"
  shows "fileTimeToTime t = unix_epoch + (sint t - filetime_epoch) * 100"
proof -
  have "fileTimeToTime t = unix_epoch + wrap64 ((sint t - filetime_epoch) * 100)"
    using assms(1) unfolding fileTimeToTime_def Filetime_Nanoseconds_def filetime_halves [OF assms(1)] by simp
  then show ?thesis using wrap64_id [OF assms(2)] by simp
qed

text \<open>Below release 23 the edition is part of the product already and appears twice.\<close>

lemma windows_edition_twice:
  assumes "wk_DisplayVersion k = ''22H2''" "wk_EditionID k \<noteq> []"
  shows "getWindowsVersionInfo k = wk_ProductName k @ '' '' @ wk_EditionID k @ '' 22H2 '' @ wk_EditionID k @
    '' (Build '' @ wk_CurrentBuild k @ ''.'' @ Itoa (uint (wk_UBR k)) @ '')''"
proof -
  have "TrimSpace (takeWhile (\<lambda>c. c \<noteq> CHR ''H'') ''22H2'') = ''22''" by code_simp
  moreover have "\<not> ''22'' \<ge> ''23''" by code_simp
  ultimately show ?thesis using assms by (simp add: getWindowsVersionInfo_def Let_def)
qed

section \<open>Properties\<close>

text \<open>
  What the machine reports about itself can always travel in a header. The Windows
  version, the firmware serial and product number and the name of the interactive user
  hold no control character, whatever Windows, the firmware or an account name contains;
  a serial or product number that is reported is not one of the placeholders vendors
  leave behind; and a user is reported together with a session state or not at all.
\<close>

theorem reported_values_safe:
  "header_safe (in_OSVersion (Collect_info e)) \<and> header_safe (us_User (LoggedUser w)) \<and>
   (\<forall>v \<in> {in_Serial (Collect_info e), in_Product (Collect_info e)}.
      header_safe v \<and> (v \<noteq> [] \<longrightarrow> ToUpper v \<notin> set firmwarePlaceholders)) \<and>
   (us_User (LoggedUser w) = [] \<longleftrightarrow> us_State (LoggedUser w) = SessionNone)"
proof (intro conjI)
  show "header_safe (in_OSVersion (Collect_info e))" by (simp add: Collect_info_def case_prod_beta)
  show "\<forall>v \<in> {in_Serial (Collect_info e), in_Product (Collect_info e)}.
      header_safe v \<and> (v \<noteq> [] \<longrightarrow> ToUpper v \<notin> set firmwarePlaceholders)"
    using firmwareIdentifiers_usable [of "ce_firmware e"]
    by (simp add: Collect_info_def case_prod_beta usable_def del: set_simps) blast
next
  have picked: "se_User p \<noteq> [] \<and> s \<noteq> SessionNone \<and> p \<in> set es" if "pickSession es console = Some (p, s)" for es console p s
    using that
    by (auto simp: pickSession_def Let_def pick_fold at_console_def attached_def detached_def dest!: find_SomeD split: option.splits)
  have "header_safe (us_User (LoggedUser w)) \<and> (us_User (LoggedUser w) = [] \<longleftrightarrow> us_State (LoggedUser w) = SessionNone)"
    by (auto simp: LoggedUser_def InteractiveSession_def nobody_def sessionUser_safe dest!: picked split: option.splits)
  then show "header_safe (us_User (LoggedUser w))"
    "us_User (LoggedUser w) = [] \<longleftrightarrow> us_State (LoggedUser w) = SessionNone" by blast+
qed

text \<open>
  The session that stands for the machine is the first of the best rank: the one at
  the console when somebody is logged on there, else the first attached one, else the
  first disconnected one, and none exactly when no session with a user is in any of
  these states. The single pass over the enumeration with its three slots computes
  this, given that Windows enumerates every session once.
\<close>

theorem pickSession_best:
  assumes "distinct (map se_ID entries)"
  shows "pickSession entries console =
    (case find (at_console console) entries of
       Some e \<Rightarrow> Some (e, SessionActiveConsole)
     | None \<Rightarrow>
         (case find attached entries of
            Some e \<Rightarrow> Some (e, SessionActiveRDP)
          | None \<Rightarrow> map_option (\<lambda>e. (e, SessionDisconnected)) (find detached entries)))"
proof -
  have "find (at_console console) (rev entries) = find (at_console console) entries"
  proof (rule find_rev_unique)
    fix x y assume "x \<in> set entries" "y \<in> set entries" "at_console console x" "at_console console y"
    then show "x = y" using assms by (auto simp: at_console_def distinct_map dest: inj_onD)
  qed
  then show ?thesis
    using find_no_console [of console entries]
    by (cases "find (at_console console) entries"; cases "find attached entries")
      (simp_all add: pickSession_def Let_def pick_fold)
qed

text \<open>
  The disconnect time is read from the right bytes at the right width. For a record of
  level 1 that holds the two times at their offsets, in 100-nanosecond ticks since 1601,
  the parser returns them; a time that is not positive means never; and a positive one is
  converted exactly as long as the number of nanoseconds since 1970 fits in 64 bits. A
  record that is too short or of another level is refused.
\<close>

theorem session_record_read:
  assumes "length pre = wtsInfoExDisconnectOff" "length mid = 8" "le_Uint32 pre = wtsInfoExLevel1"
  shows "parseSessionInfoEx (pre @ le_bytes64 d @ mid @ le_bytes64 c @ post) =
      Some \<lparr>st_Disconnect = fileTimeToTime d, st_Current = fileTimeToTime c\<rparr> \<and>
    (sint d \<le> 0 \<longrightarrow> is_zero_time (fileTimeToTime d)) \<and>
    (0 < sint d \<and> in_int64 ((sint d - filetime_epoch) * 100) \<longrightarrow>
       fileTimeToTime d = unix_epoch + (sint d - filetime_epoch) * 100) \<and>
    (\<forall>buf. length buf < wtsInfoExMinSize \<longrightarrow> parseSessionInfoEx buf = None)"
proof -
  note offs = wtsInfoExDisconnectOff_def wtsInfoExCurrentOff_def wtsInfoExDataOffset_def wtsInfoExMinSize_def
  have "le_Uint32 (pre @ le_bytes64 d @ mid @ le_bytes64 c @ post) = wtsInfoExLevel1"
    using assms by (simp add: le_Uint32_def nth_append offs)
  then have "parseSessionInfoEx (pre @ le_bytes64 d @ mid @ le_bytes64 c @ post) =
      Some \<lparr>st_Disconnect = fileTimeToTime d, st_Current = fileTimeToTime c\<rparr>"
    using assms(1,2) by (simp add: parseSessionInfoEx_def offs le_Uint64_bytes)
  then show ?thesis
    by (simp add: fileTimeToTime_exact parseSessionInfoEx_def) (simp add: fileTimeToTime_def is_zero_time_def)
qed

section \<open>Witnesses\<close>

definition demo_wts :: wts where
  "demo_wts = \<lparr>wt_sessions = Some [(1, 4), (2, 0)], wt_string = (\<lambda>i c. if c = WtsUserName then ''u'' else ''D''),
     wt_record = (\<lambda>_. None), wt_console = 1\<rparr>"

definition demo_collect :: collect_env where
  "demo_collect = \<lparr>ce_hostname = Some ''pc'', ce_wmic = None, ce_powershell = None, ce_protected = Some ''id'',
     ce_domain = None, ce_interfaces = None,
     ce_windows = \<lparr>wk_ProductName = ''W'', wk_CurrentBuild = ''1'', wk_UBR = 1, wk_DisplayVersion = ''24H2'', wk_EditionID = []\<rparr>,
     ce_firmware = Some ''SERIAL=77''\<rparr>"

theorem reported_values_safe_witness:
  "header_safe (in_Serial (Collect_info demo_collect)) \<and> in_Serial (Collect_info demo_collect) = ''77'' \<and>
   ToUpper (in_Serial (Collect_info demo_collect)) \<notin> set firmwarePlaceholders"
proof -
  have s: "in_Serial (Collect_info demo_collect) = ''77''"
    by (simp add: Collect_info_def demo_collect_def firmwareIdentifiers_def firmware_line_def TrimSpace_def is_space_char_def
        HasPrefix_def TrimPrefix_def normalizeFirmwareValue_def sanitizeHeaderValue_def header_char_def ToUpper_def
        upper_char_def firmwarePlaceholders_def Let_def case_prod_beta)
  have "header_safe (in_Serial (Collect_info demo_collect)) \<and>
      (in_Serial (Collect_info demo_collect) \<noteq> [] \<longrightarrow> ToUpper (in_Serial (Collect_info demo_collect)) \<notin> set firmwarePlaceholders)"
    by (rule bspec [OF conjunct1 [OF conjunct2 [OF conjunct2 [OF reported_values_safe [of demo_collect demo_wts]]]]])
      (rule insertI1)
  then show ?thesis unfolding s by (simp del: set_simps)
qed

theorem pickSession_best_witness:
  "pickSession [\<lparr>se_ID = 1, se_State = 4, se_User = ''a''\<rparr>, \<lparr>se_ID = 2, se_State = 0, se_User = ''b''\<rparr>] 1 =
     Some (\<lparr>se_ID = 2, se_State = 0, se_User = ''b''\<rparr>, SessionActiveRDP)"
  by (subst pickSession_best) (simp_all add: at_console_def attached_def WTSActive_def)

theorem session_record_read_witness:
  "parseSessionInfoEx ((1 # replicate 183 0) @ le_bytes64 116444736000000001 @ replicate 8 0 @ le_bytes64 0 @ []) =
     Some \<lparr>st_Disconnect = unix_epoch + 100, st_Current = 0\<rparr>"
proof -
  let ?d = "116444736000000001 :: 64 word"
  have s: "sint ?d = 116444736000000001" by simp
  have r: "in_int64 ((sint ?d - filetime_epoch) * 100)" unfolding s
    by (simp add: filetime_epoch_def in_int64_def min_int64_def max_int64_def)
  have l: "length (1 # replicate 183 (0 :: 8 word)) = wtsInfoExDisconnectOff" "length (replicate 8 (0 :: 8 word)) = 8"
    by (simp_all add: wtsInfoExDisconnectOff_def wtsInfoExDataOffset_def)
  have e: "le_Uint32 (1 # replicate 183 0) = wtsInfoExLevel1"
    by (simp add: le_Uint32_def wtsInfoExLevel1_def)
  note t = session_record_read [OF l e, of ?d 0 "[]"]
  have "fileTimeToTime ?d = unix_epoch + (sint ?d - filetime_epoch) * 100"
    by (rule conjunct1 [OF conjunct2 [OF conjunct2 [OF t]], THEN mp]) (use r in \<open>simp add: s\<close>)
  then show ?thesis unfolding conjunct1 [OF t] s by (simp add: filetime_epoch_def fileTimeToTime_def)
qed

end
