(* ===== verification/CommandLine.thy ===== *)
theory CommandLine
  imports Config SelfHeal
begin

text \<open>
  \<^verbatim>\<open>main.go\<close>: the subcommands that register, start, stop, restart and remove the service, the
  foreground run and the start under the service control manager. The manager's database,
  the files and the certificate stores are the state; whether a call of Windows succeeds is
  the environment's.
\<close>

section \<open>The service control manager\<close>

datatype start_type = StartAutomatic | StartOther nat

record svc_config =
  vc_StartType :: start_type
  vc_DelayedAutoStart :: bool
  vc_Dependencies :: "string list"
  vc_DisplayName :: string
  vc_Description :: string
  vc_ErrorControl :: nat
  vc_BinaryPathName :: string
  vc_StartName :: string

datatype recovery_action = ServiceRestart duration | OtherAction

datatype svc_state = SvcStopped | SvcRunning | SvcOther nat

record 'b host_machine =
  hm_files :: "'b fs"
  hm_stores :: "string cert_stores"
  hm_service :: "svc_config option"
  hm_recovery :: "recovery_action list"
  hm_recoveryReset :: int
  hm_state :: svc_state
  hm_eventSource :: bool

datatype main_error =
    DirsFailed | ResetFailed | NoExecutable | NoManager | NotInstalled | ConfigUnreadable | UpdateConfigFailed
  | CreateFailed | RecoveryFailed | DeleteFailed | StartFailed | ControlFailed | DidNotStop | QueryFailed
  | MutexFailed | AlreadyRunning | ConfigInvalid

section \<open>Starting and stopping\<close>

definition cmdStart :: "bool \<Rightarrow> bool \<Rightarrow> 'b host_machine \<Rightarrow> main_error option \<times> 'b host_machine" where
  "cmdStart connects starts m =
     (if \<not> connects then (Some NoManager, m)
      else if hm_service m = None then (Some NotInstalled, m)
      else if \<not> starts then (Some StartFailed, m)
      else (None, m\<lparr>hm_state := SvcRunning\<rparr>))"

definition stopTimeout :: duration where "stopTimeout = 60 * Second"

definition stopPoll :: duration where "stopPoll = 500 * (Second div 1000)"

text \<open>
  The loop of \<^verbatim>\<open>cmdStop\<close>: each poll with the time it is made at and the state the manager then
  answers, or an error. \<open>None\<close> while the loop has not returned.
\<close>

fun stop_loop :: "time \<Rightarrow> svc_state \<Rightarrow> (time \<times> svc_state option) list \<Rightarrow> main_error option option" where
  "stop_loop deadline s [] = (if s = SvcStopped then Some None else None)"
| "stop_loop deadline s ((now, q) # ps) =
     (if s = SvcStopped then Some None
      else if deadline < now then Some (Some DidNotStop)
      else case q of None \<Rightarrow> Some (Some QueryFailed) | Some s' \<Rightarrow> stop_loop deadline s' ps)"

text \<open>\<open>control\<close> is the state that the stop control answers.\<close>

definition cmdStop ::
  "bool \<Rightarrow> svc_state option \<Rightarrow> time \<Rightarrow> (time \<times> svc_state option) list \<Rightarrow> 'b host_machine \<Rightarrow>
   main_error option option \<times> 'b host_machine" where
  "cmdStop connects control now polls m =
     (if \<not> connects then (Some (Some NoManager), m)
      else if hm_service m = None then (Some (Some NotInstalled), m)
      else case control of
        None \<Rightarrow> (Some (Some ControlFailed), m)
      | Some s \<Rightarrow>
          (let r = stop_loop (now + stopTimeout) s polls
           in (r, if r = Some None then m\<lparr>hm_state := SvcStopped\<rparr> else m)))"

definition restartServiceStartRetries :: nat where "restartServiceStartRetries = 3"

text \<open>The attempts to start, each with whether it connects and starts, and how many were made.\<close>

fun start_attempts :: "nat \<Rightarrow> (bool \<times> bool) list \<Rightarrow> 'b host_machine \<Rightarrow> (main_error option \<times> nat) \<times> 'b host_machine" where
  "start_attempts 0 _ m = ((Some StartFailed, 0), m)"
| "start_attempts (Suc n) xs m =
     (let (connects, starts) = (case xs of [] \<Rightarrow> (False, False) | x # _ \<Rightarrow> x); (err, m) = cmdStart connects starts m in
      if err = None then ((None, 1), m)
      else if n = 0 then ((err, 1), m)
      else let ((err, k), m) = start_attempts n (tl xs) m in ((err, Suc k), m))"

text \<open>
  \<^verbatim>\<open>cmdRestartService\<close>: the outcome, \<open>None\<close> while it still waits for the stop, and the number of
  attempts to start.
\<close>

definition cmdRestartService ::
  "bool \<Rightarrow> svc_state option \<Rightarrow> time \<Rightarrow> (time \<times> svc_state option) list \<Rightarrow> (bool \<times> bool) list \<Rightarrow> 'b host_machine \<Rightarrow>
   (main_error option \<times> nat) option \<times> 'b host_machine" where
  "cmdRestartService connects control now polls starts m =
     (case cmdStop connects control now polls m of
        (None, m) \<Rightarrow> (None, m)
      | (Some (Some err), m) \<Rightarrow> (Some (Some err, 0), m)
      | (Some None, m) \<Rightarrow>
          (let (r, m) = start_attempts restartServiceStartRetries starts m in (Some r, m)))"

section \<open>Installing and removing\<close>

definition displayName :: string where "displayName = ''EMLy Updater Service''"

definition description :: string where
  "description = ''Bootstrapper e updater per EMLy, il visualizzatore EML/MSG di 3gIT. ''"

record 'b install_env =
  in_dirs :: bool
  in_files :: "'b env"
  in_load :: "'b fs \<Rightarrow> config option"
  in_der :: "string option"
  in_cert :: cert_env
  in_exe :: "string option"
  in_connect :: bool
  in_open :: bool
  in_config :: bool
  in_update :: bool
  in_create :: bool
  in_recovery :: bool
  in_source :: bool

definition installCertificate :: "'b install_env \<Rightarrow> 'b host_machine \<Rightarrow> 'b host_machine" where
  "installCertificate e m =
     (case in_load e (hm_files m) of
        None \<Rightarrow> m
      | Some cfg \<Rightarrow>
          if \<not> cf_CertificateEnabled cfg then m
          else (case in_der e of
            None \<Rightarrow> m
          | Some der \<Rightarrow> m\<lparr>hm_stores := fst (Ensure_cert (in_cert e) der MachineTargets (hm_stores m))\<rparr>))"

definition svcCfg :: svc_config where
  "svcCfg = \<lparr>vc_StartType = StartAutomatic, vc_DelayedAutoStart = True, vc_Dependencies = [''Dnscache'', ''LanmanWorkstation''],
     vc_DisplayName = displayName, vc_Description = description, vc_ErrorControl = 1, vc_BinaryPathName = [], vc_StartName = []\<rparr>"

definition recovery :: "recovery_action list" where
  "recovery = [ServiceRestart (60 * Second), ServiceRestart (60 * Second), ServiceRestart (60 * Second)]"

text \<open>Registering the service: refreshed when it exists and can be opened, created otherwise.\<close>

definition register :: "'b install_env \<Rightarrow> string \<Rightarrow> 'b host_machine \<Rightarrow> main_error option \<times> 'b host_machine" where
  "register e exePath m =
     (case (if in_open e then hm_service m else None) of
        Some cur \<Rightarrow>
          if \<not> in_config e then (Some ConfigUnreadable, m)
          else if \<not> in_update e then (Some UpdateConfigFailed, m)
          else (None, m\<lparr>hm_service := Some (cur\<lparr>vc_StartType := vc_StartType svcCfg, vc_DelayedAutoStart := vc_DelayedAutoStart svcCfg,
                  vc_Dependencies := vc_Dependencies svcCfg, vc_DisplayName := vc_DisplayName svcCfg,
                  vc_Description := vc_Description svcCfg, vc_BinaryPathName := exePath\<rparr>)\<rparr>)
      | None \<Rightarrow>
          if hm_service m \<noteq> None \<or> \<not> in_create e then (Some CreateFailed, m)
          else (None, m\<lparr>hm_service := Some (svcCfg\<lparr>vc_BinaryPathName := exePath\<rparr>)\<rparr>))"

definition cmdInstall ::
  "string \<Rightarrow> string \<Rightarrow> 'b \<Rightarrow> 'b install_env \<Rightarrow> 'b host_machine \<Rightarrow> main_error option \<times> 'b host_machine" where
  "cmdInstall path backup defaultINI e m =
     (if \<not> in_dirs e then (Some DirsFailed, m)
      else case Reset_config (in_files e) path backup defaultINI (hm_files m) of
        (trace, r) \<Rightarrow>
          (let m = m\<lparr>hm_files := last (hm_files m # trace)\<rparr> in
           if r = None then (Some ResetFailed, m)
           else let m = installCertificate e m in
           case in_exe e of
             None \<Rightarrow> (Some NoExecutable, m)
           | Some exePath \<Rightarrow>
               if \<not> in_connect e then (Some NoManager, m)
               else (case register e exePath m of
                 (Some err, m) \<Rightarrow> (Some err, m)
               | (None, m) \<Rightarrow>
                   if \<not> in_recovery e then (Some RecoveryFailed, m)
                   else (None, m\<lparr>hm_recovery := recovery, hm_recoveryReset := 86400,
                          hm_eventSource := in_source e \<or> hm_eventSource m\<rparr>))))"

record remove_env =
  rm_read :: bool
  rm_write :: bool
  rm_connect :: bool
  rm_delete :: bool
  rm_source :: bool

text \<open>\<^verbatim>\<open>cmdUninstall\<close>; \<open>stopped\<close> is what \<^verbatim>\<open>cmdStop\<close>, whose error is ignored, did.\<close>

definition cmdUninstall ::
  "string \<Rightarrow> string \<Rightarrow> remove_env \<Rightarrow> ('b host_machine \<Rightarrow> 'b host_machine) \<Rightarrow> 'b host_machine \<Rightarrow> main_error option \<times> 'b host_machine" where
  "cmdUninstall src dst e stopped m =
     (let m = (case hm_files m src of
                 None \<Rightarrow> m
               | Some data \<Rightarrow> if rm_read e \<and> rm_write e then m\<lparr>hm_files := put dst data (hm_files m)\<rparr> else m);
          m = stopped m
      in if \<not> rm_connect e then (Some NoManager, m)
         else if hm_service m = None then (Some NotInstalled, m)
         else if \<not> rm_delete e then (Some DeleteFailed, m)
         else (None, m\<lparr>hm_service := None, hm_eventSource := hm_eventSource m \<and> \<not> rm_source e\<rparr>))"

section \<open>Running\<close>

text \<open>The update loops that run on the machine, and who holds the singleton mutex.\<close>

record instances =
  is_mutex :: bool
  is_loops :: nat

definition acquireSingleton :: "bool \<Rightarrow> instances \<Rightarrow> main_error option \<times> instances" where
  "acquireSingleton created i =
     (if \<not> created then (Some MutexFailed, i)
      else if is_mutex i then (Some AlreadyRunning, i)
      else (None, i\<lparr>is_mutex := True\<rparr>))"

definition cmdRun :: "bool \<Rightarrow> bool \<Rightarrow> config option \<Rightarrow> instances \<Rightarrow> main_error option \<times> instances" where
  "cmdRun dirs created cfg i =
     (if \<not> dirs then (Some DirsFailed, i)
      else case acquireSingleton created i of
        (Some err, i) \<Rightarrow> (Some err, i)
      | (None, i) \<Rightarrow>
          (case cfg of
             None \<Rightarrow> (Some ConfigInvalid, i\<lparr>is_mutex := False\<rparr>)
           | Some _ \<Rightarrow> (None, i\<lparr>is_loops := Suc (is_loops i)\<rparr>)))"

text \<open>\<^verbatim>\<open>runService\<close>, up to the loop it runs.\<close>

definition runService :: "bool \<Rightarrow> config option \<Rightarrow> instances \<Rightarrow> main_error option \<times> instances" where
  "runService dirs cfg i =
     (if \<not> dirs then (Some DirsFailed, i)
      else case cfg of
        None \<Rightarrow> (Some ConfigInvalid, i)
      | Some _ \<Rightarrow> (None, i\<lparr>is_loops := Suc (is_loops i)\<rparr>))"

datatype subcommand = Install | Uninstall | StartCmd | StopCmd | RunCmd | ShowToast "string list" | RestartService

datatype dispatch_result = RunAsService | Command subcommand | UsageExit

definition main_dispatch :: "bool \<Rightarrow> string list \<Rightarrow> dispatch_result" where
  "main_dispatch inService args =
     (if inService then RunAsService
      else case tl args of
        [] \<Rightarrow> UsageExit
      | c # rest \<Rightarrow>
          if c = ''install'' then Command Install
          else if c = ''uninstall'' then Command Uninstall
          else if c = ''start'' then Command StartCmd
          else if c = ''stop'' then Command StopCmd
          else if c = ''run'' then Command RunCmd
          else if c = ''show-toast'' then Command (ShowToast rest)
          else if c = ''restart-service'' then Command RestartService
          else UsageExit)"

section \<open>Lemmas\<close>

lemma stop_loop_returns:
  assumes "i < length polls" "deadline < fst (polls ! i)"
  shows "stop_loop deadline s polls \<noteq> None"
  using assms
proof (induction deadline s polls arbitrary: i rule: stop_loop.induct)
  case (2 deadline s now q ps)
  then show ?case by (cases i) (auto split: option.splits)
qed simp

lemma start_attempts_spec:
  assumes "start_attempts n xs m = ((err, k), m')" "0 < n" "hm_service m \<noteq> None"
  shows "0 < k \<and> k \<le> n \<and> hm_service m' = hm_service m \<and> (err = None \<longrightarrow> hm_state m' = SvcRunning) \<and>
    ((\<exists>i < n. i < length xs \<and> xs ! i = (True, True)) \<longrightarrow> err = None)"
  using assms
proof (induction n xs m arbitrary: err k m' rule: start_attempts.induct)
  case (2 n xs m)
  obtain c st where x: "(case xs of [] \<Rightarrow> (False, False) | x # _ \<Rightarrow> x) = (c, st)" by (cases "case xs of [] \<Rightarrow> (False, False) | x # _ \<Rightarrow> x")
  obtain er m1 where s: "cmdStart c st m = (er, m1)" by (cases "cmdStart c st m")
  have m1: "hm_service m1 = hm_service m" "er = None \<longrightarrow> hm_state m1 = SvcRunning" "c \<and> st \<longrightarrow> er = None"
    using s "2.prems"(3) by (auto simp: cmdStart_def split: if_splits)
  show ?case
  proof (cases "er = None \<or> n = 0")
    case True
    then have res: "err = er" "k = 1" "m' = m1" using "2.prems"(1) x s by (auto simp: Let_def split: if_splits)
    have "err = None" if "i < Suc n" "i < length xs" "xs ! i = (True, True)" for i
      using True that x m1(3) res(1) by (cases xs) auto
    then show ?thesis using res m1 by auto
  next
    case False
    obtain er2 k2 m2 where r: "start_attempts n (tl xs) m1 = ((er2, k2), m2)" by (metis prod_cases3 prod.collapse)
    have res: "err = er2" "k = Suc k2" "m' = m2" using "2.prems"(1) x s r False by (auto simp: Let_def)
    have ih: "0 < k2 \<and> k2 \<le> n \<and> hm_service m2 = hm_service m1 \<and> (er2 = None \<longrightarrow> hm_state m2 = SvcRunning) \<and>
        ((\<exists>i < n. i < length (tl xs) \<and> tl xs ! i = (True, True)) \<longrightarrow> er2 = None)"
      using "2.IH" [OF refl x [symmetric] refl s [symmetric] _ _ r] m1(1) "2.prems"(3) False by simp
    have "err = None" if "i < Suc n" "i < length xs" "xs ! i = (True, True)" for i
    proof (cases i)
      case 0
      then show ?thesis using that x m1(3) False by (cases xs) auto
    next
      case (Suc j)
      then show ?thesis using that ih res(1) by (cases xs) auto
    qed
    then show ?thesis using ih res m1(1) by auto
  qed
qed simp

lemma Reset_config_done:
  assumes "Reset_config e path backup d f = (trace, Some changed)" "sys_tmp e \<noteq> path" "sys_tmp e \<noteq> backup" "backup \<noteq> path"
  shows "last (f # trace) path = Some d" "f path = Some old \<Longrightarrow> old \<noteq> d \<Longrightarrow> last (f # trace) backup = Some old"
proof -
  have "last (f # trace) path = Some d \<and> (f path = Some old \<and> old \<noteq> d \<longrightarrow> last (f # trace) backup = Some old)"
  proof (cases "f path")
    case None
    then show ?thesis using assms(1) by (auto simp: Reset_config_def WriteDefault_def split: if_splits)
  next
    case (Some x)
    show ?thesis
    proof (cases "x = d")
      case True
      then show ?thesis using Some assms(1) by (auto simp: Reset_config_def split: if_splits)
    next
      case False
      obtain tr ok where w: "writeAtomic e path d (put backup x f) = (tr, ok)" by fastforce
      have t: "trace = put backup x f # tr" "ok"
        using assms(1) Some False w by (auto simp: Reset_config_def Let_def split: if_splits)
      have "final (put backup x f) (tr, True) = ((put backup x f)(path \<mapsto> d))(sys_tmp e := None)"
        using w t(2) assms(2) atomic_save_success [of "e\<lparr>sys_ok := (sys_ok e)(OpMkdirAll := True)\<rparr>" False path d "put backup x f" tr]
        by (simp add: writeAtomic_def)
      then show ?thesis using t(1) Some assms(2-4) by (auto simp: final_def)
    qed
  qed
  then show "last (f # trace) path = Some d" "f path = Some old \<Longrightarrow> old \<noteq> d \<Longrightarrow> last (f # trace) backup = Some old"
    by simp_all
qed

lemma installCertificate_frame [simp]:
  "hm_files (installCertificate e m) = hm_files m" "hm_service (installCertificate e m) = hm_service m"
  "hm_state (installCertificate e m) = hm_state m" "hm_eventSource (installCertificate e m) = hm_eventSource m"
  by (simp_all add: installCertificate_def split: option.split)

text \<open>
  The mutex does not keep a foreground run away from the installed service, which never
  takes it: with the service running, a second loop starts.
\<close>

lemma run_beside_service:
  "snd (cmdRun True True (Some cfg) (snd (runService True (Some cfg) \<lparr>is_mutex = False, is_loops = 0\<rparr>))) =
     \<lparr>is_mutex = True, is_loops = 2\<rparr>"
  by (simp add: runService_def cmdRun_def acquireSingleton_def)

section \<open>Properties\<close>


text \<open>
  A successful installation leaves the service registered for this executable, started
  automatically and delayed, after the name resolver and the workstation service, restarted
  three times a minute apart when it fails; \<^verbatim>\<open>config.ini\<close> is this release's and the one it
  replaced is kept beside it; whether the service runs is not touched; and installing again
  succeeds, changes neither the registration nor \<^verbatim>\<open>config.ini\<close>, and keeps the file that
  was set aside.
\<close>

theorem cmdInstall_registers:
  assumes "cmdInstall path backup d e m = (None, m')" "in_open e" "in_config e" "in_update e"
    and "sys_tmp (in_files e) \<noteq> path" "sys_tmp (in_files e) \<noteq> backup" "backup \<noteq> path"
  shows "(\<exists>c exe. hm_service m' = Some c \<and> in_exe e = Some exe \<and> vc_BinaryPathName c = exe \<and> vc_StartType c = StartAutomatic \<and>
      vc_DelayedAutoStart c \<and> vc_Dependencies c = [''Dnscache'', ''LanmanWorkstation'']) \<and>
    hm_recovery m' = replicate 3 (ServiceRestart (60 * Second)) \<and> hm_state m' = hm_state m \<and>
    hm_files m' path = Some d \<and> (\<forall>old. hm_files m path = Some old \<and> old \<noteq> d \<longrightarrow> hm_files m' backup = Some old) \<and>
    fst (cmdInstall path backup d e m') = None \<and> hm_service (snd (cmdInstall path backup d e m')) = hm_service m' \<and>
    hm_files (snd (cmdInstall path backup d e m')) = hm_files m'"
proof -
  obtain trace r where t: "Reset_config (in_files e) path backup d (hm_files m) = (trace, r)" by fastforce
  define m1 where "m1 = installCertificate e (m\<lparr>hm_files := last (hm_files m # trace)\<rparr>)"
  obtain exe m2 changed where facts: "in_dirs e" "r = Some changed" "in_exe e = Some exe" "in_connect e"
      "register e exe m1 = (None, m2)" "in_recovery e"
      "m' = m2\<lparr>hm_recovery := recovery, hm_recoveryReset := 86400, hm_eventSource := in_source e \<or> hm_eventSource m2\<rparr>"
    using assms(1) t
    by (auto simp: cmdInstall_def Let_def m1_def split: if_splits option.splits prod.splits)
  note reset = Reset_config_done [OF t [unfolded facts(2)] assms(5-7)]
  have m1: "hm_files m1 = last (hm_files m # trace)" "hm_state m1 = hm_state m" by (simp_all add: m1_def)
  obtain c where c: "hm_service m2 = Some c" "vc_BinaryPathName c = exe" "vc_StartType c = StartAutomatic"
      "vc_DelayedAutoStart c" "vc_Dependencies c = [''Dnscache'', ''LanmanWorkstation'']"
      "vc_DisplayName c = displayName" "vc_Description c = description" "hm_files m2 = hm_files m1" "hm_state m2 = hm_state m1"
    using facts(5) assms(2-4) by (auto simp: register_def svcCfg_def split: option.splits if_splits)
  have read: "sys_ok (in_files e) OpRead"
    using t facts(2) by (auto simp: Reset_config_def split: option.splits if_splits)
  have again: "Reset_config (in_files e) path backup d (hm_files m') = ([], Some False)"
    using facts(7) c(8) m1(1) reset(1) read by (simp add: Reset_config_def)
  have reg: "\<exists>m3. register e exe (installCertificate e m') = (None, m3) \<and> hm_service m3 = Some c \<and> hm_files m3 = hm_files m'"
    using facts(7) c assms(2-4) by (simp add: register_def svcCfg_def)
  have "fst (cmdInstall path backup d e m') = None \<and> hm_service (snd (cmdInstall path backup d e m')) = hm_service m' \<and>
      hm_files (snd (cmdInstall path backup d e m')) = hm_files m'"
    using reg again facts c(1) by (auto simp: cmdInstall_def)
  then show ?thesis
    using c m1 facts(3,7) reset by (auto simp: recovery_def numeral_3_eq_3)
qed

section \<open>A concrete machine\<close>

definition demo_host_machine :: "string host_machine" where
  "demo_host_machine = \<lparr>hm_files = [''config.ini'' \<mapsto> ''mine''], hm_stores = (\<lambda>_. {}), hm_service = None, hm_recovery = [],
     hm_recoveryReset = 0, hm_state = SvcStopped, hm_eventSource = False\<rparr>"

definition demo_install_env :: "string install_env" where
  "demo_install_env = \<lparr>in_dirs = True, in_files = \<lparr>sys_ok = (\<lambda>_. True), sys_tmp = ''t'', sys_torn = []\<rparr>, in_load = (\<lambda>_. None),
     in_der = None, in_cert = demo_cert_env, in_exe = Some ''u.exe'', in_connect = True, in_open = True, in_config = True,
     in_update = True, in_create = True, in_recovery = True, in_source = True\<rparr>"


theorem cmdInstall_registers_witness:
  "hm_files (snd (cmdInstall ''config.ini'' ''config.prev.ini'' ''new'' demo_install_env demo_host_machine)) ''config.prev.ini'' = Some ''mine''"
proof -
  let ?r = "cmdInstall ''config.ini'' ''config.prev.ini'' ''new'' demo_install_env demo_host_machine"
  have "fst ?r = None"
    by (simp add: cmdInstall_def demo_install_env_def demo_host_machine_def Reset_config_def writeAtomic_def atomic_save_def
        rename_def Let_def installCertificate_def register_def)
  then have "?r = (None, snd ?r)" by (simp add: prod_eq_iff)
  from cmdInstall_registers [OF this] show ?thesis by (simp add: demo_install_env_def demo_host_machine_def)
qed

end
