(* ===== verification/UserNotify.thy ===== *)
theory UserNotify
  imports Protocol "HOL-Library.Word"
begin

text \<open>
  \<^verbatim>\<open>internal/notify\<close>, \<^verbatim>\<open>internal/toast\<close> and \<^verbatim>\<open>internal/power\<close>: what the user is told and how, a program
  run in the user's session with its output collected, and the restart of the machine. Every
  call of Windows may fail; handles are followed from the call that opens them to the one
  that closes them.
\<close>

unbundle bit_operations_syntax

section \<open>Messages\<close>

record user_message =
  um_Title :: string
  um_Body :: string

text \<open>
  \<^verbatim>\<open>fmt.Sprintf\<close> with one number, of a text whose only verb, if any, is one \<^verbatim>\<open>%d\<close>: a number that no verb
  takes is appended with a complaint.
\<close>

fun Sprintf_d :: "string \<Rightarrow> int \<Rightarrow> string" where
  "Sprintf_d (c # d # s) n = (if c = CHR ''%'' \<and> d = CHR ''d'' then Itoa n @ s else c # Sprintf_d (d # s) n)"
| "Sprintf_d s n = s @ ''%!(EXTRA int='' @ Itoa n @ '')''"

definition messages :: "(string \<times> user_message) list" where
  "messages =
     [(''en'', \<lparr>um_Title = ''EMLy - Critical Update'',
        um_Body = ''EMLy will close in %d seconds to install a critical update.'' @ [CHR 0x0A, CHR 0x0A] @ ''Please save your work.''\<rparr>),
      (''it'', \<lparr>um_Title = ''EMLy - Aggiornamento critico'',
        um_Body = ''EMLy verr'' @ [CHR 0xC3, CHR 0xA0] @ '' chiuso tra %d secondi per installare un aggiornamento critico.'' @
          [CHR 0x0A, CHR 0x0A] @ ''Si prega di salvare il proprio lavoro.''\<rparr>)]"

definition noConsoleSession :: "32 word" where "noConsoleSession = 0xFFFFFFFF"

text \<open>The box that is sent to a session, and whether it was shown.\<close>

definition WarnCriticalUpdate ::
  "32 word \<Rightarrow> (32 word \<Rightarrow> user_message \<Rightarrow> bool) \<Rightarrow> string \<Rightarrow> int \<Rightarrow> (32 word \<times> user_message) option \<times> bool" where
  "WarnCriticalUpdate session send lang seconds =
     (if session = noConsoleSession then (None, False)
      else
        (let msg = (case map_of messages lang of Some m \<Rightarrow> m | None \<Rightarrow> the (map_of messages ''en''));
             body = (if CHR ''%'' \<in> set (um_Body msg) then Sprintf_d (um_Body msg) seconds else um_Body msg);
             box = \<lparr>um_Title = um_Title msg, um_Body = body\<rparr>
         in (Some (session, box), send session box)))"

text \<open>\<^verbatim>\<open>SendNotifyBox\<close>, and the message \<^verbatim>\<open>apply\<close> sends with it when EMLy is running.\<close>

definition SendNotifyBox ::
  "32 word \<Rightarrow> (32 word \<Rightarrow> user_message \<Rightarrow> bool) \<Rightarrow> user_message \<Rightarrow> int \<Rightarrow> (32 word \<times> user_message) option \<times> bool" where
  "SendNotifyBox session send msg seconds =
     (if session = noConsoleSession then (None, False)
      else
        (let box = \<lparr>um_Title = um_Title msg, um_Body = Sprintf_d (um_Body msg) seconds\<rparr>
         in (Some (session, box), send session box)))"

definition pending_message :: "string \<Rightarrow> user_message" where
  "pending_message lang =
     (if lang = ''it''
      then \<lparr>um_Title = ''EMLy - Aggiornamento sospeso'',
            um_Body = ''Un aggiornamento per EMLy '' @ [CHR 0xC3, CHR 0xA8] @ '' pronto per essere installato. '' @
              ''Chiudere l'' @ [CHR 0x27] @ ''applicazione per completare l'' @ [CHR 0x27] @ ''aggiornamento.''\<rparr>
      else \<lparr>um_Title = ''EMLy - Update Pending'',
            um_Body = ''An update for EMLy is ready to be installed. Please close the application to complete the update.''\<rparr>)"

definition UpdateCompleteMessage :: "string \<Rightarrow> string \<Rightarrow> string \<Rightarrow> user_message" where
  "UpdateCompleteMessage lang version channel =
     (if lang = ''it'' then
        (let label = (if channel = ''stable'' then ''stabile'' else channel)
         in \<lparr>um_Title = ''EMLy aggiornato'',
             um_Body = ''EMLy '' @ [CHR 0xC3, CHR 0xA8] @ '' stato aggiornato alla versione '' @ version @ '' ('' @ label @ '').''\<rparr>)
      else \<lparr>um_Title = ''EMLy Updated'', um_Body = ''EMLy has been updated to version '' @ version @ '' ('' @ channel @ '').''\<rparr>)"

definition SourcesUnreachableMessage :: "string \<Rightarrow> user_message" where
  "SourcesUnreachableMessage lang =
     (if lang = ''it''
      then \<lparr>um_Title = ''EMLy Updater - Errore di connessione'',
            um_Body = ''EMLy Updater non riesce a contattare il server degli aggiornamenti. Contattare il proprio IT.''\<rparr>
      else \<lparr>um_Title = ''EMLy Updater - Connection Error'',
            um_Body = ''EMLy Updater cannot reach the update server. Please contact your IT department.''\<rparr>)"

section \<open>Toasts\<close>

text \<open>Handles that are opened and closed along the way, in the order of the calls.\<close>

datatype handle =
    HUserToken | HPrimaryToken | HEnvBlock | HStdoutR | HStdoutW | HStderrR | HStderrW | HNul | HAttrs | HThread | HProcess
  | HClass | HWindow | HSmallIcon | HLargeIcon | HTrayIcon

datatype handle_act = Opens handle | Closes handle

fun handle_of :: "handle_act \<Rightarrow> handle" where
  "handle_of (Opens h) = h"
| "handle_of (Closes h) = h"

type_synonym 'r traced = "handle_act list \<times> 'r"

definition after :: "handle_act list \<Rightarrow> 'r traced \<Rightarrow> 'r traced" where
  "after as b = (as @ fst b, snd b)"

text \<open>A deferred close runs when the rest has ended.\<close>

definition deferring :: "handle \<Rightarrow> 'r traced \<Rightarrow> 'r traced" where
  "deferring h b = (fst b @ [Closes h], snd b)"

definition holding :: "handle \<Rightarrow> 'r traced \<Rightarrow> 'r traced" where
  "holding h b = after [Opens h] (deferring h b)"

record session_env =
  xs_console :: "32 word"
  xs_user :: bool
  xs_primary :: bool
  xs_block :: bool
  xs_pipe :: "nat \<Rightarrow> bool"
  xs_inherit :: "nat \<Rightarrow> bool"
  xs_nul :: bool
  xs_cmdline :: bool
  xs_attrs :: bool
  xs_handles :: bool
  xs_create :: bool

text \<open>The arguments the helper is started with.\<close>

definition toast_argv :: "string \<Rightarrow> string \<Rightarrow> string \<Rightarrow> string \<Rightarrow> string list" where
  "toast_argv updaterExePath emlyExePath title body =
     [updaterExePath, ''show-toast'', ''--exe'', emlyExePath, ''--title'', title, ''--body'', body]"

definition LaunchToast :: "session_env \<Rightarrow> string \<Rightarrow> string \<Rightarrow> string \<Rightarrow> string \<Rightarrow> (string list option) traced" where
  "LaunchToast e updaterExePath emlyExePath title body =
     (if xs_console e = noConsoleSession then ([], None)
      else if \<not> xs_user e then ([], None)
      else holding HUserToken
        (if \<not> xs_primary e then ([], None)
         else holding HPrimaryToken
           (if \<not> xs_block e then ([], None)
            else holding HEnvBlock
              (if \<not> xs_cmdline e then ([], None)
               else if \<not> xs_create e then ([], None)
               else ([Opens HProcess, Opens HThread, Closes HThread, Closes HProcess],
                     Some (toast_argv updaterExePath emlyExePath title body))))))"

text \<open>
  \<^verbatim>\<open>flag.Parse\<close> of the helper: a flag is one or two dashes and its name; its value follows an
  equals sign or is the next argument, whatever that looks like.
\<close>

record toast_flags =
  tf_exe :: string
  tf_title :: string
  tf_body :: string

definition set_flag :: "string \<Rightarrow> string \<Rightarrow> toast_flags \<Rightarrow> toast_flags option" where
  "set_flag name v t =
     (if name = ''exe'' then Some (t\<lparr>tf_exe := v\<rparr>)
      else if name = ''title'' then Some (t\<lparr>tf_title := v\<rparr>)
      else if name = ''body'' then Some (t\<lparr>tf_body := v\<rparr>)
      else None)"

definition flag_name :: "string \<Rightarrow> string option" where
  "flag_name s =
     (case s of
        CHR ''-'' # CHR ''-'' # n \<Rightarrow> Some n
      | CHR ''-'' # n \<Rightarrow> if n = [] then None else Some n
      | _ \<Rightarrow> None)"

text \<open>The value that follows an equals sign in the flag itself.\<close>

definition inline_value :: "string \<Rightarrow> (string \<times> string) option" where
  "inline_value n =
     (case dropWhile (\<lambda>c. c \<noteq> CHR ''='') n of
        [] \<Rightarrow> None
      | _ # v \<Rightarrow> if takeWhile (\<lambda>c. c \<noteq> CHR ''='') n = [] then None else Some (takeWhile (\<lambda>c. c \<noteq> CHR ''='') n, v))"

fun flag_parse :: "string list \<Rightarrow> toast_flags \<Rightarrow> toast_flags option" where
  "flag_parse [] t = Some t"
| "flag_parse (a # as) t =
     (case flag_name a of
        None \<Rightarrow> Some t
      | Some n \<Rightarrow>
          if n = [] then Some t
          else if hd n = CHR ''-'' \<or> hd n = CHR ''='' then None
          else (case inline_value n of
            Some (name, v) \<Rightarrow> (case set_flag name v t of None \<Rightarrow> None | Some t' \<Rightarrow> flag_parse as t')
          | None \<Rightarrow>
              (case as of
                 [] \<Rightarrow> None
               | v # rest \<Rightarrow> (case set_flag n v t of None \<Rightarrow> None | Some t' \<Rightarrow> flag_parse rest t'))))"

text \<open>\<^verbatim>\<open>cmdShowToast\<close>: what is shown.\<close>

definition cmdShowToast :: "string list \<Rightarrow> toast_flags option" where
  "cmdShowToast args = flag_parse args \<lparr>tf_exe = [], tf_title = [], tf_body = []\<rparr>"

text \<open>
  \<^verbatim>\<open>copyString\<close> into a fixed field: \<open>u\<close> is the text in UTF-16 with its terminator, \<open>None\<close> when it has
  a zero inside.
\<close>

definition copyString :: "16 word list \<Rightarrow> 16 word list option \<Rightarrow> 16 word list" where
  "copyString dst u =
     (case u of
        None \<Rightarrow> dst
      | Some u \<Rightarrow>
          (let n = length u;
               (n, dst) = (if n > length dst then (length dst, dst[length dst - 1 := 0]) else (n, dst))
           in take n u @ drop n dst))"

definition nifIcon :: "32 word" where "nifIcon = 2"
definition nifTip :: "32 word" where "nifTip = 4"
definition nifInfo :: "32 word" where "nifInfo = 0x10"
definition niifUser :: "32 word" where "niifUser = 4"
definition niifLarge :: "32 word" where "niifLarge = 0x20"

record toast_env =
  te_class :: bool
  te_window :: bool
  te_extract :: bool
  te_small :: bool
  te_large :: bool
  te_add :: bool
  te_modify :: bool

datatype show_error = ClassFailed | WindowFailed | AddFailed | ModifyFailed | IconsFailed

text \<open>
  \<^verbatim>\<open>Show\<close>: the handles, and the flags of the tray icon and of the balloon that were passed on. Icons
  that cannot be extracted are reported, but the balloon is shown. The message loop that
  follows ends with a timer.
\<close>

definition hold_if :: "bool \<Rightarrow> handle \<Rightarrow> 'r traced \<Rightarrow> 'r traced" where
  "hold_if b h body = (if b then holding h body else body)"

definition Show :: "toast_env \<Rightarrow> (show_error option \<times> (32 word \<times> 32 word) option) traced" where
  "Show e =
     (if \<not> te_class e then ([], (Some ClassFailed, None))
      else holding HClass
        (if \<not> te_window e then ([], (Some WindowFailed, None))
         else holding HWindow
           (let iconErr = (if te_extract e then None else Some IconsFailed);
                small = (te_extract e \<and> te_small e); large = (te_extract e \<and> te_large e);
                flags = (if small then nifTip OR nifIcon else nifTip);
                info = (if large then niifLarge OR niifUser else niifLarge)
            in hold_if small HSmallIcon (hold_if large HLargeIcon
                 (if \<not> te_add e then ([], (Some AddFailed, None))
                  else holding HTrayIcon
                    (if \<not> te_modify e then ([], (Some ModifyFailed, None))
                     else ([], (iconErr, Some (flags, info)))))))))"

text \<open>The user at the console: the session's token and the user it names.\<close>

definition ConsoleUserSID :: "32 word \<Rightarrow> (32 word \<Rightarrow> 't option) \<Rightarrow> ('t \<Rightarrow> string option) \<Rightarrow> string option" where
  "ConsoleUserSID session token user =
     (if session = noConsoleSession then None
      else case token session of None \<Rightarrow> None | Some t \<Rightarrow> user t)"

section \<open>Programs in the user's session\<close>

record session_output =
  so_Stdout :: "8 word list"
  so_Stderr :: "8 word list"
  so_ExitCode :: int

datatype session_error =
    EmptyArgv | NoUserToken | NoPrimaryToken | NoEnvBlock | NoPipe | NoNul | NotCreated | NeverClosed | Cancelled | NoExitCode

text \<open>Reading a pipe: the chunks up to the first failed read, which may still bring some bytes.\<close>

fun readPipe :: "('x list \<times> bool) list \<Rightarrow> 'x list" where
  "readPipe [] = []"
| "readPipe ((chunk, failed) # rs) = chunk @ (if failed then [] else readPipe rs)"

definition inheritablePipe :: "session_env \<Rightarrow> nat \<Rightarrow> handle \<Rightarrow> handle \<Rightarrow> bool traced" where
  "inheritablePipe e i r w =
     (if \<not> xs_pipe e i then ([], False)
      else if \<not> xs_inherit e i then ([Opens r, Opens w, Closes r, Closes w], False)
      else ([Opens r, Opens w], True))"

definition createInSession :: "session_env \<Rightarrow> bool traced" where
  "createInSession e =
     (if \<not> xs_cmdline e then ([], False)
      else if \<not> xs_attrs e then ([], False)
      else holding HAttrs
        (if \<not> xs_handles e then ([], False)
         else if \<not> xs_create e then ([], False)
         else ([Opens HProcess, Opens HThread], True)))"

text \<open>How the wait ends: the readers done, done after their reads were cancelled, or not at all.\<close>

datatype drain = Drained | DrainedLate | NotDrained

record process_end =
  pe_stdout :: "(8 word list \<times> bool) list"
  pe_stderr :: "(8 word list \<times> bool) list"
  pe_drain :: drain
  pe_cancelled :: bool
  pe_code :: "32 word option"

definition collect_output :: "process_end \<Rightarrow> session_error + session_output" where
  "collect_output p =
     (if pe_drain p = NotDrained then Inl NeverClosed
      else if pe_cancelled p then Inl Cancelled
      else case pe_code p of
        None \<Rightarrow> Inl NoExitCode
      | Some code \<Rightarrow>
          Inr \<lparr>so_Stdout = readPipe (pe_stdout p), so_Stderr = readPipe (pe_stderr p), so_ExitCode = uint code\<rparr>)"

definition RunInSession :: "session_env \<Rightarrow> process_end \<Rightarrow> string list \<Rightarrow> (session_error + session_output) traced" where
  "RunInSession e p argv =
     (if argv = [] then ([], Inl EmptyArgv)
      else if \<not> xs_user e then ([], Inl NoUserToken)
      else holding HUserToken
        (if \<not> xs_primary e then ([], Inl NoPrimaryToken)
         else holding HPrimaryToken
           (if \<not> xs_block e then ([], Inl NoEnvBlock)
            else holding HEnvBlock
              (case inheritablePipe e 0 HStdoutR HStdoutW of
                 (as, False) \<Rightarrow> (as, Inl NoPipe)
               | (as, True) \<Rightarrow> after as (deferring HStdoutR
                   (case inheritablePipe e 1 HStderrR HStderrW of
                      (bs, False) \<Rightarrow> (bs @ [Closes HStdoutW], Inl NoPipe)
                    | (bs, True) \<Rightarrow> after bs (deferring HStderrR
                        (if \<not> xs_nul e then ([Closes HStdoutW, Closes HStderrW], Inl NoNul)
                         else (case createInSession e of
                           (cs, ok) \<Rightarrow>
                             after ([Opens HNul] @ cs @ [Closes HNul, Closes HStdoutW, Closes HStderrW])
                               (if \<not> ok then ([], Inl NotCreated)
                                else after [Closes HThread] (deferring HProcess ([], collect_output p))))))))))))"

section \<open>Restarting the machine\<close>

text \<open>
  \<^verbatim>\<open>enableShutdownPrivilege\<close>: adjusting succeeds without granting the privilege when the last error
  says so.
\<close>

datatype power_error = TokenFailed | LookupFailed | AdjustFailed | NotAssigned | ShutdownFailed

record power_env =
  pw_token :: bool
  pw_lookup :: bool
  pw_adjust :: bool
  pw_assigned :: bool
  pw_shutdown :: bool

definition enableShutdownPrivilege :: "power_env \<Rightarrow> power_error option" where
  "enableShutdownPrivilege e =
     (if \<not> pw_token e then Some TokenFailed
      else if \<not> pw_lookup e then Some LookupFailed
      else if \<not> pw_adjust e then Some AdjustFailed
      else if \<not> pw_assigned e then Some NotAssigned
      else None)"

text \<open>The seconds the shutdown is asked for, a 32-bit number, when it is asked for.\<close>

definition Reboot :: "power_env \<Rightarrow> duration \<Rightarrow> power_error option \<times> 32 word option" where
  "Reboot e delay =
     (case enableShutdownPrivilege e of
        Some err \<Rightarrow> (Some err, None)
      | None \<Rightarrow>
          (let seconds = word_of_int (sgn delay * (\<bar>delay\<bar> div Second))
           in (if pw_shutdown e then None else Some ShutdownFailed, Some seconds)))"

section \<open>Lemmas\<close>

text \<open>Every handle is opened at most once and then closed exactly once.\<close>

definition closed_once :: "handle_act list \<Rightarrow> bool" where
  "closed_once as \<longleftrightarrow> (\<forall>h. filter (\<lambda>a. handle_of a = h) as \<in> {[], [Opens h, Closes h]})"

lemmas trace_defs = closed_once_def after_def deferring_def holding_def hold_if_def

lemma closed_once_toast: "closed_once (fst (LaunchToast e u x t b))" "closed_once (fst (Show te))"
  by (auto simp: trace_defs LaunchToast_def Show_def Let_def)

lemma closed_once_session: "closed_once (fst (RunInSession e p argv))"
proof (cases "argv \<noteq> [] \<and> xs_user e \<and> xs_primary e \<and> xs_block e")
  case False
  then show ?thesis by (auto simp: trace_defs RunInSession_def)
next
  case True
  note run = RunInSession_def trace_defs True
  show ?thesis
  proof (cases "xs_pipe e 0 \<and> xs_inherit e 0 \<and> xs_pipe e 1 \<and> xs_inherit e 1")
    case False
    then show ?thesis by (auto simp: run inheritablePipe_def)
  next
    case pipes: True
    then have p: "inheritablePipe e 0 r w = ([Opens r, Opens w], True)" "inheritablePipe e (Suc 0) r w = ([Opens r, Opens w], True)"
      for r w by (simp_all add: inheritablePipe_def)
    have c: "createInSession e \<in> {([], False), ([Opens HAttrs, Closes HAttrs], False),
        ([Opens HAttrs, Opens HProcess, Opens HThread, Closes HAttrs], True)}"
      by (simp add: createInSession_def trace_defs)
    show ?thesis
    proof (cases "xs_nul e")
      case False
      then show ?thesis by (simp add: run p)
    next
      case True
      with c show ?thesis by (elim insertE emptyE) (simp_all add: run p)
    qed
  qed
qed

text \<open>
  The box that asks the user to close EMLy has no place for the number it is formatted with,
  so its text always ends with the complaint of the formatter. The warning before a forced
  update is formatted only when it has such a place.
\<close>

lemma Sprintf_d_extra: "CHR ''%'' \<notin> set s \<Longrightarrow> Sprintf_d s n = s @ ''%!(EXTRA int='' @ Itoa n @ '')''"
  by (induction s n rule: Sprintf_d.induct) auto

lemma pending_box_garbled:
  assumes "session \<noteq> noConsoleSession"
  shows "fst (SendNotifyBox session send (pending_message lang) n) =
     Some (session, \<lparr>um_Title = um_Title (pending_message lang),
       um_Body = um_Body (pending_message lang) @ ''%!(EXTRA int='' @ Itoa n @ '')''\<rparr>)"
proof -
  have "CHR ''%'' \<notin> set (um_Body (pending_message lang))" by (simp add: pending_message_def)
  then show ?thesis using assms by (simp add: SendNotifyBox_def Sprintf_d_extra Let_def)
qed

lemma copyString_fits:
  assumes "length (s @ [0]) \<le> length dst"
  shows "takeWhile (\<lambda>c. c \<noteq> 0) (copyString dst (Some (s @ [0]))) = takeWhile (\<lambda>c. c \<noteq> 0) s"
  using assms by (simp add: copyString_def Let_def takeWhile_tail)

text \<open>
  A text that is cut is not terminated: the zero put at the end of the field is overwritten by
  the copy.
\<close>

lemma copyString_unterminated:
  assumes "length dst < length (s @ [0])" "0 \<notin> set s"
  shows "0 \<notin> set (copyString dst (Some (s @ [0])))" "length (copyString dst (Some (s @ [0]))) = length dst"
proof -
  have "copyString dst (Some (s @ [0])) = take (length dst) s"
    using assms(1) by (simp add: copyString_def Let_def)
  then show "0 \<notin> set (copyString dst (Some (s @ [0])))" "length (copyString dst (Some (s @ [0]))) = length dst"
    using assms by (auto dest: in_set_takeD)
qed

lemma toast_flags_parsed:
  "cmdShowToast (drop 2 (toast_argv updaterExe emlyExe title body)) = Some \<lparr>tf_exe = emlyExe, tf_title = title, tf_body = body\<rparr>"
proof -
  have "flag_name ''--exe'' = Some ''exe''" "flag_name ''--title'' = Some ''title''" "flag_name ''--body'' = Some ''body''"
    by (simp_all add: flag_name_def)
  moreover have "inline_value ''exe'' = None" "inline_value ''title'' = None" "inline_value ''body'' = None"
    by (simp_all add: inline_value_def)
  ultimately show ?thesis by (simp add: cmdShowToast_def toast_argv_def set_flag_def)
qed

section \<open>Properties\<close>


text \<open>
  The machine is restarted after the delay that was ordered: for every order that passed
  validation the 32-bit number of seconds Windows is asked for is the delay of the order.
\<close>

theorem Reboot_delay_exact:
  assumes "ValidateArgs CmdMachineReboot raw = None" "Reboot e (Delay (rebootArgs raw) * Second) = (err, Some seconds)"
  shows "uint seconds = Delay (rebootArgs raw) \<and> Delay (rebootArgs raw) \<le> 3600"
proof -
  have d: "0 \<le> Delay (rebootArgs raw)" "Delay (rebootArgs raw) \<le> 3600"
    using ValidateArgs_reboot [of raw] assms(1) by (simp_all add: RebootMaxDelaySeconds_def)
  have "sgn (Delay (rebootArgs raw) * Second) * (\<bar>Delay (rebootArgs raw) * Second\<bar> div Second) = Delay (rebootArgs raw)"
    using d(1) by (cases "Delay (rebootArgs raw) = 0") (auto simp: sgn_if Second_def)
  then have "seconds = word_of_int (Delay (rebootArgs raw))"
    using assms(2) by (auto simp: Reboot_def Let_def split: option.splits)
  then show ?thesis using d by (simp add: uint_word_of_int)
qed

section \<open>A concrete session\<close>

definition demo_session :: session_env where
  "demo_session = \<lparr>xs_console = 1, xs_user = True, xs_primary = True, xs_block = True, xs_pipe = (\<lambda>_. True),
     xs_inherit = (\<lambda>_. True), xs_nul = True, xs_cmdline = True, xs_attrs = True, xs_handles = True, xs_create = True\<rparr>"

definition demo_process :: process_end where
  "demo_process = \<lparr>pe_stdout = [([1], False), ([2], True)], pe_stderr = [([], True)], pe_drain = Drained,
     pe_cancelled = False, pe_code = Some 0\<rparr>"


theorem Reboot_delay_exact_witness:
  "uint (the (snd (Reboot \<lparr>pw_token = True, pw_lookup = True, pw_adjust = True, pw_assigned = True, pw_shutdown = True\<rparr>
     (Delay (rebootArgs None) * Second)))) = Delay (rebootArgs None)"
proof -
  let ?e = "\<lparr>pw_token = True, pw_lookup = True, pw_adjust = True, pw_assigned = True, pw_shutdown = True\<rparr>"
  have v: "ValidateArgs CmdMachineReboot None = None" by code_simp
  have "\<exists>s. Reboot ?e (Delay (rebootArgs None) * Second) = (None, Some s)"
    by (simp add: Reboot_def enableShutdownPrivilege_def)
  then obtain s where "Reboot ?e (Delay (rebootArgs None) * Second) = (None, Some s)" by blast
  with Reboot_delay_exact [OF v this] show ?thesis by simp
qed

end
