(* ===== verification/Launch.thy ===== *)
theory Launch
  imports SelfApply Machine CommandLine UserNotify
begin

text \<open>
  Where the service meets the machine: its directories (\<^verbatim>\<open>config/paths.go\<close>), the programs it starts
  (\<^verbatim>\<open>internal/installer\<close>, \<^verbatim>\<open>selfupdate.Launch\<close>, \<^verbatim>\<open>restart\<close> of \<^verbatim>\<open>clientpower.go\<close>), the download of a setup
  (\<^verbatim>\<open>source/http.go\<close>), the accept loop of the pipe server (\<^verbatim>\<open>ipc/server.go\<close>) and the lookup of the
  domain controller (\<^verbatim>\<open>machineinfo/domaincontroller.go\<close>).
\<close>

section \<open>Paths\<close>

text \<open>\<^verbatim>\<open>filepath.Join\<close> of a clean directory and a plain name.\<close>

definition Join :: "string \<Rightarrow> string \<Rightarrow> string" where
  "Join dir name = dir @ [CHR 0x5C] @ name"

definition DataDir :: "string \<Rightarrow> string" where
  "DataDir programData =
     Join (if programData = [] then ''C:'' @ [CHR 0x5C] @ ''ProgramData'' else programData) ''EMLyUpdater''"

definition ConfigPath :: "string \<Rightarrow> string" where "ConfigPath pd = Join (DataDir pd) ''config.ini''"
definition BackupPath :: "string \<Rightarrow> string" where "BackupPath pd = Join (DataDir pd) ''config.prev.ini''"
definition StatePath :: "string \<Rightarrow> string" where "StatePath pd = Join (DataDir pd) ''state.json''"
definition RemoteConfigPath :: "string \<Rightarrow> string" where "RemoteConfigPath pd = Join (DataDir pd) ''remote-config.json''"
definition RemoteConfigBadPath :: "string \<Rightarrow> string" where
  "RemoteConfigBadPath pd = Join (DataDir pd) ''remote-config.bad.json''"
definition RemoteConfigPrevPath :: "string \<Rightarrow> string" where
  "RemoteConfigPrevPath pd = Join (DataDir pd) ''remote-config.prev.json''"
definition DownloadsDir :: "string \<Rightarrow> string" where "DownloadsDir pd = Join (DataDir pd) ''downloads''"
definition SelfDownloadsDir :: "string \<Rightarrow> string" where "SelfDownloadsDir pd = Join (DownloadsDir pd) ''selfupdate''"
definition LogsDir :: "string \<Rightarrow> string" where "LogsDir pd = Join (DataDir pd) ''logs''"

text \<open>The directory that could not be made, if any.\<close>

definition EnsureDirs :: "(string \<Rightarrow> bool) \<Rightarrow> string \<Rightarrow> string option" where
  "EnsureDirs mkdir pd = find (\<lambda>d. \<not> mkdir d) [DataDir pd, DownloadsDir pd, SelfDownloadsDir pd, LogsDir pd]"

text \<open>The paths an updater made by \<^verbatim>\<open>New\<close> works on.\<close>

definition on_standard_paths :: "string \<Rightarrow> 'b service_setup \<Rightarrow> 'b service_setup" where
  "on_standard_paths pd u =
     u\<lparr>se_downloads := \<lparr>mg_Dir = DownloadsDir pd, mg_Prefix = []\<rparr>,
       se_selfDownloads := \<lparr>mg_Dir = SelfDownloadsDir pd, mg_Prefix = ''EMLyUpdater-''\<rparr>,
       se_cachePath := RemoteConfigPath pd, se_prevPath := RemoteConfigPrevPath pd\<rparr>"

section \<open>Programs\<close>

definition installTimeout :: duration where "installTimeout = 15 * Minute"

text \<open>
  A program that is started: whether it starts, whether it ends before the timeout, and how:
  cleanly, with an exit code, or in a way that cannot be told.
\<close>

datatype program_end = EndsCleanly | EndsWith int | WaitBreaks

record program =
  pr_starts :: bool
  pr_in_time :: bool
  pr_end :: program_end

datatype run_error = NotStarted | ExitedWith int | WaitBroke | KilledLate

definition runSilent :: "program \<Rightarrow> run_error option" where
  "runSilent p =
     (if \<not> pr_starts p then Some NotStarted
      else if \<not> pr_in_time p then Some KilledLate
      else case pr_end p of
        EndsCleanly \<Rightarrow> None
      | EndsWith code \<Rightarrow> Some (ExitedWith code)
      | WaitBreaks \<Rightarrow> Some WaitBroke)"

definition silent_args :: "string list" where
  "silent_args = [''/VERYSILENT'', ''/SUPPRESSMSGBOXES'', ''/NORESTART'']"

definition Run_args :: "string \<Rightarrow> string \<Rightarrow> string list" where
  "Run_args version logsDir =
     silent_args @ [''/FORCEUPGRADE'', ''/LOG='' @ Join logsDir (''emly-install-'' @ version @ ''.log'')]"

definition Run_setup :: "program \<Rightarrow> run_error option" where
  "Run_setup p = runSilent p"

text \<open>The uninstaller is the first match, when there is one.\<close>

definition Uninstall_emly :: "string list option \<Rightarrow> (string \<Rightarrow> program) \<Rightarrow> bool \<times> run_error option" where
  "Uninstall_emly found prog =
     (case found of
        None \<Rightarrow> (False, Some NotStarted)
      | Some [] \<Rightarrow> (False, None)
      | Some (x # _) \<Rightarrow> (True, runSilent (prog x)))"

definition Launch_args :: "string \<Rightarrow> string \<Rightarrow> string list" where
  "Launch_args setupPath logPath = setupPath # silent_args @ [''/LOG='' @ logPath]"

text \<open>A program that is started and left alone: the command line when it started, and success.\<close>

definition launch_detached :: "bool \<Rightarrow> bool \<Rightarrow> string list \<Rightarrow> string list option \<times> bool" where
  "launch_detached starts released argv = (if \<not> starts then (None, False) else (Some argv, released))"

definition Launch :: "bool \<Rightarrow> bool \<Rightarrow> string \<Rightarrow> string \<Rightarrow> string list option \<times> bool" where
  "Launch starts released setupPath logPath = launch_detached starts released (Launch_args setupPath logPath)"

definition restart :: "string option \<Rightarrow> bool \<Rightarrow> bool \<Rightarrow> string list option \<times> bool" where
  "restart exe starts released =
     (case exe of None \<Rightarrow> (None, False) | Some x \<Rightarrow> launch_detached starts released [x, ''restart-service''])"

text \<open>\<^verbatim>\<open>showUpdateToast\<close>, with EMLy's language and channel as they are after the install.\<close>

definition showUpdateToast ::
  "session_env \<Rightarrow> string option \<Rightarrow> emly_info \<Rightarrow> string \<Rightarrow> string \<Rightarrow> (string list option) traced" where
  "showUpdateToast e self post emlyExe version =
     (let msg = UpdateCompleteMessage (ei_Language post) version (ei_Channel post)
      in case self of
           None \<Rightarrow> ([], None)
         | Some x \<Rightarrow> LaunchToast e x emlyExe (um_Title msg) (um_Body msg))"

section \<open>Downloading a setup\<close>

text \<open>What the server and the disk do: \<open>hs_copied\<close> are the bytes that arrived, \<open>hs_complete\<close> all of them.\<close>

record 'b http_setup =
  hs_url :: bool
  hs_answers :: bool
  hs_status :: int
  hs_creates :: bool
  hs_copied :: 'b
  hs_complete :: bool
  hs_closes :: bool

definition FetchSetup :: "'b http_setup \<Rightarrow> 'b fetched" where
  "FetchSetup h =
     (if \<not> hs_url h then FetchError None
      else if \<not> hs_answers h then FetchError None
      else if hs_status h \<noteq> 200 then FetchError None
      else if \<not> hs_creates h then FetchError None
      else if \<not> hs_complete h then FetchError (Some (hs_copied h))
      else if \<not> hs_closes h then FetchError (Some (hs_copied h))
      else Fetched (hs_copied h))"

section \<open>Accepting connections\<close>

datatype 'c accepted = Connection 'c | AcceptFails bool

text \<open>
  \<^verbatim>\<open>Serve\<close> over what its listener accepts: the connections handled, the warnings, and whether it
  has returned; a failure of a listener that is closed, or once the context is done, ends it.
\<close>

fun accept_loop :: "'c accepted list \<Rightarrow> 'c list \<times> nat \<times> bool" where
  "accept_loop [] = ([], 0, False)"
| "accept_loop (Connection c # as) = (let (cs, n, r) = accept_loop as in (c # cs, n, r))"
| "accept_loop (AcceptFails closed # as) =
     (if closed then ([], 0, True) else (let (cs, n, r) = accept_loop as in (cs, Suc n, r)))"

definition Serve :: "bool \<Rightarrow> bool \<Rightarrow> 'c accepted list \<Rightarrow> 'c list \<times> nat \<times> bool" where
  "Serve enabled listens as = (if \<not> enabled \<or> \<not> listens then ([], 0, True) else accept_loop as)"

section \<open>The domain controller\<close>

record dc_info =
  di_Name :: string
  di_Site :: string
  di_Address :: string
  di_AddressIsIP :: bool

record dc_raw =
  dw_Name :: string
  dw_Site :: string
  dw_Address :: string
  dw_AddressType :: "32 word"

definition trimUNCPrefix :: "string \<Rightarrow> string" where
  "trimUNCPrefix name = TrimPrefix name [CHR 0x5C, CHR 0x5C]"

definition dsInetAddress :: "32 word" where "dsInetAddress = 1"

text \<open>\<open>valid\<close>: the domain's name can be passed on; \<open>ask\<close> is the answer of Windows.\<close>

definition NearestDomainController :: "(string \<Rightarrow> bool) \<Rightarrow> (string option \<Rightarrow> dc_raw option) \<Rightarrow> string \<Rightarrow> dc_info option" where
  "NearestDomainController valid ask domain =
     (if domain \<noteq> [] \<and> \<not> valid domain then None
      else case ask (if domain = [] then None else Some domain) of
        None \<Rightarrow> None
      | Some r \<Rightarrow>
          Some \<lparr>di_Name = trimUNCPrefix (dw_Name r), di_Site = dw_Site r, di_Address = trimUNCPrefix (dw_Address r),
                di_AddressIsIP = (dw_AddressType r = dsInetAddress)\<rparr>)"

section \<open>Lemmas\<close>

text \<open>
  The cache of the policy and its copy are no setups, so nothing a self-update downloads can
  replace them.
\<close>

lemma SetupPath_ends: "\<exists>s. SetupPath m v = s @ ''exe''"
  by (simp add: SetupPath_def in_dir_def setup_name_def)

lemma standard_paths_apart: "apart (on_standard_paths pd u) (SetupPath (se_selfDownloads (on_standard_paths pd u)) v)"
proof -
  obtain s where s: "SetupPath (se_selfDownloads (on_standard_paths pd u)) v = s @ ''exe''" using SetupPath_ends by blast
  have "RemoteConfigPath pd \<noteq> s @ ''exe''" "RemoteConfigPrevPath pd \<noteq> s @ ''exe''"
    by (auto simp: RemoteConfigPath_def RemoteConfigPrevPath_def Join_def dest!: arg_cong [where f = rev])
  then show ?thesis unfolding apart_def s by (auto simp: on_standard_paths_def)
qed

text \<open>An accept that keeps failing on an open listener is retried without a pause, a warning each time.\<close>

lemma accept_spins: "accept_loop (replicate n (AcceptFails False)) = ([], n, False)"
  by (induction n) simp_all

section \<open>Properties\<close>

text \<open>
  What the service starts of itself is what the new process does: the command line of a
  restart is dispatched to the restart, that of a toast to the toast with the texts it was
  given, which after an update are those of the message for the installed version in EMLy's
  language; and the same binary started by the service control manager runs the service.
\<close>

theorem own_processes_dispatched:
  "(fst (restart exe starts released) = Some argv \<longrightarrow> main_dispatch False argv = Command RestartService) \<and>
   (snd (LaunchToast e self emlyExe title body) = Some targv \<longrightarrow>
      (\<exists>args. main_dispatch False targv = Command (ShowToast args) \<and>
         cmdShowToast args = Some \<lparr>tf_exe = emlyExe, tf_title = title, tf_body = body\<rparr>)) \<and>
   (snd (showUpdateToast e exe post emlyExe version) = Some uargv \<longrightarrow>
      (\<exists>args t. main_dispatch False uargv = Command (ShowToast args) \<and> cmdShowToast args = Some t \<and>
         \<lparr>um_Title = tf_title t, um_Body = tf_body t\<rparr> = UpdateCompleteMessage (ei_Language post) version (ei_Channel post))) \<and>
   main_dispatch True any = RunAsService"
proof -
  have toast: "\<exists>args. main_dispatch False argv = Command (ShowToast args) \<and>
      cmdShowToast args = Some \<lparr>tf_exe = x, tf_title = t, tf_body = b\<rparr>"
    if "snd (LaunchToast e s x t b) = Some argv" for s x t b argv
  proof -
    have "argv = toast_argv s x t b"
      using that by (auto simp: LaunchToast_def holding_def after_def deferring_def split: if_splits)
    then show ?thesis using toast_flags_parsed [of s x t b] by (simp add: main_dispatch_def toast_argv_def)
  qed
  have "main_dispatch False argv = Command RestartService" if "fst (restart exe starts released) = Some argv"
    using that by (auto simp: restart_def launch_detached_def main_dispatch_def split: option.splits if_splits)
  moreover have "\<exists>args t. main_dispatch False uargv = Command (ShowToast args) \<and> cmdShowToast args = Some t \<and>
      \<lparr>um_Title = tf_title t, um_Body = tf_body t\<rparr> = UpdateCompleteMessage (ei_Language post) version (ei_Channel post)"
    if shown: "snd (showUpdateToast e exe post emlyExe version) = Some uargv"
  proof -
    let ?msg = "UpdateCompleteMessage (ei_Language post) version (ei_Channel post)"
    obtain s where "snd (LaunchToast e s emlyExe (um_Title ?msg) (um_Body ?msg)) = Some uargv"
      using shown by (auto simp: showUpdateToast_def Let_def split: option.splits)
    from toast [OF this] show ?thesis by fastforce
  qed
  ultimately show ?thesis using toast by (simp add: main_dispatch_def)
qed

text \<open>
  A setup is handed on only as it was published: when a download over HTTP succeeds, the
  file has the checksum of the target, and it was in the cache already or is exactly what a
  server answered with status 200 and the connection carried to its end.
\<close>

theorem downloaded_setup_complete:
  assumes "Ensure sha m (e\<lparr>dl_fetch := FetchSetup h\<rparr>) t f = (f', Inr path)"
  shows "verified sha f' path (t_SHA256 t) \<and>
    (f' path = f path \<or> f' path = Some (hs_copied h) \<and> hs_status h = 200 \<and> hs_complete h)"
proof -
  let ?e = "e\<lparr>dl_fetch := FetchSetup h\<rparr>"
  let ?dest = "SetupPath m (t_Version t)"
  have fetched: "FetchSetup h = Fetched b \<Longrightarrow> b = hs_copied h \<and> hs_status h = 200 \<and> hs_complete h" for b
    by (auto simp: FetchSetup_def split: if_splits)
  have "f' path = f path \<or> f' path = Some (hs_copied h) \<and> hs_status h = 200 \<and> hs_complete h"
  proof (cases "VerifyFile sha (dl_rd e) f ?dest (t_SHA256 t) = None")
    case True
    then show ?thesis using assms by (auto simp: Ensure_def Let_def split: if_splits)
  next
    case False
    note E = assms [unfolded Ensure_def Let_def]
    have mk: "dl_ok e OpMkdirAll" using E by (simp split: if_splits)
    show ?thesis
    proof (cases "FetchSetup h")
      case (FetchError left)
      then show ?thesis using E mk False by simp
    next
      case (Fetched b)
      let ?f2 = "(rm ?e ?dest f)(?dest @ ''.partial'' \<mapsto> b)"
      show ?thesis
      proof (cases "VerifyFile sha (dl_rd e) ?f2 (?dest @ ''.partial'') (t_SHA256 t)")
        case None
        have "f' path = Some b"
          using E mk False Fetched None by (auto simp: rename_def split: if_splits)
        then show ?thesis using fetched [OF Fetched] by simp
      qed (use E mk False Fetched in simp)
    qed
  qed
  then show ?thesis using Ensure_result [OF assms] by blast
qed

section \<open>A concrete download\<close>

definition demo_download :: "string http_setup" where
  "demo_download = \<lparr>hs_url = True, hs_answers = True, hs_status = 200, hs_creates = True, hs_copied = ''ef'', hs_complete = True,
     hs_closes = True\<rparr>"

theorem own_processes_dispatched_witness:
  "main_dispatch False [''u.exe'', ''restart-service''] = Command RestartService"
  using own_processes_dispatched [of "Some ''u.exe''" True True "[''u.exe'', ''restart-service'']"]
  by (simp add: restart_def launch_detached_def)

theorem downloaded_setup_complete_witness:
  "verified id (fst (Ensure id \<lparr>mg_Dir = ''E'', mg_Prefix = []\<rparr> ((demo_dl ''x'')\<lparr>dl_fetch := FetchSetup demo_download\<rparr>)
     \<lparr>t_Version = ''2'', t_DownloadRef = ''https://s'', t_SHA256 = ''ef''\<rparr> (\<lambda>_. None)))
     (SetupPath \<lparr>mg_Dir = ''E'', mg_Prefix = []\<rparr> ''2'') ''ef''"
proof -
  let ?m = "\<lparr>mg_Dir = ''E'', mg_Prefix = []\<rparr>"
  let ?t = "\<lparr>t_Version = ''2'', t_DownloadRef = ''https://s'', t_SHA256 = ''ef''\<rparr>"
  let ?r = "Ensure id ?m ((demo_dl ''x'')\<lparr>dl_fetch := FetchSetup demo_download\<rparr>) ?t (\<lambda>_. None)"
  have "snd ?r = Inr (SetupPath ?m ''2'')" by code_simp
  then have "?r = (fst ?r, Inr (SetupPath ?m ''2''))" by (simp add: prod_eq_iff)
  from downloaded_setup_complete [OF this] show ?thesis by simp
qed

end
