(* ===== verification/Cycle.thy ===== *)
theory Cycle
  imports SelfApply
begin

text \<open>
  \<^verbatim>\<open>internal/service/service.go\<close> and \<^verbatim>\<open>internal/installer/installer.go\<close>: one cycle of the poll
  loop, from the control gate to the installed release. The handlers are modelled whole;
  what Windows, the network, the user and the setup itself do is the environment's
  choice.
\<close>

section \<open>The installer\<close>

definition verify_prefix :: string where "verify_prefix = ''post-install verification failed''"

text \<open>\<^verbatim>\<open>VerifyInstalled\<close>: the text of the error, if any.\<close>

definition VerifyInstalled :: "golib \<Rightarrow> emly_section \<Rightarrow> string \<Rightarrow> string option" where
  "VerifyInstalled L sec expectedVersion =
     (case ReadEMLyConfig sec of
        None \<Rightarrow> Some (verify_prefix @ '': unreadable'')
      | Some info \<Rightarrow>
          (case Less L (ei_InstalledVersion info) expectedVersion of
             Inl _ \<Rightarrow> Some (verify_prefix @ '': version'')
           | Inr older \<Rightarrow>
               if older then Some (verify_prefix @ '': config.ini reports '' @ ei_InstalledVersion info @ '', expected '' @ expectedVersion)
               else None))"

text \<open>\<^verbatim>\<open>Run\<close>: a missing setup does not start; what it does to EMLy is the environment's.\<close>

definition run_setup :: "'b cyc_env \<Rightarrow> nat \<Rightarrow> pending \<Rightarrow> 'b world \<Rightarrow> string option \<times> 'b world" where
  "run_setup e n p w =
     (case wd_files w (pn_SetupPath p) of
        None \<Rightarrow> (Some (''failed to start '' @ pn_SetupPath p), w)
      | Some b \<Rightarrow>
          (let (err, sec) = xe_run e n b (wd_emly w)
           in (err, doing (RanSetup (pn_Version p) b) (w\<lparr>wd_emly := sec\<rparr>))))"

definition runSetupAndVerify ::
  "'b service_setup \<Rightarrow> 'b cyc_env \<Rightarrow> nat \<Rightarrow> pending \<Rightarrow> 'b world \<Rightarrow> string option \<times> 'b world" where
  "runSetupAndVerify u e n p w =
     (case run_setup e n p w of
        (Some err, w') \<Rightarrow> (Some err, w')
      | (None, w') \<Rightarrow> (VerifyInstalled (se_lib u) (wd_emly w') (pn_Version p), w'))"

text \<open>\<^verbatim>\<open>Uninstall\<close>: nothing to do without an uninstaller; its errors are ignored.\<close>

definition uninstall :: "'b cyc_env \<Rightarrow> 'b world \<Rightarrow> 'b world" where
  "uninstall e w =
     (if xe_uninstaller e then doing RanUninstaller (w\<lparr>wd_emly := xe_uninstall e (wd_emly w)\<rparr>) else w)"

section \<open>Installing\<close>

datatype cycle_error =
    ResolveFailed resolve_error
  | BadVersion manifest_error
  | DownloadFailed ensure_error
  | ContextCancelled
  | GateRefused
  | IntegrityRefused verify_error
  | SetupFailed string

definition forceRedownload ::
  "'b service_setup \<Rightarrow> 'b cyc_env \<Rightarrow> cycle_state \<Rightarrow> pending \<Rightarrow> string \<Rightarrow> 'b world \<Rightarrow> (cycle_error + pending) \<times> 'b world" where
  "forceRedownload u e cyc p channel w =
     (let w = clear_pending e WWipe (cleanup e (se_downloads u) [] w);
          (res, pref) = resolveTargetWith (se_lib u) (xe_refetch e) cyc channel True (wd_pref w);
          w = w\<lparr>wd_pref := pref\<rparr>
      in case res of
           Inl err \<Rightarrow> (Inl (ResolveFailed err), w)
         | Inr (src, m, t) \<Rightarrow>
             (case Ensure (se_sha u) (se_downloads u) (xe_redl e) t (wd_files w) of
                (f, Inl err) \<Rightarrow> (Inl (DownloadFailed err), w\<lparr>wd_files := f\<rparr>)
              | (f, Inr path) \<Rightarrow>
                  (let fresh = \<lparr>pn_Version = t_Version t, pn_SetupPath = path, pn_SHA256 = t_SHA256 t,
                                pn_Forced = pn_Forced p, pn_DownloadedAt = xe_now e\<rparr>
                   in (Inr fresh, set_pending e WSetFresh fresh (w\<lparr>wd_files := f\<rparr>)))))"

definition emly_event :: "string \<Rightarrow> pending \<Rightarrow> int \<Rightarrow> update_event" where
  "emly_event from p attempt = update_event_of ''emly'' from (pn_Version p) attempt"

text \<open>The steps after a confirmed install.\<close>

definition installed ::
  "'b service_setup \<Rightarrow> 'b cyc_env \<Rightarrow> string \<Rightarrow> pending \<Rightarrow> bool \<Rightarrow> 'b world \<Rightarrow> 'b world" where
  "installed u e from p reinstalled w =
     (let w = announce (emit_service (UpdateApplied ((emly_event from p (if reinstalled then 2 else 1))
                \<lparr>ue_Forced := pn_Forced p, ue_DurationMS := xe_duration e, ue_Reinstalled := reinstalled\<rparr>))) w;
          w = cleanup e (se_downloads u) (pn_Version p) (clear_pending e WDone w)
      in w\<lparr>wd_registry := fst (Repair (xe_reg e) (ExePath (cf_EMLyInstallDir (se_cfg u)) (cf_EMLyExeName (se_cfg u)))
              (DefaultMappings (cf_ProgIDEml (se_cfg u)) (cf_ProgIDMsg (se_cfg u))) (wd_registry w))\<rparr>)"

text \<open>The retry of \<^verbatim>\<open>install\<close> over a clean slate, after the first run failed.\<close>

definition clean_install ::
  "'b service_setup \<Rightarrow> 'b cyc_env \<Rightarrow> cycle_state \<Rightarrow> pending \<Rightarrow> string \<Rightarrow> string \<Rightarrow> 'b world \<Rightarrow> cycle_error option \<times> 'b world" where
  "clean_install u e cyc p channel from w =
     (case forceRedownload u e cyc p channel w of
        (r, w) \<Rightarrow>
          (let p = (case r of Inr fresh \<Rightarrow> fresh | Inl _ \<Rightarrow> p)
           in case runSetupAndVerify u e 2 p (uninstall e w) of
                (None, w) \<Rightarrow> (None, installed u e from p True w)
              | (Some err, w) \<Rightarrow>
                  (Some (SetupFailed err),
                   announce (emitUpdateFailed ((emly_event from p 2)
                     \<lparr>ue_WillRetry := True, ue_Error := Some (installFailureCode err)\<rparr>)) w)))"

definition started :: "string \<Rightarrow> pending \<Rightarrow> 'b world \<Rightarrow> 'b world" where
  "started from p w =
     announce (emit_service (UpdateStarted ((emly_event from p 1)\<lparr>ue_Forced := pn_Forced p, ue_Trigger := wd_trigger w\<rparr>))) w"

definition from_version :: "emly_info \<Rightarrow> string" where
  "from_version emly = (if ei_FreshInstall emly then [] else ei_InstalledVersion emly)"

text \<open>\<^verbatim>\<open>install\<close> between \<^verbatim>\<open>beginInstall\<close> and the deferred \<^verbatim>\<open>endInstall\<close>.\<close>

definition install_body ::
  "'b service_setup \<Rightarrow> 'b cyc_env \<Rightarrow> cycle_state \<Rightarrow> pending \<Rightarrow> emly_info \<Rightarrow> 'b world \<Rightarrow> cycle_error option \<times> 'b world" where
  "install_body u e cyc p emly w =
     (case VerifyFile (se_sha u) (xe_rd e) (wd_files w) (pn_SetupPath p) (pn_SHA256 p) of
        Some err \<Rightarrow>
          (Some (IntegrityRefused err),
           announce (emitUpdateFailed ((emly_event (from_version emly) p 0)
               \<lparr>ue_WillRetry := True, ue_Error := Some ''checksum_mismatch''\<rparr>))
             (clear_pending e WChecksum (w\<lparr>wd_files := rm (xe_dl e) (pn_SetupPath p) (wd_files w)\<rparr>)))
      | None \<Rightarrow>
          (case runSetupAndVerify u e 1 p (started (from_version emly) p w) of
             (None, w) \<Rightarrow> (None, installed u e (from_version emly) p False w)
           | (Some _, w) \<Rightarrow> clean_install u e cyc p (ei_Channel emly) (from_version emly) w))"

definition install ::
  "'b service_setup \<Rightarrow> 'b cyc_env \<Rightarrow> cycle_state \<Rightarrow> pending \<Rightarrow> emly_info \<Rightarrow> 'b world \<Rightarrow> cycle_error option \<times> 'b world" where
  "install u e cyc p emly w =
     (case begin_install e PInstall w of
        (granted, w) \<Rightarrow>
          if \<not> granted then (Some GateRefused, w)
          else (case install_body u e cyc p emly w of (err, w) \<Rightarrow> (err, end_install w)))"

definition apply_update ::
  "'b service_setup \<Rightarrow> 'b cyc_env \<Rightarrow> cycle_state \<Rightarrow> pending \<Rightarrow> emly_info \<Rightarrow> 'b world \<Rightarrow> cycle_error option \<times> 'b world" where
  "apply_update u e cyc p emly w =
     (case check_gate e PApply w of
        (pend, w) \<Rightarrow>
          if pend then (None, w)
          else if \<not> xe_running e then install u e cyc p emly w
          else if pn_Forced p then
            (if cw_Enabled (us_CriticalWarning (d_Updater (e_Doc (cy_eff cyc)))) \<and> xe_warned e \<and> xe_cancelled e
             then (Some ContextCancelled, w)
             else case check_gate e PKill w of
               (pend2, w) \<Rightarrow> if pend2 then (None, w) else install u e cyc p emly (doing KilledEMLy w))
          else if xe_cancelled e then (Some ContextCancelled, w)
          else install u e cyc p emly w)"

section \<open>The cycle\<close>

definition notifySourcesUnreachable :: "'b cyc_env \<Rightarrow> 'b world \<Rightarrow> 'b world" where
  "notifySourcesUnreachable e w =
     (if wd_notified w then w else if xe_toast e then w\<lparr>wd_notified := True\<rparr> else w)"

text \<open>The second part of \<^verbatim>\<open>Cycle\<close>: the normal poll.\<close>

definition poll :: "'b service_setup \<Rightarrow> 'b cyc_env \<Rightarrow> cycle_state \<Rightarrow> emly_info \<Rightarrow> 'b world \<Rightarrow> cycle_error option \<times> 'b world" where
  "poll u e cyc emly w =
     (let (res, pref) = resolveTargetWith (se_lib u) (xe_fetch e) cyc (ei_Channel emly) True (wd_pref w);
          w = w\<lparr>wd_pref := pref\<rparr>
      in case res of
           Inl err \<Rightarrow> (Some (ResolveFailed err), notifySourcesUnreachable e w)
         | Inr (src, m, t) \<Rightarrow>
             (let w = w\<lparr>wd_notified := False\<rparr>
              in case Less (se_lib u) (ei_InstalledVersion emly) (t_Version t) of
                   Inl err \<Rightarrow> (Some (BadVersion err), w)
                 | Inr needUpdate \<Rightarrow>
                     if \<not> needUpdate then (None, cleanup e (se_downloads u) [] w)
                     else case Forced (se_lib u) m (ei_InstalledVersion emly) of
                       Inl err \<Rightarrow> (Some (BadVersion err), w)
                     | Inr forced \<Rightarrow>
                         (let w = announce (announceUpdate ''emly'' (t_Version t)) w
                          in case Ensure (se_sha u) (se_downloads u) (xe_dl e) t (wd_files w) of
                               (f, Inl err) \<Rightarrow> (Some (DownloadFailed err), w\<lparr>wd_files := f\<rparr>)
                             | (f, Inr path) \<Rightarrow>
                                 (let p = \<lparr>pn_Version = t_Version t, pn_SetupPath = path, pn_SHA256 = t_SHA256 t,
                                           pn_Forced = forced, pn_DownloadedAt = xe_now e\<rparr>
                                  in apply_update u e cyc p emly (set_pending e WSetPending p (w\<lparr>wd_files := f\<rparr>))))))"

text \<open>The first part: a pending update is resumed, or set aside before the poll.\<close>

definition resume :: "'b service_setup \<Rightarrow> 'b cyc_env \<Rightarrow> cycle_state \<Rightarrow> emly_info \<Rightarrow> 'b world \<Rightarrow> cycle_error option \<times> 'b world" where
  "resume u e cyc emly w =
     (case (if xe_load_pending e then wd_pending w else None) of
        None \<Rightarrow> poll u e cyc emly w
      | Some p \<Rightarrow>
          (case Less (se_lib u) (ei_InstalledVersion emly) (pn_Version p) of
             Inl _ \<Rightarrow> poll u e cyc emly (clear_pending e WDiscard w)
           | Inr stillNeeded \<Rightarrow>
               if \<not> stillNeeded then poll u e cyc emly (cleanup e (se_downloads u) [] (clear_pending e WSatisfied w))
               else case VerifyFile (se_sha u) (xe_rd e) (wd_files w) (pn_SetupPath p) (pn_SHA256 p) of
                 Some _ \<Rightarrow>
                   poll u e cyc emly
                     (clear_pending e WCorrupt (w\<lparr>wd_files := rm (xe_dl e) (pn_SetupPath p) (wd_files w)\<rparr>))
               | None \<Rightarrow> apply_update u e cyc p emly (w\<lparr>wd_trigger := ''resume''\<rparr>)))"

definition enabled_now :: "'b service_setup \<Rightarrow> cycle_state \<Rightarrow> bool" where
  "enabled_now u cyc = fst (UpdaterEnabled (se_lib u) (cy_eff cyc) (h_Now (cy_host cyc)))"

definition Cycle :: "'b service_setup \<Rightarrow> 'b cyc_env \<Rightarrow> string \<Rightarrow> cycle_state \<Rightarrow> 'b world \<Rightarrow> cycle_error option \<times> 'b world" where
  "Cycle u e wakeReason cyc w =
     (let w = w\<lparr>wd_trigger := (if wakeReason = [] then ''cycle'' else wakeReason),
                wd_certs := fst (ensureCertificate (xe_cert e) (tg_Enabled (us_InstallCertificate (d_Updater (e_Doc (cy_eff cyc)))))
                                   (xe_der e) (xe_sid e) (wd_certs w)),
                wd_paused := \<not> enabled_now u cyc\<rparr>
      in if \<not> enabled_now u cyc then (None, w)
         else case check_gate e PCycle w of
           (pend, w) \<Rightarrow>
             if pend then (None, w)
             else case selfUpdate u e cyc w of
               (launched, w) \<Rightarrow>
                 if launched then (None, w)
                 else resume u e cyc (ResolveEMLyWithChannel (wd_emly w) (us_Channel (d_Updater (e_Doc (cy_eff cyc))))) w)"


section \<open>What is run\<close>

text \<open>What running the setup of \<open>p\<close> in \<open>w\<close> amounts to.\<close>

definition ran_setup :: "pending \<Rightarrow> 'b fs \<Rightarrow> 'b deed list" where
  "ran_setup p f = (case f (pn_SetupPath p) of None \<Rightarrow> [] | Some b \<Rightarrow> [RanSetup (pn_Version p) b])"

lemma runSetupAndVerify_frame:
  assumes "runSetupAndVerify u e n p w = (err, w')"
  shows "wd_did w' = wd_did w @ ran_setup p (wd_files w)" "wd_files w' = wd_files w" "wd_pending w' = wd_pending w"
    "wd_gate w' = wd_gate w" "wd_self w' = wd_self w" "wd_pref w' = wd_pref w"
  using assms
  by (auto simp: runSetupAndVerify_def run_setup_def ran_setup_def doing_def Let_def
      split: option.splits prod.splits)

lemma runSetupAndVerify_ok:
  assumes "runSetupAndVerify u e n p w = (None, w')"
  shows "VerifyInstalled (se_lib u) (wd_emly w') (pn_Version p) = None" "ran_setup p (wd_files w) \<noteq> []"
  using assms
  by (auto simp: runSetupAndVerify_def run_setup_def ran_setup_def Let_def split: option.splits prod.splits)

lemma uninstall_frame [frame_simps]:
  "wd_did (uninstall e w) = wd_did w @ (if xe_uninstaller e then [RanUninstaller] else [])"
  "wd_files (uninstall e w) = wd_files w" "wd_pending (uninstall e w) = wd_pending w"
  "wd_gate (uninstall e w) = wd_gate w"
  by (simp_all add: uninstall_def doing_def)

lemma installed_frame [frame_simps]:
  "wd_did (installed u e from p r w) = wd_did w" "wd_emly (installed u e from p r w) = wd_emly w"
  "wd_gate (installed u e from p r w) = wd_gate w"
  "wd_pending (installed u e from p r w) = (if xe_write_ok e WDone then None else wd_pending w)"
  by (simp_all add: installed_def Let_def frame_simps clear_pending_def)

lemma started_frame [frame_simps]:
  "wd_did (started from p w) = wd_did w" "wd_files (started from p w) = wd_files w"
  "wd_pending (started from p w) = wd_pending w" "wd_gate (started from p w) = wd_gate w"
  "wd_emly (started from p w) = wd_emly w"
  by (simp_all add: started_def frame_simps)

text \<open>A manifest fetched in \<open>E\<close> names version \<open>v\<close> with checksum \<open>sha\<close> for the channel.\<close>

definition published :: "'b service_setup \<Rightarrow> (string, manifest) renv \<Rightarrow> cycle_state \<Rightarrow> string \<Rightarrow> string \<Rightarrow> string \<Rightarrow> bool" where
  "published u E cyc channel v sha \<longleftrightarrow>
     (\<exists>pref src m t. fst (resolveTargetWith (se_lib u) E cyc channel True pref) = Inr (src, m, t) \<and>
        t_Version t = v \<and> t_SHA256 t = sha)"

definition at_home :: "'b service_setup \<Rightarrow> pending \<Rightarrow> bool" where
  "at_home u p \<longleftrightarrow> pn_SetupPath p = SetupPath (se_downloads u) (pn_Version p)"

definition pending_wf :: "'b service_setup \<Rightarrow> 'b world \<Rightarrow> bool" where
  "pending_wf u w \<longleftrightarrow> (\<forall>p. wd_pending w = Some p \<longrightarrow> at_home u p)"

lemma SetupPath_not_partial: "SetupPath m v \<noteq> SetupPath m' v' @ ''.partial''"
proof
  assume "SetupPath m v = SetupPath m' v' @ ''.partial''"
  then have "last (SetupPath m v) = last (SetupPath m' v' @ ''.partial'')" by simp
  then show False by (simp add: SetupPath_def in_dir_def setup_name_def)
qed

lemma cleanup_file: "wd_files (cleanup e m k w) q \<in> {None, wd_files w q}"
  by (simp add: cleanup_def CleanupExcept_file)

lemma Ensure_setup_or_gone:
  assumes "Ensure sha m e t f = (f', Inl err)"
  shows "f' (SetupPath m v) \<in> {None, f (SetupPath m v)}"
proof (cases "SetupPath m v = SetupPath m (t_Version t)")
  case True
  then show ?thesis using Ensure_failure_dest [OF assms] by simp
next
  case False
  then show ?thesis using Ensure_frame [OF assms, of "SetupPath m v"] SetupPath_not_partial by simp
qed

lemma forceRedownload_frame:
  assumes "forceRedownload u e cyc p channel w = (r, w')"
  shows "wd_did w' = wd_did w" "wd_gate w' = wd_gate w" "wd_emly w' = wd_emly w"
  using assms
  by (auto simp: forceRedownload_def Let_def frame_simps split: prod.splits sum.splits)

lemma forceRedownload_fresh:
  assumes "forceRedownload u e cyc p channel w = (Inr fresh, w')"
  shows "at_home u fresh" "verified (se_sha u) (wd_files w') (pn_SetupPath fresh) (pn_SHA256 fresh)"
    "published u (xe_refetch e) cyc channel (pn_Version fresh) (pn_SHA256 fresh)"
    "wd_pending w' \<in> {None, wd_pending w, Some fresh}"
proof -
  let ?w = "clear_pending e WWipe (cleanup e (se_downloads u) [] w)"
  obtain res pref where r: "resolveTargetWith (se_lib u) (xe_refetch e) cyc channel True (wd_pref ?w) = (res, pref)"
    by (cases "resolveTargetWith (se_lib u) (xe_refetch e) cyc channel True (wd_pref ?w)")
  with assms obtain src m t where t: "res = Inr (src, m, t)"
    by (auto simp: forceRedownload_def Let_def split: sum.splits)
  obtain f x where en: "Ensure (se_sha u) (se_downloads u) (xe_redl e) t (wd_files ?w) = (f, x)"
    by (cases "Ensure (se_sha u) (se_downloads u) (xe_redl e) t (wd_files ?w)")
  with assms r t obtain path where x: "x = Inr path"
    by (cases x) (auto simp: forceRedownload_def Let_def)
  have fr: "fresh = \<lparr>pn_Version = t_Version t, pn_SetupPath = path, pn_SHA256 = t_SHA256 t,
      pn_Forced = pn_Forced p, pn_DownloadedAt = xe_now e\<rparr>"
    and w': "w' = set_pending e WSetFresh fresh (?w\<lparr>wd_pref := pref, wd_files := f\<rparr>)"
    using assms r t en x by (auto simp: forceRedownload_def Let_def)
  note ok = Ensure_result [OF en [unfolded x]]
  show "at_home u fresh" "verified (se_sha u) (wd_files w') (pn_SetupPath fresh) (pn_SHA256 fresh)"
    using ok by (auto simp: at_home_def fr w' frame_simps)
  show "published u (xe_refetch e) cyc channel (pn_Version fresh) (pn_SHA256 fresh)"
    unfolding published_def fr using r t by (intro exI [of _ "wd_pref ?w"] exI [of _ src] exI [of _ m] exI [of _ t]) simp
  show "wd_pending w' \<in> {None, wd_pending w, Some fresh}"
    by (simp add: w' set_pending_def clear_pending_def frame_simps)
qed

lemma forceRedownload_failed:
  assumes "forceRedownload u e cyc p channel w = (Inl err, w')"
  shows "wd_files w' (SetupPath (se_downloads u) v) \<in> {None, wd_files w (SetupPath (se_downloads u) v)}"
    "wd_pending w' \<in> {None, wd_pending w}"
proof -
  let ?w = "clear_pending e WWipe (cleanup e (se_downloads u) [] w)"
  have c: "wd_files ?w q \<in> {None, wd_files w q}" for q using cleanup_file [of e _ _ w] by (simp add: frame_simps)
  obtain res pref where r: "resolveTargetWith (se_lib u) (xe_refetch e) cyc channel True (wd_pref ?w) = (res, pref)"
    by (cases "resolveTargetWith (se_lib u) (xe_refetch e) cyc channel True (wd_pref ?w)")
  consider "wd_files w' = wd_files ?w" "wd_pending w' = wd_pending ?w"
    | t er f where "Ensure (se_sha u) (se_downloads u) (xe_redl e) t (wd_files ?w) = (f, Inl er)" "wd_files w' = f"
        "wd_pending w' = wd_pending ?w"
    using assms r by (auto simp: forceRedownload_def Let_def split: sum.splits prod.splits)
  then have "wd_files w' (SetupPath (se_downloads u) v) \<in> {None, wd_files ?w (SetupPath (se_downloads u) v)} \<and>
      wd_pending w' = wd_pending ?w"
  proof cases
    case (2 t er f)
    then show ?thesis using Ensure_setup_or_gone [OF 2(1), of v] by simp
  qed simp
  then show "wd_files w' (SetupPath (se_downloads u) v) \<in> {None, wd_files w (SetupPath (se_downloads u) v)}"
    "wd_pending w' \<in> {None, wd_pending w}"
    using c [of "SetupPath (se_downloads u) v"] by (auto simp: clear_pending_def frame_simps)
qed


text \<open>
  A deed is sound when it is not a kill or a self-update, and a setup that was run has a
  checksum that \<open>known\<close> names for its version.
\<close>

definition sound :: "('b \<Rightarrow> string) \<Rightarrow> (string \<Rightarrow> string \<Rightarrow> bool) \<Rightarrow> 'b deed \<Rightarrow> bool" where
  "sound sha known d =
     (case d of
        RanSetup v b \<Rightarrow> (\<exists>x. known v x \<and> x \<noteq> [] \<and> EqualFold (sha b) x)
      | RanUninstaller \<Rightarrow> True
      | KilledEMLy \<Rightarrow> False
      | LaunchedSelf v b \<Rightarrow> False)"

definition setups :: "'b deed list \<Rightarrow> (string \<times> 'b) list" where
  "setups ds = concat (map (\<lambda>d. case d of RanSetup v b \<Rightarrow> [(v, b)] | _ \<Rightarrow> []) ds)"

lemma setups_simps [simp]:
  "setups [] = []" "setups (RanSetup v b # ds) = (v, b) # setups ds" "setups (RanUninstaller # ds) = setups ds"
  "setups (KilledEMLy # ds) = setups ds" "setups (LaunchedSelf v b # ds) = setups ds"
  "setups (ds @ es) = setups ds @ setups es"
  by (simp_all add: setups_def)

definition install_known :: "'b service_setup \<Rightarrow> 'b cyc_env \<Rightarrow> cycle_state \<Rightarrow> string \<Rightarrow> pending \<Rightarrow> string \<Rightarrow> string \<Rightarrow> bool" where
  "install_known u e cyc channel p v x \<longleftrightarrow>
     v = pn_Version p \<and> x = pn_SHA256 p \<or> published u (xe_refetch e) cyc channel v x"

text \<open>
  The outcome of \<open>install_body\<close>: what it ran_setup, in order, and the state it leaves. The first
  setup ran_setup the verified bytes; the uninstaller and the second setup only follow a
  failure of the first.
\<close>

lemma ran_sound:
  assumes "f (pn_SetupPath p) \<in> {None, g (pn_SetupPath p)}" "verified sha g (pn_SetupPath p) (pn_SHA256 p)"
    and "known (pn_Version p) (pn_SHA256 p)"
  shows "\<forall>d \<in> set (ran_setup p f). sound sha known d"
  using assms by (auto simp: ran_setup_def sound_def verified_def split: option.splits)

lemma ran_length: "length (setups (ran_setup p f)) \<le> 1"
  by (simp add: ran_setup_def split: option.splits)

lemma clean_install_outcome:
  assumes "clean_install u e cyc p channel from w = (err, w')" "at_home u p" "pending_wf u w"
    and "verified (se_sha u) (wd_files w) (pn_SetupPath p) (pn_SHA256 p)"
  shows "\<exists>ds. wd_did w' = wd_did w @ ds \<and> (\<forall>d \<in> set ds. sound (se_sha u) (install_known u e cyc channel p) d) \<and>
      length (setups ds) \<le> 1 \<and>
      (err = None \<longrightarrow> (\<exists>v b. last (setups ds) = (v, b) \<and> setups ds \<noteq> [] \<and>
          VerifyInstalled (se_lib u) (wd_emly w') v = None) \<and> (xe_write_ok e WDone \<longrightarrow> wd_pending w' = None)) \<and>
      pending_wf u w' \<and> wd_gate w' = wd_gate w"
proof -
  let ?known = "install_known u e cyc channel p"
  obtain r w2 where fr: "forceRedownload u e cyc p channel w = (r, w2)" by (cases "forceRedownload u e cyc p channel w")
  note f2 = forceRedownload_frame [OF fr]
  define q where "q = (case r of Inr fresh \<Rightarrow> fresh | Inl _ \<Rightarrow> p)"
  obtain e3 w3 where r3: "runSetupAndVerify u e 2 q (uninstall e w2) = (e3, w3)"
    by (cases "runSetupAndVerify u e 2 q (uninstall e w2)")
  note f3 = runSetupAndVerify_frame [OF r3]
  have "(\<forall>d \<in> set (ran_setup q (wd_files w2)). sound (se_sha u) ?known d) \<and> pending_wf u w2"
  proof (cases r)
    case (Inl er)
    then show ?thesis
      using ran_sound [of "wd_files w2" p "wd_files w" "se_sha u" ?known] assms(2,3,4)
        forceRedownload_failed(1) [OF fr [unfolded Inl], of "pn_Version p"] forceRedownload_failed(2) [OF fr [unfolded Inl]]
      by (auto simp: q_def at_home_def install_known_def pending_wf_def)
  next
    case (Inr fresh)
    note ff = forceRedownload_fresh [OF fr [unfolded Inr]]
    show ?thesis
      using ran_sound [of "wd_files w2" fresh "wd_files w2" "se_sha u" ?known] ff Inr assms(3)
      by (auto simp: q_def install_known_def pending_wf_def)
  qed
  then have s3: "\<forall>d \<in> set (ran_setup q (wd_files w2)). sound (se_sha u) ?known d" and wf2: "pending_wf u w2" by blast+
  let ?ds = "(if xe_uninstaller e then [RanUninstaller] else []) @ ran_setup q (wd_files w2)"
  have w': "(err, w') = (case (e3, w3) of
       (None, w) \<Rightarrow> (None, installed u e from q True w)
     | (Some err, w) \<Rightarrow>
         (Some (SetupFailed err),
          announce (emitUpdateFailed ((emly_event from q 2)
            \<lparr>ue_WillRetry := True, ue_Error := Some (installFailureCode err)\<rparr>)) w))"
    using assms(1) fr r3 by (cases e3) (simp_all add: clean_install_def q_def Let_def)
  have did: "wd_did w' = wd_did w @ ?ds" and gate: "wd_gate w' = wd_gate w" and wf: "pending_wf u w'"
    using w' f3 f2 wf2 by (auto simp: frame_simps pending_wf_def split: option.splits if_splits)
  have snd: "\<forall>d \<in> set ?ds. sound (se_sha u) ?known d" using s3 by (auto simp: sound_def)
  have len: "length (setups ?ds) \<le> 1" using ran_length [of q "wd_files w2"] by auto
  have fin: "(\<exists>v b. last (setups ?ds) = (v, b) \<and> setups ?ds \<noteq> [] \<and> VerifyInstalled (se_lib u) (wd_emly w') v = None) \<and>
      (xe_write_ok e WDone \<longrightarrow> wd_pending w' = None)" if "err = None"
  proof -
    have n: "e3 = None" "w' = installed u e from q True w3" using w' that by (auto split: option.splits)
    note ok = runSetupAndVerify_ok [OF r3 [unfolded n(1)]]
    then show ?thesis using n(2) by (auto simp: frame_simps ran_setup_def split: option.splits)
  qed
  show ?thesis using did snd len fin wf gate by blast
qed

lemma install_body_outcome:
  assumes "install_body u e cyc p emly w = (err, w')" "at_home u p" "pending_wf u w"
  shows "\<exists>ds. wd_did w' = wd_did w @ ds \<and> (\<forall>d \<in> set ds. sound (se_sha u) (install_known u e cyc (ei_Channel emly) p) d) \<and>
      length (setups ds) \<le> 2 \<and>
      (err = None \<longrightarrow> (\<exists>v b. last (setups ds) = (v, b) \<and> setups ds \<noteq> [] \<and>
          VerifyInstalled (se_lib u) (wd_emly w') v = None) \<and> (xe_write_ok e WDone \<longrightarrow> wd_pending w' = None)) \<and>
      pending_wf u w' \<and> wd_gate w' = wd_gate w"
proof (cases "VerifyFile (se_sha u) (xe_rd e) (wd_files w) (pn_SetupPath p) (pn_SHA256 p)")
  case (Some x)
  then show ?thesis
    using assms by (auto simp: install_body_def frame_simps pending_wf_def clear_pending_def)
next
  case None
  let ?known = "install_known u e cyc (ei_Channel emly) p"
  have v: "verified (se_sha u) (wd_files w) (pn_SetupPath p) (pn_SHA256 p)" using None by (rule VerifyFile_None)
  obtain e1 w1 where r1: "runSetupAndVerify u e 1 p (started (from_version emly) p w) = (e1, w1)"
    by (cases "runSetupAndVerify u e 1 p (started (from_version emly) p w)")
  note f1 = runSetupAndVerify_frame [OF r1, unfolded started_frame]
  have wf1: "pending_wf u w1" using assms(3) f1(3) by (simp add: pending_wf_def)
  have s1: "\<forall>d \<in> set (ran_setup p (wd_files w)). sound (se_sha u) ?known d"
    using ran_sound [of "wd_files w" p "wd_files w" "se_sha u" ?known] v by (simp add: install_known_def)
  show ?thesis
  proof (cases e1)
    case 1: None
    then have w': "err = None" "w' = installed u e (from_version emly) p False w1"
      using assms(1) None r1 by (auto simp: install_body_def)
    note ok = runSetupAndVerify_ok [OF r1 [unfolded 1], unfolded started_frame]
    then obtain b where "setups (ran_setup p (wd_files w)) = [(pn_Version p, b)]"
      by (auto simp: ran_setup_def split: option.splits)
    then show ?thesis
      using s1 f1 w' wf1 ok(1)
      by (intro exI [of _ "ran_setup p (wd_files w)"]) (auto simp: frame_simps pending_wf_def)
  next
    case 2: (Some x1)
    have c: "clean_install u e cyc p (ei_Channel emly) (from_version emly) w1 = (err, w')"
      using assms(1) None r1 2 by (simp add: install_body_def)
    obtain ds where ds: "wd_did w' = wd_did w1 @ ds" "\<forall>d \<in> set ds. sound (se_sha u) ?known d" "length (setups ds) \<le> 1"
      "err = None \<longrightarrow> (\<exists>v b. last (setups ds) = (v, b) \<and> setups ds \<noteq> [] \<and> VerifyInstalled (se_lib u) (wd_emly w') v = None) \<and>
         (xe_write_ok e WDone \<longrightarrow> wd_pending w' = None)"
      "pending_wf u w'" "wd_gate w' = wd_gate w1"
      using clean_install_outcome [OF c assms(2) wf1] v f1(2) by auto
    then show ?thesis
      using s1 f1 ran_length [of p "wd_files w"] by (intro exI [of _ "ran_setup p (wd_files w) @ ds"]) auto
  qed
qed

section \<open>Soundness of the whole cycle\<close>

text \<open>
  The outcome of a handler started in \<open>w\<close>: the deeds it added are sound, there are at most
  two setups and a kill can only come first; no setup is run when a restart or reboot is
  committed by the time the install gate is asked, no kill when it is by the time of the
  kill; a cycle that ran a setup and reports no
  error has confirmed the last one; and the bookkeeping is intact.
\<close>

definition blocked :: "'b cyc_env \<Rightarrow> point \<Rightarrow> bool" where
  "blocked e pt \<longleftrightarrow> (\<forall>g. ga_pending (xe_interfere e pt g) \<and> xe_clock e pt < ga_deadline (xe_interfere e pt g))"

lemma blocked_refuses:
  "blocked e pt \<Longrightarrow> \<not> fst (begin_install e pt w)" "blocked e pt \<Longrightarrow> fst (check_gate e pt w)"
  by (auto simp: blocked_def begin_install_def check_gate_def gate_defs Let_def split: if_splits prod.splits
      dest: spec [of _ "wd_gate w"])

definition trace_ok ::
  "'b service_setup \<Rightarrow> 'b cyc_env \<Rightarrow> (string \<Rightarrow> string \<Rightarrow> bool) \<Rightarrow> bool \<Rightarrow> cycle_error option \<Rightarrow> 'b world \<Rightarrow>
   'b deed list \<Rightarrow> 'b deed list \<Rightarrow> bool" where
  "trace_ok u e known may_kill err w' k ds \<longleftrightarrow>
     (k = [] \<or> may_kill \<and> k = [KilledEMLy]) \<and>
     (\<forall>d \<in> set ds. sound (se_sha u) known d) \<and> length (setups ds) \<le> 2 \<and>
     (blocked e PInstall \<longrightarrow> ds = []) \<and> (blocked e PKill \<longrightarrow> k = []) \<and>
     (err = None \<and> setups ds \<noteq> [] \<longrightarrow>
        VerifyInstalled (se_lib u) (wd_emly w') (fst (last (setups ds))) = None \<and>
        (xe_write_ok e WDone \<longrightarrow> wd_pending w' = None))"

definition outcome_ok ::
  "'b service_setup \<Rightarrow> 'b cyc_env \<Rightarrow> (string \<Rightarrow> string \<Rightarrow> bool) \<Rightarrow> bool \<Rightarrow> 'b world \<Rightarrow> cycle_error option \<Rightarrow> 'b world \<Rightarrow> bool" where
  "outcome_ok u e known may_kill w err w' \<longleftrightarrow>
     (\<exists>k ds. wd_did w' = wd_did w @ k @ ds \<and> trace_ok u e known may_kill err w' k ds) \<and> pending_wf u w'"

lemma outcome_idle:
  "wd_did w' = wd_did w \<Longrightarrow> pending_wf u w' \<Longrightarrow> outcome_ok u e known k w err w'"
  unfolding outcome_ok_def by (intro conjI exI [of _ "[]"]) (auto simp: trace_ok_def)

lemma trace_mono:
  assumes "trace_ok u e known k err w' l ds" "\<And>v x. known v x \<Longrightarrow> known' v x" "k \<Longrightarrow> k'"
  shows "trace_ok u e known' k' err w' l ds"
proof -
  have "sound sha known d \<Longrightarrow> sound sha known' d" for sha d using assms(2) by (auto simp: sound_def split: deed.splits)
  then show ?thesis using assms(1,3) unfolding trace_ok_def by blast
qed

lemma outcome_mono:
  assumes "outcome_ok u e known k w err w'" "\<And>v x. known v x \<Longrightarrow> known' v x" "k \<Longrightarrow> k'" "wd_did w0 = wd_did w"
  shows "outcome_ok u e known' k' w0 err w'"
  using assms(1,4) trace_mono [OF _ assms(2,3)] unfolding outcome_ok_def by fastforce

lemma pending_wf_frame: "wd_pending w' = wd_pending w \<Longrightarrow> pending_wf u w' = pending_wf u w"
  by (simp add: pending_wf_def)

lemma pending_wf_ops [inv_intros]:
  "pending_wf u w \<Longrightarrow> pending_wf u (snd (check_gate e pt w))"
  "pending_wf u w \<Longrightarrow> pending_wf u (snd (begin_install e pt w))"
  "pending_wf u w \<Longrightarrow> pending_wf u (end_install w)"
  "pending_wf u w \<Longrightarrow> pending_wf u (announce h w)"
  "pending_wf u w \<Longrightarrow> pending_wf u (cleanup x m k w)"
  "pending_wf u w \<Longrightarrow> pending_wf u (clear_pending e op w)"
  "pending_wf u w \<Longrightarrow> at_home u p \<Longrightarrow> pending_wf u (set_pending e op p w)"
  "pending_wf u w \<Longrightarrow> pending_wf u (doing d w)"
  "pending_wf u w \<Longrightarrow> pending_wf u (w\<lparr>wd_files := f\<rparr>)"
  "pending_wf u w \<Longrightarrow> pending_wf u (w\<lparr>wd_pref := pref\<rparr>)"
  "pending_wf u w \<Longrightarrow> pending_wf u (w\<lparr>wd_notified := n\<rparr>)"
  "pending_wf u w \<Longrightarrow> pending_wf u (w\<lparr>wd_trigger := t\<rparr>)"
  by (auto simp: pending_wf_def frame_simps clear_pending_def set_pending_def)

lemma install_outcome:
  assumes "install u e cyc p emly w = (err, w')" "at_home u p" "pending_wf u w"
  shows "outcome_ok u e (install_known u e cyc (ei_Channel emly) p) False w err w'"
proof -
  obtain granted w1 where g: "begin_install e PInstall w = (granted, w1)" by (cases "begin_install e PInstall w")
  have w1: "wd_did w1 = wd_did w" "pending_wf u w1"
    using begin_install_frame(4) [of e PInstall w] pending_wf_ops(2) [OF assms(3), of e PInstall] g by simp_all
  show ?thesis
  proof (cases granted)
    case False
    then show ?thesis using assms(1) g w1 by (intro outcome_idle) (auto simp: install_def)
  next
    case True
    obtain er w2 where b: "install_body u e cyc p emly w1 = (er, w2)" by (cases "install_body u e cyc p emly w1")
    have w': "err = er" "w' = end_install w2" using assms(1) g True b by (auto simp: install_def)
    obtain ds where ds: "wd_did w2 = wd_did w1 @ ds" "\<forall>d \<in> set ds. sound (se_sha u) (install_known u e cyc (ei_Channel emly) p) d"
      "length (setups ds) \<le> 2"
      "er = None \<longrightarrow> (\<exists>v b. last (setups ds) = (v, b) \<and> setups ds \<noteq> [] \<and> VerifyInstalled (se_lib u) (wd_emly w2) v = None) \<and>
         (xe_write_ok e WDone \<longrightarrow> wd_pending w2 = None)"
      "pending_wf u w2"
      using install_body_outcome [OF b assms(2) w1(2)] by blast
    then show ?thesis
      unfolding outcome_ok_def w' using w1 blocked_refuses(1) [of e PInstall w] g True
      by (intro conjI exI [of _ "[]"] exI [of _ ds]) (auto simp: frame_simps trace_ok_def intro: inv_intros)
  qed
qed

lemma outcome_kill:
  assumes "outcome_ok u e known False (doing KilledEMLy w) err w'" "may_kill" "\<not> blocked e PKill"
  shows "outcome_ok u e known may_kill w err w'"
proof -
  obtain k ds where ds: "wd_did w' = wd_did (doing KilledEMLy w) @ k @ ds" "trace_ok u e known False err w' k ds" "pending_wf u w'"
    using assms(1) unfolding outcome_ok_def by blast
  then have "k = []" by (simp add: trace_ok_def)
  then have "wd_did w' = wd_did w @ [KilledEMLy] @ ds" "trace_ok u e known may_kill err w' [KilledEMLy] ds"
    using ds(1,2) assms(2,3) by (simp_all add: frame_simps trace_ok_def)
  with ds(3) show ?thesis unfolding outcome_ok_def by blast
qed

lemma apply_outcome:
  assumes "apply_update u e cyc p emly w = (err, w')" "at_home u p" "pending_wf u w"
  shows "outcome_ok u e (install_known u e cyc (ei_Channel emly) p) (pn_Forced p \<and> xe_running e) w err w'"
proof -
  obtain g1 w1 where c1: "check_gate e PApply w = (g1, w1)" by (cases "check_gate e PApply w")
  have w1: "wd_did w1 = wd_did w" "pending_wf u w1"
    using check_gate_frame(4) [of e PApply w] pending_wf_ops(1) [OF assms(3), of e PApply] c1 by simp_all
  obtain g2 w2 where c2: "check_gate e PKill w1 = (g2, w2)" by (cases "check_gate e PKill w1")
  have w2: "wd_did w2 = wd_did w" "pending_wf u w2"
    using check_gate_frame(4) [of e PKill w1] pending_wf_ops(1) [OF w1(2), of e PKill] c2 w1(1) by simp_all
  have inst: "outcome_ok u e (install_known u e cyc (ei_Channel emly) p) (pn_Forced p \<and> xe_running e) w err w'"
    if "install u e cyc p emly w1 = (err, w')"
    by (rule outcome_mono [OF install_outcome [OF that assms(2) w1(2)]]) (use w1 in auto)
  have kill: "outcome_ok u e (install_known u e cyc (ei_Channel emly) p) (pn_Forced p \<and> xe_running e) w err w'"
    if "install u e cyc p emly (doing KilledEMLy w2) = (err, w')" "pn_Forced p" "xe_running e" "\<not> g2"
  proof -
    have "outcome_ok u e (install_known u e cyc (ei_Channel emly) p) (pn_Forced p \<and> xe_running e) w2 err w'"
      by (rule outcome_kill [OF install_outcome [OF that(1) assms(2) pending_wf_ops(8) [OF w2(2)]]])
         (use that blocked_refuses(2) [of e PKill w1] c2 in auto)
    then show ?thesis by (rule outcome_mono) (use w2 in auto)
  qed
  have idle1: "outcome_ok u e (install_known u e cyc (ei_Channel emly) p) (pn_Forced p \<and> xe_running e) w err w'" if "w' = w1"
    using that w1 by (intro outcome_idle) auto
  have idle2: "outcome_ok u e (install_known u e cyc (ei_Channel emly) p) (pn_Forced p \<and> xe_running e) w err w'" if "w' = w2"
    using that w2 by (intro outcome_idle) auto
  show ?thesis
    using assms(1) unfolding apply_update_def c1 prod.case
    using inst kill idle1 idle2 c2 by (simp split: if_splits)
qed


definition critical :: "'b service_setup \<Rightarrow> (string, manifest) renv \<Rightarrow> cycle_state \<Rightarrow> emly_info \<Rightarrow> bool" where
  "critical u E cyc emly \<longleftrightarrow>
     (\<exists>pref src m t. fst (resolveTargetWith (se_lib u) E cyc (ei_Channel emly) True pref) = Inr (src, m, t) \<and>
        Forced (se_lib u) m (ei_InstalledVersion emly) = Inr True)"

definition manifest_known :: "'b service_setup \<Rightarrow> 'b cyc_env \<Rightarrow> cycle_state \<Rightarrow> string \<Rightarrow> string \<Rightarrow> string \<Rightarrow> bool" where
  "manifest_known u e cyc channel v x \<longleftrightarrow>
     published u (xe_fetch e) cyc channel v x \<or> published u (xe_refetch e) cyc channel v x"

lemma poll_outcome:
  assumes "poll u e cyc emly w = (err, w')" "pending_wf u w"
  shows "outcome_ok u e (manifest_known u e cyc (ei_Channel emly)) (critical u (xe_fetch e) cyc emly \<and> xe_running e) w err w'"
proof -
  let ?R = "resolveTargetWith (se_lib u) (xe_fetch e) cyc (ei_Channel emly) True (wd_pref w)"
  obtain res pref where r: "?R = (res, pref)" by (cases ?R)
  show ?thesis
  proof (cases res)
    case (Inl er)
    then have "w' = notifySourcesUnreachable e (w\<lparr>wd_pref := pref\<rparr>)" using assms(1) r by (auto simp: poll_def Let_def)
    then show ?thesis
      using assms(2) by (intro outcome_idle) (auto simp: notifySourcesUnreachable_def pending_wf_def)
  next
    case (Inr x)
    obtain src m t where x: "x = (src, m, t)" by (cases x)
    let ?w = "w\<lparr>wd_pref := pref, wd_notified := False\<rparr>"
    have wf: "pending_wf u ?w" using assms(2) by (simp add: pending_wf_def)
    consider (stop) "w' = ?w \<or> w' = cleanup e (se_downloads u) [] ?w"
      | (go) forced where "Forced (se_lib u) m (ei_InstalledVersion emly) = Inr forced"
          "(case Ensure (se_sha u) (se_downloads u) (xe_dl e) t (wd_files ?w) of
              (f, Inl er) \<Rightarrow> (Some (DownloadFailed er), (announce (announceUpdate ''emly'' (t_Version t)) ?w)\<lparr>wd_files := f\<rparr>)
            | (f, Inr path) \<Rightarrow>
                (let p = \<lparr>pn_Version = t_Version t, pn_SetupPath = path, pn_SHA256 = t_SHA256 t,
                          pn_Forced = forced, pn_DownloadedAt = xe_now e\<rparr>
                 in apply_update u e cyc p emly
                      (set_pending e WSetPending p ((announce (announceUpdate ''emly'' (t_Version t)) ?w)\<lparr>wd_files := f\<rparr>)))) = (err, w')"
      using assms(1) r Inr x by (auto simp: poll_def Let_def frame_simps split: sum.splits if_splits)
    then show ?thesis
    proof cases
      case stop
      then show ?thesis using wf by (intro outcome_idle) (auto simp: frame_simps intro: inv_intros)
    next
      case (go forced)
      obtain f y where en: "Ensure (se_sha u) (se_downloads u) (xe_dl e) t (wd_files ?w) = (f, y)"
        by (cases "Ensure (se_sha u) (se_downloads u) (xe_dl e) t (wd_files ?w)")
      show ?thesis
      proof (cases y)
        case (Inl er)
        then show ?thesis using go en wf by (intro outcome_idle) (auto simp: frame_simps intro!: inv_intros)
      next
        case path: (Inr path)
        define p where "p = \<lparr>pn_Version = t_Version t, pn_SetupPath = path, pn_SHA256 = t_SHA256 t,
                          pn_Forced = forced, pn_DownloadedAt = xe_now e\<rparr>"
        define w1 where "w1 = set_pending e WSetPending p ((announce (announceUpdate ''emly'' (t_Version t)) ?w)\<lparr>wd_files := f\<rparr>)"
        have home: "at_home u p" using Ensure_result [OF en [unfolded path]] by (simp add: at_home_def p_def)
        have a: "apply_update u e cyc p emly w1 = (err, w')" using go(2) en path by (simp add: p_def w1_def Let_def)
        have wf1: "pending_wf u w1" unfolding w1_def by (intro inv_intros wf home)
        have did: "wd_did w1 = wd_did w" by (simp add: w1_def frame_simps)
        have pub: "published u (xe_fetch e) cyc (ei_Channel emly) (t_Version t) (t_SHA256 t)"
          unfolding published_def using r Inr x by (metis fst_conv)
        have crit: "forced \<Longrightarrow> critical u (xe_fetch e) cyc emly"
          unfolding critical_def using r Inr x go(1) by (metis fst_conv)
        show ?thesis
          by (rule outcome_mono [OF apply_outcome [OF a home wf1]])
             (use pub crit did in \<open>auto simp: install_known_def manifest_known_def p_def\<close>)
      qed
    qed
  qed
qed

definition cycle_known :: "'b service_setup \<Rightarrow> 'b cyc_env \<Rightarrow> cycle_state \<Rightarrow> string \<Rightarrow> pending option \<Rightarrow> string \<Rightarrow> string \<Rightarrow> bool" where
  "cycle_known u e cyc channel pend v x \<longleftrightarrow>
     (\<exists>p. pend = Some p \<and> v = pn_Version p \<and> x = pn_SHA256 p) \<or> manifest_known u e cyc channel v x"

definition cycle_kills :: "'b service_setup \<Rightarrow> 'b cyc_env \<Rightarrow> cycle_state \<Rightarrow> emly_info \<Rightarrow> pending option \<Rightarrow> bool" where
  "cycle_kills u e cyc emly pend \<longleftrightarrow>
     xe_running e \<and> ((\<exists>p. pend = Some p \<and> pn_Forced p) \<or> critical u (xe_fetch e) cyc emly)"

lemma resume_outcome:
  assumes "resume u e cyc emly w = (err, w')" "pending_wf u w"
  shows "outcome_ok u e (cycle_known u e cyc (ei_Channel emly) (wd_pending w)) (cycle_kills u e cyc emly (wd_pending w)) w err w'"
proof -
  have poll: "outcome_ok u e (cycle_known u e cyc (ei_Channel emly) (wd_pending w)) (cycle_kills u e cyc emly (wd_pending w)) w err w'"
    if "poll u e cyc emly w1 = (err, w')" "pending_wf u w1" "wd_did w1 = wd_did w" for w1
    by (rule outcome_mono [OF poll_outcome [OF that(1,2)]]) (use that(3) in \<open>auto simp: cycle_known_def cycle_kills_def\<close>)
  show ?thesis
  proof (cases "if xe_load_pending e then wd_pending w else None")
    case None
    then show ?thesis using assms poll [of w] by (simp add: resume_def)
  next
    case (Some p)
    then have p: "wd_pending w = Some p" "at_home u p" using assms(2) by (auto simp: pending_wf_def split: if_splits)
    let ?w = "w\<lparr>wd_trigger := ''resume''\<rparr>"
    have app: "outcome_ok u e (cycle_known u e cyc (ei_Channel emly) (wd_pending w)) (cycle_kills u e cyc emly (wd_pending w)) w err w'"
      if "apply_update u e cyc p emly ?w = (err, w')"
      by (rule outcome_mono [OF apply_outcome [OF that p(2)]])
         (use p assms(2) in \<open>auto simp: cycle_known_def cycle_kills_def install_known_def manifest_known_def intro: inv_intros\<close>)
    have wf: "pending_wf u (clear_pending e WDiscard w)"
      "pending_wf u (cleanup e (se_downloads u) [] (clear_pending e WSatisfied w))"
      "pending_wf u (clear_pending e WCorrupt (w\<lparr>wd_files := rm (xe_dl e) (pn_SetupPath p) (wd_files w)\<rparr>))"
      by (intro inv_intros assms(2))+
    note polls = poll [OF _ wf(1)] poll [OF _ wf(2)] poll [OF _ wf(3)]
    show ?thesis
    proof (cases "Less (se_lib u) (ei_InstalledVersion emly) (pn_Version p)")
      case (Inl er)
      then show ?thesis using assms(1) Some polls(1) by (simp add: resume_def frame_simps)
    next
      case (Inr needed)
      show ?thesis
        using assms(1) Some Inr polls(2,3) app
        by (cases needed; cases "VerifyFile (se_sha u) (xe_rd e) (wd_files w) (pn_SetupPath p) (pn_SHA256 p)")
           (simp_all add: resume_def frame_simps)
    qed
  qed
qed


text \<open>What the first steps of a cycle leave alone.\<close>

definition untouched :: "'b world \<Rightarrow> 'b world \<Rightarrow> bool" where
  "untouched w w' \<longleftrightarrow> wd_did w' = wd_did w \<and> wd_pending w' = wd_pending w \<and> wd_files w' = wd_files w \<and>
     wd_self w' = wd_self w \<and> wd_emly w' = wd_emly w"

lemma check_gate_open: "check_gate e pt w = (False, w') \<Longrightarrow> gate_open e pt (wd_gate w)"
  by (auto simp: check_gate_def gate_open_def gate_defs Let_def split: if_splits prod.splits)

definition emly_now :: "cycle_state \<Rightarrow> 'b world \<Rightarrow> emly_info" where
  "emly_now cyc w = ResolveEMLyWithChannel (wd_emly w) (us_Channel (d_Updater (e_Doc (cy_eff cyc))))"

lemma Cycle_cases:
  assumes "Cycle u e wake cyc w = (err, w')"
  obtains (skipped) "untouched w w'" "err = None"
  | (self) w1 where "enabled_now u cyc" "gate_open e PCycle (wd_gate w)" "untouched w w1"
      "selfUpdate u e cyc w1 = (True, w')" "err = None"
  | (emly) w1 w2 where "enabled_now u cyc" "gate_open e PCycle (wd_gate w)" "untouched w w1"
      "selfUpdate u e cyc w1 = (False, w2)" "resume u e cyc (emly_now cyc w) w2 = (err, w')"
proof -
  define w0 where "w0 = w\<lparr>wd_trigger := (if wake = [] then ''cycle'' else wake),
      wd_certs := fst (ensureCertificate (xe_cert e) (tg_Enabled (us_InstallCertificate (d_Updater (e_Doc (cy_eff cyc)))))
                         (xe_der e) (xe_sid e) (wd_certs w)), wd_paused := \<not> enabled_now u cyc\<rparr>"
  have C: "(err, w') = (if \<not> enabled_now u cyc then (None, w0)
      else case check_gate e PCycle w0 of
        (pend, w) \<Rightarrow> if pend then (None, w)
          else case selfUpdate u e cyc w of
            (launched, w) \<Rightarrow> if launched then (None, w) else resume u e cyc (emly_now cyc w) w)"
    unfolding assms [symmetric] Cycle_def Let_def w0_def emly_now_def ..
  have u0: "untouched w w0" "wd_gate w0 = wd_gate w" by (simp_all add: untouched_def w0_def)
  show thesis
  proof (cases "enabled_now u cyc")
    case False
    then show thesis using C u0 skipped by auto
  next
    case True
    obtain pend w1 where g: "check_gate e PCycle w0 = (pend, w1)" by (cases "check_gate e PCycle w0")
    have u1: "untouched w w1" using u0(1) check_gate_frame [of e PCycle w0] g by (simp add: untouched_def)
    show thesis
    proof (cases pend)
      case True
      then show thesis using C g u1 \<open>enabled_now u cyc\<close> skipped by auto
    next
      case False
      have op: "gate_open e PCycle (wd_gate w)" using check_gate_open g False u0(2) by fastforce
      obtain launched w2 where s: "selfUpdate u e cyc w1 = (launched, w2)" by (cases "selfUpdate u e cyc w1")
      have "emly_now cyc w2 = emly_now cyc w"
        using selfUpdate_frame(2) [of u e cyc w1] s u1 by (simp add: emly_now_def untouched_def)
      then show thesis using C g False s True self [OF True op u1] emly [OF True op u1] by (cases launched) auto
    qed
  qed
qed

lemma Cycle_trace:
  assumes "Cycle u e wake cyc w = (err, w')" "pending_wf u w" "\<forall>v. apart u (SetupPath (se_selfDownloads u) v)"
  shows "pending_wf u w' \<and>
    (wd_did w' = wd_did w \<or>
     enabled_now u cyc \<and> gate_open e PCycle (wd_gate w) \<and>
     ((\<exists>v b. wd_did w' = wd_did w @ [LaunchedSelf v b] \<and> xe_signed e b \<and> Less (se_lib u) (se_version u) v = Inr True \<and> err = None) \<or>
      (\<exists>k ds. wd_did w' = wd_did w @ k @ ds \<and>
         trace_ok u e (cycle_known u e cyc (ei_Channel (emly_now cyc w)) (wd_pending w))
           (cycle_kills u e cyc (emly_now cyc w) (wd_pending w)) err w' k ds)))"
  using assms(1)
proof (cases rule: Cycle_cases)
  case skipped
  then show ?thesis using assms(2) by (simp add: untouched_def pending_wf_def)
next
  case (self w1)
  have p: "wd_pending w' = wd_pending w" using selfUpdate_frame(1) [of u e cyc w1] self by (simp add: untouched_def)
  show ?thesis
    using selfUpdate_launch [OF self(4) assms(3)] self(1,2,3,5) p assms(2) by (auto simp: untouched_def pending_wf_def)
next
  case (emly w1 w2)
  have w2: "wd_did w2 = wd_did w" "wd_pending w2 = wd_pending w"
    using selfUpdate_launch [OF emly(4) assms(3)] selfUpdate_frame(1) [of u e cyc w1] emly(3,4) by (simp_all add: untouched_def)
  then have "pending_wf u w2" using assms(2) by (simp add: pending_wf_def)
  from resume_outcome [OF emly(5) this] show ?thesis using emly(1,2) w2 by (auto simp: outcome_ok_def)
qed

section \<open>Properties\<close>

text \<open>
  Only verified setups of a known release are run, and EMLy is only killed for a forced
  update. Whatever one cycle does to the machine, every EMLy setup it runs has the
  non-empty SHA-256 that the pending record or a manifest resolved in this cycle names for
  its version, at most two setups are run, EMLy is killed at most once, before any setup and
  only while it is running and the update is forced; a setup of the updater itself is
  signed, newer than the running build and the only thing done; and nothing is done at all
  while the policy pauses the updater or a restart or reboot is committed when the cycle
  starts. The record of the pending update keeps pointing into the downloads directory.
\<close>

theorem Cycle_runs_verified:
  assumes "Cycle u e wake cyc w = (err, w')" "pending_wf u w" "\<forall>v. apart u (SetupPath (se_selfDownloads u) v)"
  shows "pending_wf u w' \<and> (\<exists>ds. wd_did w' = wd_did w @ ds \<and>
    (\<forall>v b. RanSetup v b \<in> set ds \<longrightarrow>
       (\<exists>x. x \<noteq> [] \<and> EqualFold (se_sha u b) x \<and> cycle_known u e cyc (ei_Channel (emly_now cyc w)) (wd_pending w) v x)) \<and>
    (KilledEMLy \<in> set ds \<longrightarrow>
       hd ds = KilledEMLy \<and> KilledEMLy \<notin> set (tl ds) \<and> cycle_kills u e cyc (emly_now cyc w) (wd_pending w)) \<and>
    (\<forall>v b. LaunchedSelf v b \<in> set ds \<longrightarrow>
       ds = [LaunchedSelf v b] \<and> xe_signed e b \<and> Less (se_lib u) (se_version u) v = Inr True) \<and>
    length (setups ds) \<le> 2 \<and>
    (ds \<noteq> [] \<longrightarrow> enabled_now u cyc \<and> gate_open e PCycle (wd_gate w)))"
proof -
  note T = Cycle_trace [OF assms]
  then consider (none) "wd_did w' = wd_did w"
    | (self) v b where "enabled_now u cyc" "gate_open e PCycle (wd_gate w)" "wd_did w' = wd_did w @ [LaunchedSelf v b]"
        "xe_signed e b" "Less (se_lib u) (se_version u) v = Inr True"
    | (emly) k ds where "enabled_now u cyc" "gate_open e PCycle (wd_gate w)" "wd_did w' = wd_did w @ k @ ds"
        "trace_ok u e (cycle_known u e cyc (ei_Channel (emly_now cyc w)) (wd_pending w))
           (cycle_kills u e cyc (emly_now cyc w) (wd_pending w)) err w' k ds" by blast
  then show ?thesis
  proof cases
    case none
    then show ?thesis using T by (intro conjI exI [of _ "[]"]) auto
  next
    case (self v b)
    then show ?thesis using T by (intro conjI exI [of _ "[LaunchedSelf v b]"]) auto
  next
    case (emly k ds)
    have s: "sound (se_sha u) (cycle_known u e cyc (ei_Channel (emly_now cyc w)) (wd_pending w)) d" if "d \<in> set ds" for d
      using emly(4) that by (simp add: trace_ok_def)
    have a: "KilledEMLy \<notin> set ds" using s [of KilledEMLy] by (auto simp: sound_def)
    have b: "LaunchedSelf v b \<notin> set ds" for v b using s [of "LaunchedSelf v b"] by (auto simp: sound_def)
    have c: "\<exists>x. x \<noteq> [] \<and> EqualFold (se_sha u b) x \<and> cycle_known u e cyc (ei_Channel (emly_now cyc w)) (wd_pending w) v x"
      if "RanSetup v b \<in> set ds" for v b using s [OF that] by (auto simp: sound_def)
    have k: "k = [] \<or> cycle_kills u e cyc (emly_now cyc w) (wd_pending w) \<and> k = [KilledEMLy]" "length (setups ds) \<le> 2"
      using emly(4) by (simp_all add: trace_ok_def)
    have "setups (k @ ds) = setups ds" using k(1) by auto
    moreover have "KilledEMLy \<in> set (k @ ds) \<longrightarrow> hd (k @ ds) = KilledEMLy \<and> KilledEMLy \<notin> set (tl (k @ ds)) \<and>
        cycle_kills u e cyc (emly_now cyc w) (wd_pending w)" using k(1) a by auto
    moreover have "RanSetup v b \<notin> set k" "LaunchedSelf v b \<notin> set (k @ ds)" for v b
      using k(1) b by auto
    ultimately show ?thesis
      using conjunct1 [OF T] emly(1-3) k(2) c by (intro conjI exI [of _ "k @ ds"]) simp_all
  qed
qed



text \<open>The gate as it is found when no command goroutine interferes and none is committed.\<close>

definition quiet :: "'b cyc_env \<Rightarrow> 'b world \<Rightarrow> bool" where
  "quiet e w \<longleftrightarrow> (\<forall>pt g. xe_interfere e pt g = g) \<and> \<not> ga_pending (wd_gate w)"

lemma quiet_check: "quiet e w \<Longrightarrow> check_gate e pt w = (False, w)"
  by (cases "wd_gate w") (simp add: quiet_def check_gate_def gate_defs drop_gone_def)

lemma quiet_begin:
  "quiet e w \<Longrightarrow> begin_install e pt w = (True, w\<lparr>wd_gate := (wd_gate w)\<lparr>ga_installing := ga_installing (wd_gate w) + 1\<rparr>\<rparr>)"
  by (simp add: quiet_def begin_install_def gate_defs drop_gone_def)

lemma install_works:
  assumes "quiet e w" "VerifyFile (se_sha u) (xe_rd e) (wd_files w) (pn_SetupPath p) (pn_SHA256 p) = None"
    and "\<And>b. xe_run e 1 b (wd_emly w) = (None, sec)" "VerifyInstalled (se_lib u) sec (pn_Version p) = None"
    and "install u e cyc p emly w = (err, w')"
  shows "err = None" "wd_did w' = wd_did w @ [RanSetup (pn_Version p) (the (wd_files w (pn_SetupPath p)))]" "wd_emly w' = sec"
    "xe_write_ok e WDone \<Longrightarrow> wd_pending w' = None" "wd_gate w' = wd_gate w"
proof -
  obtain b where b: "wd_files w (pn_SetupPath p) = Some b" using VerifyFile_None [OF assms(2)] by (auto simp: verified_def)
  have r: "runSetupAndVerify u e (Suc 0) p v = (None, doing (RanSetup (pn_Version p) b) (v\<lparr>wd_emly := sec\<rparr>))"
    if "wd_files v = wd_files w" "wd_emly v = wd_emly w" for v
    using that b assms(3,4) by (simp add: runSetupAndVerify_def run_setup_def frame_simps One_nat_def [symmetric] del: One_nat_def)
  show "err = None" "wd_did w' = wd_did w @ [RanSetup (pn_Version p) (the (wd_files w (pn_SetupPath p)))]" "wd_emly w' = sec"
    "xe_write_ok e WDone \<Longrightarrow> wd_pending w' = None" "wd_gate w' = wd_gate w"
    using assms(2,5) b
    by (auto simp: install_def quiet_begin [OF assms(1)] install_body_def r frame_simps end_install_def endInstall_def)
qed


text \<open>
  When the clean reinstall cannot re-download, nothing is left to retry with. If the first
  setup fails and the manifest cannot be resolved again, the cached setup has already been
  deleted and the pending record cleared: the second run cannot start, the uninstaller
  has been run, and after the cycle EMLy is whatever the uninstaller left, the setup is
  gone and no pending record remains, although the code means to retry with the cached copy
  and to keep the record for the next cycle.
\<close>

theorem failed_redownload_strands:
  assumes "install u e cyc p emly w = (err, w')" "quiet e w" "at_home u p"
    and "VerifyFile (se_sha u) (xe_rd e) (wd_files w) (pn_SetupPath p) (pn_SHA256 p) = None"
    and "\<And>b. xe_run e 1 b (wd_emly w) = (Some failure, sec)"
    and "\<And>pref. \<exists>x. fst (resolveTargetWith (se_lib u) (xe_refetch e) cyc (ei_Channel emly) True pref) = Inl x"
    and "(setup_name (se_downloads u) (pn_Version p), False) \<in> set (xe_list e (mg_Dir (se_downloads u)) (wd_files w))"
    and "\<forall>n. xe_rm_ok e n" "\<forall>op. xe_write_ok e op" "xe_uninstaller e"
  shows "err = Some (SetupFailed (''failed to start '' @ pn_SetupPath p)) \<and> wd_pending w' = None \<and>
    wd_files w' (pn_SetupPath p) = None \<and> wd_emly w' = xe_uninstall e sec \<and>
    wd_did w' = wd_did w @ [RanSetup (pn_Version p) (the (wd_files w (pn_SetupPath p))), RanUninstaller]"
proof -
  obtain b where b: "wd_files w (pn_SetupPath p) = Some b" using VerifyFile_None [OF assms(4)] by (auto simp: verified_def)
  have r1: "runSetupAndVerify u e (Suc 0) p v = (Some failure, doing (RanSetup (pn_Version p) b) (v\<lparr>wd_emly := sec\<rparr>))"
    if "wd_files v = wd_files w" "wd_emly v = wd_emly w" for v
    using that b assms(5) by (simp add: runSetupAndVerify_def run_setup_def frame_simps One_nat_def [symmetric] del: One_nat_def)
  have gone: "wd_files (cleanup e (se_downloads u) [] v) (pn_SetupPath p) = None" if "wd_files v = wd_files w" for v
  proof -
    have "cleanup_removes (se_downloads u) [] (setup_name (se_downloads u) (pn_Version p), False)"
      by (simp add: cleanup_removes_def setup_name_def prefix_def DefaultPrefix_def split: if_splits)
    then show ?thesis
      using that assms(3,7,8) by (auto simp: cleanup_def CleanupExcept_file at_home_def SetupPath_def)
  qed
  have fr: "\<exists>x pref. forceRedownload u e cyc p (ei_Channel emly) v =
      (Inl x, (clear_pending e WWipe (cleanup e (se_downloads u) [] v))\<lparr>wd_pref := pref\<rparr>)" for v
    using assms(6) [of "wd_pref (clear_pending e WWipe (cleanup e (se_downloads u) [] v))"]
    by (auto simp: forceRedownload_def Let_def split: prod.splits sum.splits)
  have r2: "runSetupAndVerify u e 2 p v = (Some (''failed to start '' @ pn_SetupPath p), v)" if "wd_files v (pn_SetupPath p) = None" for v
    using that by (simp add: runSetupAndVerify_def run_setup_def)
  define v1 where "v1 = doing (RanSetup (pn_Version p) b)
      ((started (from_version emly) p (w\<lparr>wd_gate := (wd_gate w)\<lparr>ga_installing := ga_installing (wd_gate w) + 1\<rparr>\<rparr>))\<lparr>wd_emly := sec\<rparr>)"
  have v1: "wd_files v1 = wd_files w" "wd_did v1 = wd_did w @ [RanSetup (pn_Version p) b]" "wd_emly v1 = sec"
    by (simp_all add: v1_def frame_simps)
  obtain x pref where f: "forceRedownload u e cyc p (ei_Channel emly) v1 =
      (Inl x, (clear_pending e WWipe (cleanup e (se_downloads u) [] v1))\<lparr>wd_pref := pref\<rparr>)" using fr by blast
  define v2 where "v2 = uninstall e ((clear_pending e WWipe (cleanup e (se_downloads u) [] v1))\<lparr>wd_pref := pref\<rparr>)"
  have v2: "wd_files v2 (pn_SetupPath p) = None" "wd_did v2 = wd_did v1 @ [RanUninstaller]" "wd_emly v2 = xe_uninstall e sec"
    "wd_pending v2 = None"
    using gone [OF v1(1)] v1 assms(9,10) by (simp_all add: v2_def uninstall_def frame_simps clear_pending_def)
  have "install_body u e cyc p emly (w\<lparr>wd_gate := (wd_gate w)\<lparr>ga_installing := ga_installing (wd_gate w) + 1\<rparr>\<rparr>) =
      clean_install u e cyc p (ei_Channel emly) (from_version emly) v1"
    using assms(4) by (simp add: install_body_def r1 frame_simps v1_def)
  moreover have "\<exists>h. clean_install u e cyc p (ei_Channel emly) (from_version emly) v1 =
      (Some (SetupFailed (''failed to start '' @ pn_SetupPath p)), announce h v2)"
    using f r2 [OF v2(1)] by (simp add: clean_install_def v2_def) blast
  ultimately obtain h where "err = Some (SetupFailed (''failed to start '' @ pn_SetupPath p))" "w' = end_install (announce h v2)"
    using assms(1) by (auto simp: install_def quiet_begin [OF assms(2)])
  then show ?thesis using v1 v2 b by (simp add: frame_simps)
qed

section \<open>Witnesses\<close>

text \<open>The sample machine, with the self-update switched off in its policy.\<close>

definition demo_emly_cycle :: cycle_state where
  "demo_emly_cycle =
     (let eff = cy_eff demo_cycle_state; doc = e_Doc eff
      in demo_cycle_state\<lparr>cy_eff := eff\<lparr>e_Doc := doc\<lparr>d_Updater := (d_Updater doc)\<lparr>us_SelfUpdate := \<lparr>tg_Enabled = False\<rparr>\<rparr>\<rparr>\<rparr>\<rparr>)"

definition demo_run where
  "demo_run = Cycle demo_setup demo_cyc_env [] demo_emly_cycle demo_world"

lemma demo_deeds: "wd_did (snd demo_run) = [RanSetup ''2.0.10'' ''ef'']" "fst demo_run = None"
proof -
  have "(case demo_run of (err, w) \<Rightarrow> (err, wd_did w)) = (None, [RanSetup ''2.0.10'' ''ef''])" by code_simp
  then show "wd_did (snd demo_run) = [RanSetup ''2.0.10'' ''ef'']" "fst demo_run = None"
    by (simp_all add: case_prod_unfold)
qed

lemma demo_wf: "pending_wf demo_setup demo_world" by (simp add: pending_wf_def demo_world_def)

lemma demo_did: "wd_did demo_world = []" by (simp add: demo_world_def)

lemma demo_run_eq: "Cycle demo_setup demo_cyc_env [] demo_emly_cycle demo_world = (None, snd demo_run)"
  using demo_deeds(2) by (simp add: demo_run_def prod_eq_iff)

theorem Cycle_runs_verified_witness:
  "\<exists>x. x \<noteq> [] \<and> EqualFold ''ef'' x \<and> cycle_known demo_setup demo_cyc_env demo_emly_cycle
     (ei_Channel (emly_now demo_emly_cycle demo_world)) (wd_pending demo_world) ''2.0.10'' x"
proof -
  have "\<forall>v. apart demo_setup (SetupPath (se_selfDownloads demo_setup) v)" using demo_apart by blast
  from Cycle_runs_verified [OF demo_run_eq demo_wf this] obtain ds where
    "wd_did (snd demo_run) = ds" "\<forall>v b. RanSetup v b \<in> set ds \<longrightarrow> (\<exists>x. x \<noteq> [] \<and> EqualFold (se_sha demo_setup b) x \<and>
       cycle_known demo_setup demo_cyc_env demo_emly_cycle (ei_Channel (emly_now demo_emly_cycle demo_world))
         (wd_pending demo_world) v x)"
    unfolding demo_did by auto
  then show ?thesis using demo_deeds(1) by (auto simp: demo_self_facts)
qed



text \<open>The same machine with a setup that fails and servers that do not answer again.\<close>

definition demo_broken :: "string cyc_env" where
  "demo_broken = demo_cyc_env\<lparr>xe_run := (\<lambda>_ _ _. (Some ''exit 1'', None)),
     xe_refetch := \<lparr>re_fetch = (\<lambda>_ _. Inl (ErrOther 0)), re_done = (\<lambda>_. True), re_wait = (\<lambda>_. True)\<rparr>,
     xe_list := (\<lambda>_ _. [(setup_name (se_downloads demo_setup) ''2.0.10'', False)])\<rparr>"

definition demo_pending :: pending where
  "demo_pending = \<lparr>pn_Version = ''2.0.10'', pn_SetupPath = SetupPath (se_downloads demo_setup) ''2.0.10'', pn_SHA256 = ''ef'',
     pn_Forced = False, pn_DownloadedAt = 1\<rparr>"

definition demo_ready :: "string world" where
  "demo_ready = demo_world\<lparr>wd_files := (\<lambda>_. Some ''ef''), wd_pending := Some demo_pending\<rparr>"

lemma resolveWith_dead:
  assumes "\<forall>s. re_fetch E s 0 = Inl er" "re_done E 0"
  shows "rd_result (resolveWith E r) = Inl (Some ErrContext)"
proof -
  obtain n where "effective_attempts (rv_Attempts r) = Suc n"
    by (cases "effective_attempts (rv_Attempts r)") (auto simp: effective_attempts_def split: if_splits)
  then show ?thesis using assms by (simp add: resolveWith_def)
qed

theorem failed_redownload_strands_witness:
  "wd_pending (snd (install demo_setup demo_broken demo_emly_cycle demo_pending (emly_now demo_emly_cycle demo_ready) demo_ready)) = None"
proof -
  let ?I = "install demo_setup demo_broken demo_emly_cycle demo_pending (emly_now demo_emly_cycle demo_ready) demo_ready"
  have q: "quiet demo_broken demo_ready"
    by (simp add: quiet_def demo_broken_def demo_cyc_env_def demo_ready_def demo_world_def zero_gate_def)
  have h: "at_home demo_setup demo_pending" by (simp add: at_home_def demo_pending_def)
  have v: "VerifyFile (se_sha demo_setup) (xe_rd demo_broken) (wd_files demo_ready) (pn_SetupPath demo_pending) (pn_SHA256 demo_pending) = None"
    by (simp add: VerifyFile_def demo_self_facts demo_broken_def demo_cyc_env_def demo_ready_def demo_pending_def)
  have x: "xe_run demo_broken 1 b (wd_emly demo_ready) = (Some ''exit 1'', None)" "\<forall>n. xe_rm_ok demo_broken n"
    "\<forall>op. xe_write_ok demo_broken op" "xe_uninstaller demo_broken"
    "(setup_name (se_downloads demo_setup) (pn_Version demo_pending), False)
       \<in> set (xe_list demo_broken (mg_Dir (se_downloads demo_setup)) (wd_files demo_ready))" for b
    by (simp_all add: demo_broken_def demo_cyc_env_def demo_pending_def)
  have r: "\<exists>y. fst (resolveTargetWith (se_lib demo_setup) (xe_refetch demo_broken) demo_emly_cycle
      (ei_Channel (emly_now demo_emly_cycle demo_ready)) True pref) = Inl y" for pref
    unfolding resolveTargetWith_def Let_def case_prod_unfold
    by (subst resolveWith_dead [where er = "ErrOther 0"]) (simp_all add: demo_broken_def)
  from failed_redownload_strands [OF prod.collapse [symmetric, of ?I] q h v x(1) r x(5,2,3,4)] show ?thesis by blast
qed

end
