(* ===== verification/ClientCmd.thy ===== *)
theory ClientCmd
  imports PowerGate PolicyDoc SelfUpdate
begin

text \<open>
  \<^verbatim>\<open>internal/service/clientcmd.go\<close>: the execution of commands from the client channel.
  The dedupe ring, admission, the per-name claim, acknowledgement and result are
  modelled as written; the payload of a read-only command is what the environment
  gives. The ring is shown to be a bounded duplicate filter, and a command runs only
  when policy, transport, arguments and expiry allow it.
\<close>

definition commandRingSize :: nat where "commandRingSize = 64"
definition maxClockSkew :: duration where "maxClockSkew = 5 * Minute"
definition resultPayloadBudget :: nat where "resultPayloadBudget = 60000"

section \<open>The ring\<close>

text \<open>\<open>rg_results\<close> maps an id to its result, \<open>None\<close> while the command has none.\<close>

record 'p ring =
  rg_order :: "string list"
  rg_results :: "'p result option gomap"
  rg_refusals :: "error_code gomap"

definition empty_ring :: "'p ring" where
  "empty_ring = \<lparr>rg_order = [], rg_results = [], rg_refusals = []\<rparr>"

definition ring_add :: "string \<Rightarrow> 'p ring \<Rightarrow> 'p ring" where
  "ring_add i r =
     (let r = r\<lparr>rg_order := rg_order r @ [i], rg_results := AList.update i None (rg_results r)\<rparr>
      in if length (rg_order r) > commandRingSize then
           r\<lparr>rg_results := AList.delete (hd (rg_order r)) (rg_results r),
             rg_refusals := AList.delete (hd (rg_order r)) (rg_refusals r),
             rg_order := tl (rg_order r)\<rparr>
         else r)"

definition ring_lookup :: "string \<Rightarrow> 'p ring \<Rightarrow> 'p result option \<times> error_code option \<times> bool" where
  "ring_lookup i r =
     ((case map_of (rg_results r) i of None \<Rightarrow> None | Some x \<Rightarrow> x),
      map_of (rg_refusals r) i, map_of (rg_results r) i \<noteq> None)"

definition ring_store :: "string \<Rightarrow> 'p result \<Rightarrow> 'p ring \<Rightarrow> 'p ring" where
  "ring_store i res r =
     (if map_of (rg_results r) i \<noteq> None then r\<lparr>rg_results := AList.update i (Some res) (rg_results r)\<rparr> else r)"

definition ring_refuse :: "string \<Rightarrow> error_code \<Rightarrow> 'p ring \<Rightarrow> 'p ring" where
  "ring_refuse i e r = r\<lparr>rg_refusals := AList.update i e (rg_refusals r)\<rparr>"

text \<open>\<^verbatim>\<open>seedCommandRing\<close>, with the commands the state file holds.\<close>

definition seedCommandRing :: "pending_command list \<Rightarrow> 'p ring \<Rightarrow> 'p ring" where
  "seedCommandRing cs r = fold (\<lambda>c. ring_add (pc_ID c)) cs r"

definition seen :: "'p ring \<Rightarrow> string \<Rightarrow> bool" where
  "seen r i \<longleftrightarrow> i \<in> keys (rg_results r)"

lemma ring_lookup_seen: "snd (snd (ring_lookup i r)) \<longleftrightarrow> seen r i"
  by (simp add: ring_lookup_def seen_def map_of_eq_None_iff)

text \<open>Capacity, and the results are those of the remembered ids.\<close>

definition ring_inv :: "'p ring \<Rightarrow> bool" where
  "ring_inv r \<longleftrightarrow> length (rg_order r) \<le> commandRingSize \<and> keys (rg_results r) \<subseteq> set (rg_order r)"

lemma keys_delete: "keys (AList.delete k m) = keys m - {k}"
  by (simp add: AList.delete_eq) force

lemma keys_update_insert: "keys (AList.update k v m) = insert k (keys m)"
  by (simp add: dom_update)

lemma ring_inv_add [inv_intros]: "ring_inv r \<Longrightarrow> ring_inv (ring_add i r)"
proof (cases "rg_order r @ [i]")
  case (Cons x xs)
  assume inv: "ring_inv r"
  have set: "insert i (set (rg_order r)) = insert x (set xs)" using arg_cong [OF Cons, of set] by simp
  have len: "length xs = length (rg_order r)" using arg_cong [OF Cons, of length] by simp
  have sub: "insert i (keys (rg_results r)) \<subseteq> insert x (set xs)"
    using inv set unfolding ring_inv_def by blast
  then have "insert i (keys (rg_results r)) - {x} \<subseteq> set xs" by blast
  then show ?thesis
    using inv Cons len sub
    by (auto simp: ring_inv_def ring_add_def Let_def keys_delete keys_update_insert)
qed simp

lemma ring_inv_store [inv_intros]: "ring_inv r \<Longrightarrow> ring_inv (ring_store i res r)"
  by (auto simp: ring_inv_def ring_store_def keys_update_insert map_of_eq_None_iff)

lemma ring_inv_refuse [inv_intros]: "ring_inv r \<Longrightarrow> ring_inv (ring_refuse i e r)"
  by (simp add: ring_inv_def ring_refuse_def)

lemma ring_inv_empty: "ring_inv empty_ring"
  by (simp add: ring_inv_def empty_ring_def)

lemma seen_add_room:
  "length (rg_order r) < commandRingSize \<Longrightarrow> seen (ring_add i r) j \<longleftrightarrow> j = i \<or> seen r j"
  by (simp add: seen_def ring_add_def Let_def keys_update_insert)

lemma seen_store [simp]: "seen (ring_store i res r) j = seen r j"
  by (auto simp: seen_def ring_store_def keys_update_insert map_of_eq_None_iff)

lemma seen_refuse [simp]: "seen (ring_refuse i e r) j = seen r j"
  by (simp add: seen_def ring_refuse_def)

lemma order_store [simp]: "rg_order (ring_store i res r) = rg_order r"
  by (simp add: ring_store_def)

lemma order_refuse [simp]: "rg_order (ring_refuse i e r) = rg_order r"
  by (simp add: ring_refuse_def)

lemma order_add_room: "length (rg_order r) < commandRingSize \<Longrightarrow> rg_order (ring_add i r) = rg_order r @ [i]"
  by (simp add: ring_add_def Let_def)

section \<open>Admission\<close>

record envelope =
  ms_ID :: string
  ms_TS :: string

text \<open>
  What admission reads: the clock, the policy of the current cycle (none before the
  first), whether the connection is encrypted, and the user's session.
\<close>

record admit_env =
  ae_now :: time
  ae_policy :: "clientws_settings option"
  ae_secure :: bool
  ae_user :: session_state

definition expired_command :: "golib \<Rightarrow> time \<Rightarrow> envelope \<Rightarrow> command \<Rightarrow> bool" where
  "expired_command L now msg cmd =
     (case ParseRFC3339 L (cm_ExpiresAt cmd) of
        None \<Rightarrow> False
      | Some exp \<Rightarrow>
          now > exp \<and>
          (case ParseRFC3339 L (ms_TS msg) of
             None \<Rightarrow> False
           | Some ts \<Rightarrow> time_sub now ts < maxClockSkew \<and> time_sub now ts > - maxClockSkew))"

definition admitCommand ::
  "golib \<Rightarrow> admit_env \<Rightarrow> envelope \<Rightarrow> command \<Rightarrow> gate \<Rightarrow> error_code option \<times> gate \<times> string option" where
  "admitCommand L ae msg cmd g =
     (case ValidateArgs (cm_Name cmd) (cm_Args cmd) of
        Some e \<Rightarrow> (Some e, g, None)
      | None \<Rightarrow>
          if expired_command L (ae_now ae) msg cmd then (Some ErrExpired, g, None)
          else if (case ae_policy ae of None \<Rightarrow> True | Some p \<Rightarrow> \<not> Allows p (cm_Name cmd))
          then (Some ErrDisabledByPolicy, g, None)
          else if Destructive (cm_Name cmd) \<and> \<not> ae_secure ae then (Some ErrInsecureTransport, g, None)
          else admitDestructive (ae_now ae) (ae_user ae) cmd g)"

section \<open>Claims\<close>

definition claimCommand :: "string \<Rightarrow> string set \<Rightarrow> bool \<times> string set" where
  "claimCommand name running = (if name \<in> running then (False, running) else (True, insert name running))"

definition releaseCommand :: "string \<Rightarrow> string set \<Rightarrow> string set" where
  "releaseCommand name running = running - {name}"

section \<open>Execution\<close>

datatype 'p outgoing = SentAck string ack | SentResult string "'p result"

text \<open>
  The state the handler works on: ring, names being run, the gate and pending commands,
  the messages sent, and the ids whose command was really executed.
\<close>

record 'p cmd_world =
  cw_ring :: "'p ring"
  cw_running :: "string set"
  cw_power :: power_world
  cw_sent :: "'p outgoing list"
  cw_executed :: "string list"

record 'p cmd_env =
  ce_admit :: admit_env
  ce_ack_ok :: bool
  ce_power :: power_env
  ce_result :: "'p result"

definition send :: "'p outgoing \<Rightarrow> 'p cmd_world \<Rightarrow> 'p cmd_world" where
  "send x w = w\<lparr>cw_sent := cw_sent w @ [x]\<rparr>"

definition refused_ack :: "error_code \<Rightarrow> bool \<Rightarrow> ack" where
  "refused_ack e dup = \<lparr>ak_Accepted = False, ak_Error = Some e, ak_Duplicate = dup\<rparr>"

definition accepted_ack :: "bool \<Rightarrow> ack" where
  "accepted_ack dup = \<lparr>ak_Accepted = True, ak_Error = None, ak_Duplicate = dup\<rparr>"

text \<open>
  The rest of \<^verbatim>\<open>executeCommand\<close> once the lookup has found the id unknown. The result of a
  read-only command (\<^verbatim>\<open>runReadOnly\<close> and the marshalling of its payload) is the
  environment's. An expiry noticed by admission drops the pending record it names. The
  claim is released when the handler returns, which is what \<open>cw_running\<close> shows.
\<close>

definition executeFresh ::
  "golib \<Rightarrow> 'p cmd_env \<Rightarrow> envelope \<Rightarrow> command \<Rightarrow> 'p cmd_world \<Rightarrow> 'p cmd_world" where
  "executeFresh L e msg cmd w =
     (let i = ms_ID msg;
          w = w\<lparr>cw_ring := ring_add i (cw_ring w)\<rparr>;
          (refusal, g, gone) = admitCommand L (ce_admit e) msg cmd (pw_gate (cw_power w));
          pw = (cw_power w)\<lparr>pw_gate := g\<rparr>;
          w = w\<lparr>cw_power := (case gone of None \<Rightarrow> pw | Some j \<Rightarrow> drop_command (ce_power e) j pw)\<rparr>
      in case refusal of
           Some err \<Rightarrow>
             send (SentAck i (refused_ack err False)) (w\<lparr>cw_ring := ring_refuse i err (cw_ring w)\<rparr>)
         | None \<Rightarrow>
             (let (ok, running) = claimCommand (cm_Name cmd) (cw_running w) in
              if \<not> ok then
                send (SentAck i (refused_ack ErrBusy False)) (w\<lparr>cw_ring := ring_refuse i ErrBusy (cw_ring w)\<rparr>)
              else let w = w\<lparr>cw_running := releaseCommand (cm_Name cmd) running\<rparr> in
              if \<not> ce_ack_ok e then w
              else let w = send (SentAck i (accepted_ack False)) w in
              if Destructive (cm_Name cmd) then
                w\<lparr>cw_power := runDestructive (ce_power e) i cmd (cw_power w), cw_executed := cw_executed w @ [i]\<rparr>
              else
                send (SentResult i (ce_result e))
                  (w\<lparr>cw_ring := ring_store i (ce_result e) (cw_ring w), cw_executed := cw_executed w @ [i]\<rparr>)))"

definition replay :: "string \<Rightarrow> 'p cmd_world \<Rightarrow> 'p cmd_world" where
  "replay i w =
     (case ring_lookup i (cw_ring w) of
        (_, Some refusal, _) \<Rightarrow> send (SentAck i (refused_ack refusal True)) w
      | (None, None, _) \<Rightarrow> send (SentAck i (accepted_ack True)) w
      | (Some res, None, _) \<Rightarrow> send (SentResult i res) (send (SentAck i (accepted_ack True)) w))"

definition executeCommand ::
  "golib \<Rightarrow> 'p cmd_env \<Rightarrow> envelope \<Rightarrow> command \<Rightarrow> 'p cmd_world \<Rightarrow> 'p cmd_world" where
  "executeCommand L e msg cmd w =
     (if ms_ID msg = [] then send (SentAck [] (refused_ack ErrInvalidArgs False)) w
      else if snd (snd (ring_lookup (ms_ID msg) (cw_ring w))) then replay (ms_ID msg) w
      else executeFresh L e msg cmd w)"

text \<open>A sequence of deliveries, each handled to its end before the next.\<close>

type_synonym 'p delivery = "'p cmd_env \<times> envelope \<times> command"

fun deliver :: "golib \<Rightarrow> 'p delivery list \<Rightarrow> 'p cmd_world \<Rightarrow> 'p cmd_world" where
  "deliver L [] w = w"
| "deliver L ((e, msg, cmd) # ds) w = deliver L ds (executeCommand L e msg cmd w)"

section \<open>Lemmas\<close>

lemma executeFresh_ring:
  "\<exists>f. cw_ring (executeFresh L e msg cmd w) = f (ring_add (ms_ID msg) (cw_ring w)) \<and>
       f \<in> {id, ring_store (ms_ID msg) (ce_result e)} \<union> range (ring_refuse (ms_ID msg))"
proof -
  obtain ref g gone where a: "admitCommand L (ce_admit e) msg cmd (pw_gate (cw_power w)) = (ref, g, gone)"
    by (metis prod_cases3)
  show ?thesis
    by (cases ref) (auto simp: executeFresh_def a Let_def send_def claimCommand_def intro: exI [of _ id])
qed

lemma executeFresh_seen:
  assumes "length (rg_order (cw_ring w)) < commandRingSize"
  shows "seen (cw_ring (executeFresh L e msg cmd w)) j \<longleftrightarrow> j = ms_ID msg \<or> seen (cw_ring w) j"
    and "length (rg_order (cw_ring (executeFresh L e msg cmd w))) = Suc (length (rg_order (cw_ring w)))"
  using executeFresh_ring [of L e msg cmd w] seen_add_room [OF assms] order_add_room [OF assms] by auto

lemma executeFresh_executed:
  "cw_executed (executeFresh L e msg cmd w) \<in> {cw_executed w, cw_executed w @ [ms_ID msg]}"
proof -
  obtain ref g gone where a: "admitCommand L (ce_admit e) msg cmd (pw_gate (cw_power w)) = (ref, g, gone)"
    by (metis prod_cases3)
  show ?thesis by (cases ref) (auto simp: executeFresh_def a Let_def send_def claimCommand_def)
qed

lemma executeFresh_admitted:
  assumes "cw_executed (executeFresh L e msg cmd w) \<noteq> cw_executed w"
  shows "fst (admitCommand L (ce_admit e) msg cmd (pw_gate (cw_power w))) = None \<and>
    cm_Name cmd \<notin> cw_running w \<and> ce_ack_ok e \<and>
    SentAck (ms_ID msg) (accepted_ack False) \<in> set (cw_sent (executeFresh L e msg cmd w))"
proof -
  obtain ref g gone where a: "admitCommand L (ce_admit e) msg cmd (pw_gate (cw_power w)) = (ref, g, gone)"
    by (metis prod_cases3)
  show ?thesis
    using assms by (cases ref) (auto simp: executeFresh_def a Let_def send_def claimCommand_def split: if_splits)
qed

lemma admitCommand_None:
  assumes "fst (admitCommand L ae msg cmd g) = None"
  shows "ValidateArgs (cm_Name cmd) (cm_Args cmd) = None \<and> \<not> expired_command L (ae_now ae) msg cmd \<and>
    (\<exists>p. ae_policy ae = Some p \<and> Allows p (cm_Name cmd)) \<and>
    (Destructive (cm_Name cmd) \<longrightarrow> ae_secure ae \<and> \<not> ga_installing g > 0 \<and>
       \<not> fst (destructivePendingNow (ae_now ae) g) \<and>
       \<not> (cm_Name cmd = CmdMachineReboot \<and> Mode (rebootArgs (cm_Args cmd)) = WhenUserActiveSkip \<and>
          userActive (ae_user ae)))"
  using assms
  by (auto simp: admitCommand_def admitDestructive_def Let_def split: option.splits if_splits prod.splits)

lemma replay_frame [frame_simps]:
  "cw_ring (replay i w) = cw_ring w" "cw_running (replay i w) = cw_running w"
  "cw_power (replay i w) = cw_power w" "cw_executed (replay i w) = cw_executed w"
  by (auto simp: replay_def send_def split: prod.splits option.splits)

lemma deliver_once:
  assumes "length (rg_order (cw_ring w)) + length ds \<le> commandRingSize"
    and "\<forall>i \<in> set (cw_executed w). seen (cw_ring w) i" and "distinct (cw_executed w)"
  shows "distinct (cw_executed (deliver L ds w)) \<and>
    (\<forall>i \<in> set (cw_executed (deliver L ds w)). i \<in> set (cw_executed w) \<or> \<not> seen (cw_ring w) i)"
  using assms
proof (induction ds arbitrary: w)
  case (Cons d ds)
  obtain e msg cmd where d: "d = (e, msg, cmd)" by (metis prod_cases3)
  let ?w = "executeCommand L e msg cmd w"
  consider (noid) "ms_ID msg = []" | (dup) "ms_ID msg \<noteq> []" "seen (cw_ring w) (ms_ID msg)"
    | (fresh) "ms_ID msg \<noteq> []" "\<not> seen (cw_ring w) (ms_ID msg)" by blast
  then show ?case
  proof cases
    case noid
    then have "cw_ring ?w = cw_ring w" "cw_executed ?w = cw_executed w"
      by (simp_all add: executeCommand_def send_def)
    then show ?thesis using Cons.IH [of ?w] Cons.prems d by simp
  next
    case dup
    then have "cw_ring ?w = cw_ring w" "cw_executed ?w = cw_executed w"
      by (simp_all add: executeCommand_def ring_lookup_seen frame_simps)
    then show ?thesis using Cons.IH [of ?w] Cons.prems d by simp
  next
    case fresh
    have room: "length (rg_order (cw_ring w)) < commandRingSize" using Cons.prems(1) by simp
    have w: "?w = executeFresh L e msg cmd w" using fresh by (simp add: executeCommand_def ring_lookup_seen)
    note s = executeFresh_seen [OF room, of L e msg cmd]
    have ex: "cw_executed ?w = cw_executed w \<or> cw_executed ?w = cw_executed w @ [ms_ID msg]"
      using executeFresh_executed [of L e msg cmd w] w by auto
    have "distinct (cw_executed (deliver L ds ?w)) \<and>
      (\<forall>i \<in> set (cw_executed (deliver L ds ?w)). i \<in> set (cw_executed ?w) \<or> \<not> seen (cw_ring ?w) i)"
    proof (rule Cons.IH)
      show "length (rg_order (cw_ring ?w)) + length ds \<le> commandRingSize" using s(2) w Cons.prems(1) by simp
      show "\<forall>i \<in> set (cw_executed ?w). seen (cw_ring ?w) i" using ex s(1) w Cons.prems(2) by auto
      show "distinct (cw_executed ?w)" using ex fresh Cons.prems(2,3) by auto
    qed
    then show ?thesis using d ex s(1) w fresh by auto
  qed
qed simp

section \<open>Properties\<close>

text \<open>
  C13: A command runs only when everything allows it. If handling a delivery executes a
  command, then the id is new and not empty, the arguments passed validation, the
  command had not expired by the server's own clock, the policy of the current cycle
  names it, no instance of the same command was running, and the acceptance was sent
  first; a destructive command moreover came over an encrypted connection, with no
  install in flight and no other destructive command committed, and a reboot with mode
  skip found nobody at the machine.
\<close>

theorem command_runs_only_if_allowed:
  assumes "cw_executed (executeCommand L e msg cmd w) \<noteq> cw_executed w"
  shows "ms_ID msg \<noteq> [] \<and> \<not> seen (cw_ring w) (ms_ID msg) \<and>
    ValidateArgs (cm_Name cmd) (cm_Args cmd) = None \<and> \<not> expired_command L (ae_now (ce_admit e)) msg cmd \<and>
    (\<exists>p. ae_policy (ce_admit e) = Some p \<and> Allows p (cm_Name cmd)) \<and> cm_Name cmd \<notin> cw_running w \<and>
    SentAck (ms_ID msg) (accepted_ack False) \<in> set (cw_sent (executeCommand L e msg cmd w)) \<and>
    (Destructive (cm_Name cmd) \<longrightarrow> ae_secure (ce_admit e) \<and> \<not> ga_installing (pw_gate (cw_power w)) > 0 \<and>
       \<not> fst (destructivePendingNow (ae_now (ce_admit e)) (pw_gate (cw_power w))) \<and>
       \<not> (cm_Name cmd = CmdMachineReboot \<and> Mode (rebootArgs (cm_Args cmd)) = WhenUserActiveSkip \<and>
          userActive (ae_user (ce_admit e))))"
proof -
  have id: "ms_ID msg \<noteq> []" using assms by (auto simp: executeCommand_def send_def)
  have new: "\<not> seen (cw_ring w) (ms_ID msg)"
    using assms id by (auto simp: executeCommand_def ring_lookup_seen frame_simps)
  have w: "executeCommand L e msg cmd w = executeFresh L e msg cmd w"
    using id new by (simp add: executeCommand_def ring_lookup_seen)
  note a = executeFresh_admitted [OF assms [unfolded w]]
  from a admitCommand_None have "ValidateArgs (cm_Name cmd) (cm_Args cmd) = None \<and> \<not> expired_command L (ae_now (ce_admit e)) msg cmd \<and>
    (\<exists>p. ae_policy (ce_admit e) = Some p \<and> Allows p (cm_Name cmd)) \<and>
    (Destructive (cm_Name cmd) \<longrightarrow> ae_secure (ce_admit e) \<and> \<not> ga_installing (pw_gate (cw_power w)) > 0 \<and>
       \<not> fst (destructivePendingNow (ae_now (ce_admit e)) (pw_gate (cw_power w))) \<and>
       \<not> (cm_Name cmd = CmdMachineReboot \<and> Mode (rebootArgs (cm_Args cmd)) = WhenUserActiveSkip \<and>
          userActive (ae_user (ce_admit e))))" by blast
  with a id new w show ?thesis by (simp only: w) blast
qed


text \<open>
  A redelivery answers as the first delivery was answered and changes nothing else:
  a refused command is refused again with the same error, a completed one is confirmed
  and its stored result sent again, one still running is only confirmed; ring, claims,
  gate and pending commands stay as they are.
\<close>

theorem redelivery_replays:
  assumes "ms_ID msg \<noteq> []" "seen (cw_ring w) (ms_ID msg)"
  shows "executeCommand L e msg cmd w = w\<lparr>cw_sent := cw_sent w @
     (case map_of (rg_refusals (cw_ring w)) (ms_ID msg) of
        Some err \<Rightarrow> [SentAck (ms_ID msg) (refused_ack err True)]
      | None \<Rightarrow> SentAck (ms_ID msg) (accepted_ack True) #
          (case map_of (rg_results (cw_ring w)) (ms_ID msg) of
             Some (Some res) \<Rightarrow> [SentResult (ms_ID msg) res]
           | _ \<Rightarrow> []))\<rparr>"
proof -
  have "executeCommand L e msg cmd w = replay (ms_ID msg) w"
    using assms by (simp add: executeCommand_def ring_lookup_seen)
  then show ?thesis
    by (cases "map_of (rg_refusals (cw_ring w)) (ms_ID msg)"; cases "map_of (rg_results (cw_ring w)) (ms_ID msg)")
       (simp_all add: replay_def ring_lookup_def send_def split: option.split)
qed

text \<open>
  The ring is bounded whatever is done to it: it never remembers more than 64 ids,
  and holds results for remembered ids only.
\<close>

theorem ring_bounded:
  assumes "ring_inv r"
  shows "ring_inv (ring_add i r) \<and> ring_inv (ring_store i res r) \<and> ring_inv (ring_refuse i err r) \<and>
    ring_inv (seedCommandRing cs r) \<and> length (rg_order (seedCommandRing cs r)) \<le> 64"
proof -
  have "ring_inv (seedCommandRing cs r)"
    using assms unfolding seedCommandRing_def by (induction cs arbitrary: r) (auto intro: inv_intros)
  moreover from this have "length (rg_order (seedCommandRing cs r)) \<le> 64"
    by (simp add: ring_inv_def commandRingSize_def)
  ultimately show ?thesis using assms by (blast intro: inv_intros)
qed

text \<open>
  The lookup and the insertion are two steps. Two deliveries of one id whose lookups
  both come before either insertion run the command twice: the continuation of the first
  does not stop the continuation of the second.
\<close>

theorem concurrent_redelivery_runs_twice:
  assumes "\<not> Destructive (cm_Name cmd)" "ValidateArgs (cm_Name cmd) (cm_Args cmd) = None"
    and "ae_policy (ce_admit e) = Some p" "Allows p (cm_Name cmd)" "\<not> expired_command L (ae_now (ce_admit e)) msg cmd"
    and "ce_ack_ok e" "cw_running w = {}"
  shows "cw_executed (executeFresh L e msg cmd (executeFresh L e msg cmd w)) =
    cw_executed w @ [ms_ID msg, ms_ID msg]"
  using assms
  by (simp add: executeFresh_def admitCommand_def admitDestructive_def claimCommand_def releaseCommand_def
      Let_def send_def)

section \<open>Witnesses\<close>

definition demo_lib :: golib where
  "demo_lib = \<lparr>NewVersion_ok = (\<lambda>v. v \<noteq> []), LessThan = (\<lambda>a b. length a < length b),
     ParseJSON = (\<lambda>_. None), ParseRFC3339 = (\<lambda>_. None), ParseURL = (\<lambda>_. None),
     ParseCIDR = (\<lambda>_. None), ParseIP = (\<lambda>_. None)\<rparr>"

definition demo_cmd_env :: "string cmd_env" where
  "demo_cmd_env = \<lparr>ce_admit = \<lparr>ae_now = 100, ae_policy = Some \<lparr>cs_Enabled = True, cs_Commands = DefaultClientWSCommands\<rparr>,
       ae_secure = True, ae_user = SessionNone\<rparr>, ce_ack_ok = True, ce_power = demo_power_env,
     ce_result = \<lparr>rs_Status = True, rs_Payload = Some ''info'', rs_Error = None, rs_Truncated = False\<rparr>\<rparr>"

definition demo_command :: command where
  "demo_command = \<lparr>cm_Name = CmdMachineInfo, cm_Args = None, cm_ExpiresAt = [], cm_IssuedBy = []\<rparr>"

definition demo_world :: "string cmd_world" where
  "demo_world = \<lparr>cw_ring = empty_ring, cw_running = {}, cw_power = demo_power_world, cw_sent = [], cw_executed = []\<rparr>"

definition demo_msg :: envelope where
  "demo_msg = \<lparr>ms_ID = ''c1'', ms_TS = []\<rparr>"

lemma demo_admitted:
  "ValidateArgs (cm_Name demo_command) (cm_Args demo_command) = None"
  "\<not> Destructive (cm_Name demo_command)" "\<not> expired_command demo_lib n demo_msg demo_command"
  by (simp_all add: ValidateArgs_def demo_command_def command_defs DecodeArgs_def Destructive_def
      expired_command_def demo_lib_def)

lemma demo_executed: "cw_executed (executeCommand demo_lib demo_cmd_env demo_msg demo_command demo_world) = [''c1'']"
  using demo_admitted
  by (simp add: executeCommand_def executeFresh_def admitCommand_def admitDestructive_def demo_cmd_env_def
      demo_world_def demo_msg_def ring_lookup_def empty_ring_def claimCommand_def send_def Allows_def
      DefaultClientWSCommands_def demo_command_def command_defs Let_def)

theorem command_runs_only_if_allowed_witness:
  "SentAck ''c1'' (accepted_ack False) \<in>
     set (cw_sent (executeCommand demo_lib demo_cmd_env demo_msg demo_command demo_world))"
proof -
  have "cw_executed (executeCommand demo_lib demo_cmd_env demo_msg demo_command demo_world) \<noteq> cw_executed demo_world"
    unfolding demo_executed by (simp add: demo_world_def)
  from command_runs_only_if_allowed [OF this] show ?thesis by (simp add: demo_msg_def)
qed


theorem redelivery_replays_witness:
  "cw_executed (executeCommand demo_lib demo_cmd_env demo_msg demo_command
     (demo_world\<lparr>cw_ring := ring_add ''c1'' empty_ring\<rparr>)) = []"
  using redelivery_replays [of demo_msg "demo_world\<lparr>cw_ring := ring_add ''c1'' empty_ring\<rparr>" demo_lib demo_cmd_env demo_command]
  by (simp add: demo_msg_def demo_world_def seen_def ring_add_def empty_ring_def commandRingSize_def Let_def)

theorem ring_bounded_witness: "length (rg_order (seedCommandRing [demo_cmd] empty_ring)) \<le> 64"
  using ring_bounded [OF ring_inv_empty] by blast

theorem concurrent_redelivery_runs_twice_witness:
  "cw_executed (executeFresh demo_lib demo_cmd_env demo_msg demo_command
     (executeFresh demo_lib demo_cmd_env demo_msg demo_command demo_world)) = [''c1'', ''c1'']"
  using concurrent_redelivery_runs_twice [of demo_command demo_cmd_env _ demo_lib demo_msg demo_world] demo_admitted
  by (simp add: demo_cmd_env_def demo_world_def demo_msg_def Allows_def demo_command_def DefaultClientWSCommands_def command_defs)

end
