(* ===== verification/Ipc.thy ===== *)
theory Ipc
  imports RemoteConfig Sources
begin

text \<open>
  \<^verbatim>\<open>internal/ipc\<close>: the named-pipe server EMLy asks for the machine's facts and its policy.
  The length-prefixed framing (\<^verbatim>\<open>framing.go\<close>) works on bytes and machine words, the
  protobuf encoding of an envelope is a parameter; \<^verbatim>\<open>version.go\<close> decides which EMLy is
  served, \<^verbatim>\<open>auth.go\<close> which process is, and \<^verbatim>\<open>server.go\<close> puts them in order.
\<close>

section \<open>Framing\<close>

type_synonym byte = "8 word"

definition MaxFrameSize :: nat where "MaxFrameSize = 64 * 1024"

definition PutUint32 :: "32 word \<Rightarrow> byte list" where
  "PutUint32 v = [ucast (drop_bit 24 v), ucast (drop_bit 16 v), ucast (drop_bit 8 v), ucast v]"

definition Uint32 :: "byte list \<Rightarrow> 32 word" where
  "Uint32 b = ucast (b ! 3) OR push_bit 8 (ucast (b ! 2)) OR push_bit 16 (ucast (b ! 1)) OR push_bit 24 (ucast (b ! 0))"

record 'e codec =
  pb_Marshal :: "'e \<Rightarrow> byte list option"
  pb_Unmarshal :: "byte list \<Rightarrow> 'e option"

datatype ipc_error =
    MarshalFailed
  | EnvelopeTooLarge nat
  | PipeWriteFailed
  | ShortPrefix
  | FrameTooLarge nat
  | ShortFrame
  | UnmarshalFailed

text \<open>
  The bytes that reached the pipe and the error, if any; \<open>ok k\<close> says whether the \<open>k\<close>-th
  write succeeds.
\<close>

definition writeEnvelope :: "'e codec \<Rightarrow> (nat \<Rightarrow> bool) \<Rightarrow> 'e \<Rightarrow> byte list \<times> ipc_error option" where
  "writeEnvelope C ok env =
     (case pb_Marshal C env of
        None \<Rightarrow> ([], Some MarshalFailed)
      | Some b \<Rightarrow>
          if length b > MaxFrameSize then ([], Some (EnvelopeTooLarge (length b)))
          else let lenBuf = PutUint32 (of_nat (length b)) in
          if \<not> ok 0 then ([], Some PipeWriteFailed)
          else if \<not> ok 1 then (lenBuf, Some PipeWriteFailed)
          else (lenBuf @ b, None))"

text \<open>
  What the peer sends until it stops or the deadline passes, and what is left of it.
  The size is checked before a buffer is made for the frame.
\<close>

definition readEnvelope :: "'e codec \<Rightarrow> byte list \<Rightarrow> (ipc_error + 'e) \<times> byte list" where
  "readEnvelope C input =
     (if length input < 4 then (Inl ShortPrefix, [])
      else let n = unat (Uint32 (take 4 input)); rest = drop 4 input in
      if n > MaxFrameSize then (Inl (FrameTooLarge n), rest)
      else if length rest < n then (Inl ShortFrame, [])
      else case pb_Unmarshal C (take n rest) of
        None \<Rightarrow> (Inl UnmarshalFailed, drop n rest)
      | Some env \<Rightarrow> (Inr env, drop n rest))"

section \<open>Compatibility\<close>

definition ProtocolVersion :: int where "ProtocolVersion = 1"
definition MinCompatibleEMLyVersion :: string where "MinCompatibleEMLyVersion = ''2.0.0''"
definition MaxCompatibleEMLyVersion :: string where "MaxCompatibleEMLyVersion = ''2.1.0''"

record compat =
  cp_Enabled :: bool
  cp_Min :: string
  cp_Max :: string

definition CompiledCompat :: compat where
  "CompiledCompat = \<lparr>cp_Enabled = True, cp_Min = MinCompatibleEMLyVersion, cp_Max = MaxCompatibleEMLyVersion\<rparr>"

definition CompiledIPCProtocol :: ipc_protocol where
  "CompiledIPCProtocol =
     \<lparr>ip_Versions = [(Itoa ProtocolVersion,
        \<lparr>iv_Updater = zero_version_range,
         iv_EMLy = \<lparr>vr_Min = Some MinCompatibleEMLyVersion, vr_Max = Some MaxCompatibleEMLyVersion\<rparr>,
         iv_Enabled = Some True\<rparr>)],
      ip_DefaultVersion = ProtocolVersion\<rparr>"

definition EffectiveCompat :: "golib \<Rightarrow> compat \<Rightarrow> ipc_protocol \<Rightarrow> int \<Rightarrow> compat" where
  "EffectiveCompat L compiled remote v =
     (case map_of (ip_Versions remote) (Itoa v) of
        None \<Rightarrow> compiled
      | Some entry \<Rightarrow>
          compiled\<lparr>cp_Enabled := cp_Enabled compiled \<and> ipc_version_IsEnabled entry,
            cp_Min := (case vr_Min (iv_EMLy entry) of
                None \<Rightarrow> cp_Min compiled
              | Some mn \<Rightarrow> if mn \<noteq> [] \<and> Less L (cp_Min compiled) mn = Inr True then mn else cp_Min compiled),
            cp_Max := (case vr_Max (iv_EMLy entry) of None \<Rightarrow> [] | Some mx \<Rightarrow> mx)\<rparr>)"

definition compat_now :: "golib \<Rightarrow> policy_view option \<Rightarrow> compat" where
  "compat_now L view =
     (case view of None \<Rightarrow> CompiledCompat | Some v \<Rightarrow> EffectiveCompat L CompiledCompat (pv_IPC v) ProtocolVersion)"

datatype peer_error = VersionDisabled | MissingSenderVersion | InvalidSenderVersion | PeerTooOld string string

text \<open>The error, and whether the warning about an untested newer peer is logged.\<close>

definition checkPeerVersion :: "golib \<Rightarrow> compat \<Rightarrow> string \<Rightarrow> peer_error option \<times> bool" where
  "checkPeerVersion L c senderVersion =
     (if \<not> cp_Enabled c then (Some VersionDisabled, False)
      else if senderVersion = [] then (Some MissingSenderVersion, False)
      else case Less L senderVersion (cp_Min c) of
        Inl _ \<Rightarrow> (Some InvalidSenderVersion, False)
      | Inr belowMin \<Rightarrow>
          if belowMin then (Some (PeerTooOld senderVersion (cp_Min c)), False)
          else (None, cp_Max c \<noteq> [] \<and> Less L (cp_Max c) senderVersion = Inr True))"

section \<open>The server\<close>

datatype error_code_ipc = CodeUnauthorized | CodeUnsupportedVersion | CodeInternal | CodeBadRequest

record config_reply =
  cr_DocumentJson :: string
  cr_Rev :: int
  cr_Generated :: string
  cr_Fetched :: string
  cr_Src :: psource
  cr_StaleFlag :: bool
  cr_Whitelisted :: bool

datatype ipc_body =
    NoBody
  | SystemInfoRequest
  | AdStatusRequest
  | ConfigRequest
  | SystemInfoResponse string string string string
  | AdStatusResponse string bool
  | ConfigResponseBody config_reply
  | ErrorResponse error_code_ipc string

record ipc_envelope =
  ev_ProtocolVersion :: int
  ev_SenderVersion :: string
  ev_Body :: ipc_body

record machine_info =
  mi_Hostname :: string
  mi_HWID :: string
  mi_InternalIP :: string
  mi_OSVersion :: string
  mi_ADDomain :: string

text \<open>
  What is fixed for a server: its own version, the canonical path of EMLy, the machine's
  facts, the text of a document and of a time, \<^verbatim>\<open>filepath.Clean\<close>, and the codec.
\<close>

record ipc_setup =
  is_lib :: golib
  is_version :: string
  is_exePath :: string
  is_machine :: machine_info
  is_json :: "document \<Rightarrow> string"
  is_time :: "time \<Rightarrow> string"
  is_clean :: "string \<Rightarrow> string"
  is_codec :: "ipc_envelope codec"
  is_peer_text :: "peer_error \<Rightarrow> string"

text \<open>The lookups of \<^verbatim>\<open>verifyClient\<close>: the pipe handle, the process id, the process, its image path.\<close>

record peer_env =
  pe_handle :: bool
  pe_pid :: "nat option"
  pe_process :: bool
  pe_path :: "string option"

definition verifyClient :: "ipc_setup \<Rightarrow> peer_env \<Rightarrow> bool" where
  "verifyClient s p =
     (if \<not> pe_handle p then False
      else if pe_pid p = None then False
      else if \<not> pe_process p then False
      else case pe_path p of
        None \<Rightarrow> False
      | Some path \<Rightarrow> EqualFold (is_clean s path) (is_clean s (is_exePath s)))"

definition reply :: "ipc_setup \<Rightarrow> ipc_body \<Rightarrow> ipc_envelope" where
  "reply s body = \<lparr>ev_ProtocolVersion = ProtocolVersion, ev_SenderVersion = is_version s, ev_Body = body\<rparr>"

definition errorEnvelope :: "ipc_setup \<Rightarrow> error_code_ipc \<Rightarrow> string \<Rightarrow> ipc_envelope" where
  "errorEnvelope s code msg = reply s (ErrorResponse code msg)"

definition dispatch :: "ipc_setup \<Rightarrow> policy_view option \<Rightarrow> ipc_envelope \<Rightarrow> ipc_envelope" where
  "dispatch s view req =
     (let m = is_machine s
      in case ev_Body req of
           SystemInfoRequest \<Rightarrow> reply s (SystemInfoResponse (mi_Hostname m) (mi_HWID m) (mi_InternalIP m) (mi_OSVersion m))
         | AdStatusRequest \<Rightarrow> reply s (AdStatusResponse (mi_ADDomain m) (DomainJoined (mi_ADDomain m) (mi_Hostname m)))
         | ConfigRequest \<Rightarrow>
             (case view of
                None \<Rightarrow> errorEnvelope s CodeInternal ''remote configuration not available''
              | Some v \<Rightarrow>
                  reply s (ConfigResponseBody
                    \<lparr>cr_DocumentJson = is_json s (pv_Document v), cr_Rev = pv_Revision v, cr_Generated = pv_GeneratedAt v,
                     cr_Fetched = (if is_zero_time (pv_FetchedAt v) then [] else is_time s (pv_FetchedAt v)),
                     cr_Src = pv_Source v, cr_StaleFlag = pv_Stale v, cr_Whitelisted = pv_HostWhitelisted v\<rparr>))
         | _ \<Rightarrow> errorEnvelope s CodeBadRequest ''unrecognized request'')"

text \<open>
  One connection: the envelope the server tries to answer with, \<open>None\<close> when it hangs up
  without one, and the bytes that reach the client.
\<close>

definition answer :: "ipc_setup \<Rightarrow> policy_view option \<Rightarrow> peer_env \<Rightarrow> byte list \<Rightarrow> ipc_envelope option" where
  "answer s view p input =
     (if \<not> verifyClient s p then Some (errorEnvelope s CodeUnauthorized ''unauthorized'')
      else case fst (readEnvelope (is_codec s) input) of
        Inl _ \<Rightarrow> None
      | Inr req \<Rightarrow>
          if ev_ProtocolVersion req \<noteq> ProtocolVersion
          then Some (errorEnvelope s CodeUnsupportedVersion ''unsupported protocol version'')
          else case fst (checkPeerVersion (is_lib s) (compat_now (is_lib s) view) (ev_SenderVersion req)) of
            Some err \<Rightarrow> Some (errorEnvelope s CodeUnsupportedVersion (is_peer_text s err))
          | None \<Rightarrow> Some (dispatch s view req))"

definition handleConn :: "ipc_setup \<Rightarrow> policy_view option \<Rightarrow> peer_env \<Rightarrow> (nat \<Rightarrow> bool) \<Rightarrow> byte list \<Rightarrow> byte list" where
  "handleConn s view p ok input =
     (case answer s view p input of
        None \<Rightarrow> []
      | Some env \<Rightarrow> fst (writeEnvelope (is_codec s) ok env))"

section \<open>Lemmas\<close>

lemma Uint32_PutUint32 [simp]: "Uint32 (PutUint32 v) = v"
proof (rule bit_word_eqI)
  fix n assume "n < LENGTH(32)"
  then consider "n < 8" | "8 \<le> n" "n < 16" | "16 \<le> n" "n < 24" | "24 \<le> n" "n < 32" by fastforce
  then show "bit (Uint32 (PutUint32 v)) n = bit v n"
    by cases (auto simp: Uint32_def PutUint32_def bit_simps)
qed

lemma length_PutUint32 [simp]: "length (PutUint32 v) = 4"
  by (simp add: PutUint32_def)

text \<open>The documented behaviour of the protobuf package: decoding undoes encoding.\<close>

definition codec_ok :: "'e codec \<Rightarrow> bool" where
  "codec_ok C \<longleftrightarrow> (\<forall>env b. pb_Marshal C env = Some b \<longrightarrow> pb_Unmarshal C b = Some env)"

lemma read_write:
  assumes "codec_ok C" "writeEnvelope C ok env = (bytes, None)"
  shows "readEnvelope C (bytes @ rest) = (Inr env, rest)"
proof -
  obtain b where b: "pb_Marshal C env = Some b" "length b \<le> MaxFrameSize" "bytes = PutUint32 (of_nat (length b)) @ b"
    using assms(2) by (auto simp: writeEnvelope_def Let_def split: option.splits if_splits)
  have "unat (of_nat (length b) :: 32 word) = length b"
    using b(2) by (simp add: unat_of_nat MaxFrameSize_def)
  then show ?thesis using b assms(1) by (simp add: readEnvelope_def codec_ok_def)
qed


lemma EffectiveCompat_min:
  assumes "version_order L" "NewVersion_ok L v" "NewVersion_ok L (cp_Min c)" "Less L v (cp_Min (EffectiveCompat L c r n)) = Inr False"
  shows "Less L v (cp_Min c) = Inr False"
proof (cases "cp_Min (EffectiveCompat L c r n) = cp_Min c")
  case False
  then have "Less L (cp_Min c) (cp_Min (EffectiveCompat L c r n)) = Inr True"
    by (auto simp: EffectiveCompat_def split: option.splits if_splits)
  then show ?thesis using assms unfolding Less_Inr_iff version_order_def by blast
qed (use assms in simp)

section \<open>Properties\<close>

text \<open>
  C33: The pipe framing is self-delimiting and bounded. Whatever \<^verbatim>\<open>writeEnvelope\<close> wrote without
  an error is read back as the same envelope, with exactly the bytes after it left, whatever
  follows on the stream; and no input makes \<^verbatim>\<open>readEnvelope\<close> take more than 64 KiB for a
  frame: a longer length prefix is refused before anything is read for it.
\<close>

theorem framing_roundtrip:
  assumes "codec_ok C"
  shows "(\<forall>ok env bytes rest. writeEnvelope C ok env = (bytes, None) \<longrightarrow> readEnvelope C (bytes @ rest) = (Inr env, rest)) \<and>
    (\<forall>input env rest. readEnvelope C input = (Inr env, rest) \<longrightarrow>
       (\<exists>hdr b. input = hdr @ b @ rest \<and> length hdr = 4 \<and> length b \<le> MaxFrameSize \<and> pb_Unmarshal C b = Some env)) \<and>
    (\<forall>input. length input \<ge> 4 \<and> unat (Uint32 (take 4 input)) > MaxFrameSize \<longrightarrow>
       readEnvelope C input = (Inl (FrameTooLarge (unat (Uint32 (take 4 input)))), drop 4 input))"
proof (intro conjI allI impI)
  fix ok env bytes rest assume "writeEnvelope C ok env = (bytes, None)"
  then show "readEnvelope C (bytes @ rest) = (Inr env, rest)" by (rule read_write [OF assms])
next
  fix input env rest assume r: "readEnvelope C input = (Inr env, rest)"
  define n where "n = unat (Uint32 (take 4 input))"
  have h: "length input \<ge> 4" "n \<le> MaxFrameSize" "n \<le> length (drop 4 input)" "pb_Unmarshal C (take n (drop 4 input)) = Some env"
    "rest = drop n (drop 4 input)"
    using r by (auto simp: readEnvelope_def Let_def n_def split: if_splits option.splits)
  then have "input = take 4 input @ take n (drop 4 input) @ rest" by (metis append_take_drop_id)
  then show "\<exists>hdr b. input = hdr @ b @ rest \<and> length hdr = 4 \<and> length b \<le> MaxFrameSize \<and> pb_Unmarshal C b = Some env"
    using h by (intro exI [of _ "take 4 input"] exI [of _ "take n (drop 4 input)"]) auto
next
  fix input :: "byte list" assume "length input \<ge> 4 \<and> unat (Uint32 (take 4 input)) > MaxFrameSize"
  then show "readEnvelope C input = (Inl (FrameTooLarge (unat (Uint32 (take 4 input)))), drop 4 input)"
    by (simp add: readEnvelope_def Let_def)
qed

text \<open>
  C20: The remote document can narrow who is served and never widen it, and EMLy is only
  served when it is EMLy. A connection is answered with anything but an error only if
  the process behind it runs from EMLy's path, speaks the protocol version of the server
  and names a readable version that is not older than the minimum compiled into the
  server, whatever the document says; a lookup that fails or a version that is missing or
  does not parse counts as a refusal.
\<close>

theorem served_peer_is_trusted:
  assumes "version_order (is_lib s)" "NewVersion_ok (is_lib s) MinCompatibleEMLyVersion"
    and "answer s view p input = Some env" "\<forall>code msg. ev_Body env \<noteq> ErrorResponse code msg"
  shows "\<exists>path req. pe_path p = Some path \<and> EqualFold (is_clean s path) (is_clean s (is_exePath s)) \<and>
    fst (readEnvelope (is_codec s) input) = Inr req \<and> ev_ProtocolVersion req = ProtocolVersion \<and>
    Less (is_lib s) (ev_SenderVersion req) MinCompatibleEMLyVersion = Inr False \<and>
    cp_Enabled (compat_now (is_lib s) view) \<and> env = dispatch s view req"
proof -
  have v: "verifyClient s p"
    using assms(3,4) by (auto simp: answer_def errorEnvelope_def reply_def split: if_splits)
  then obtain path where path: "pe_path p = Some path" "EqualFold (is_clean s path) (is_clean s (is_exePath s))"
    by (auto simp: verifyClient_def split: if_splits option.splits)
  obtain req where req: "fst (readEnvelope (is_codec s) input) = Inr req"
    using assms(3) v by (cases "fst (readEnvelope (is_codec s) input)") (auto simp: answer_def)
  have pv: "ev_ProtocolVersion req = ProtocolVersion"
    using assms(3,4) v req by (auto simp: answer_def errorEnvelope_def reply_def split: if_splits)
  let ?c = "compat_now (is_lib s) view"
  have ok: "fst (checkPeerVersion (is_lib s) ?c (ev_SenderVersion req)) = None" and env: "env = dispatch s view req"
    using assms(3,4) v req pv by (auto simp: answer_def errorEnvelope_def reply_def split: option.splits)
  then have en: "cp_Enabled ?c" and l: "Less (is_lib s) (ev_SenderVersion req) (cp_Min ?c) = Inr False"
    by (auto simp: checkPeerVersion_def split: if_splits sum.splits)
  have "Less (is_lib s) (ev_SenderVersion req) MinCompatibleEMLyVersion = Inr False"
  proof (cases view)
    case None
    then show ?thesis using l by (simp add: compat_now_def CompiledCompat_def)
  next
    case (Some w)
    have "Less (is_lib s) (ev_SenderVersion req) (cp_Min CompiledCompat) = Inr False"
      by (rule EffectiveCompat_min [OF assms(1), where r = "pv_IPC w" and n = ProtocolVersion])
         (use l Some assms(2) in \<open>auto simp: compat_now_def CompiledCompat_def Less_Inr_iff\<close>)
    then show ?thesis by (simp add: CompiledCompat_def)
  qed
  then show ?thesis using path req pv en env by blast
qed

text \<open>
  A policy that does not fit a frame is never delivered: a request for the configuration
  whose answer is longer than 64 KiB, which the limit of 1 MiB for a document allows, is
  followed by silence, not by an error.
\<close>

lemma oversized_config_unanswered:
  assumes "answer s view p input = Some env" "pb_Marshal (is_codec s) env = Some b" "length b > MaxFrameSize"
  shows "handleConn s view p ok input = []"
  using assms by (simp add: handleConn_def writeEnvelope_def)

section \<open>Witnesses\<close>

definition demo_codec :: "byte list codec" where
  "demo_codec = \<lparr>pb_Marshal = Some, pb_Unmarshal = Some\<rparr>"

theorem framing_roundtrip_witness:
  "readEnvelope demo_codec (fst (writeEnvelope demo_codec (\<lambda>_. True) [1, 2, 3]) @ [9]) = (Inr [1, 2, 3], [9])"
proof -
  have c: "codec_ok demo_codec" by (simp add: codec_ok_def demo_codec_def)
  have w: "writeEnvelope demo_codec (\<lambda>_. True) [1, 2, 3] = (PutUint32 3 @ [1, 2, 3], None)"
    by (simp add: writeEnvelope_def demo_codec_def MaxFrameSize_def)
  from conjunct1 [OF framing_roundtrip [OF c]] w have "readEnvelope demo_codec ((PutUint32 3 @ [1, 2, 3]) @ [9]) = (Inr [1, 2, 3], [9])"
    by blast
  then show ?thesis using w by simp
qed

definition demo_ipc_versions :: golib where
  "demo_ipc_versions = demo_config_lib\<lparr>NewVersion_ok := (\<lambda>v. v \<noteq> []), LessThan := (\<lambda>a b. length a < length b)\<rparr>"

text \<open>A server that reads every frame as one well-formed request.\<close>

definition demo_server :: ipc_setup where
  "demo_server = \<lparr>is_lib = demo_ipc_versions, is_version = ''1.9'', is_exePath = ''emly'',
     is_machine = \<lparr>mi_Hostname = ''pc'', mi_HWID = ''hw'', mi_InternalIP = [], mi_OSVersion = [], mi_ADDomain = []\<rparr>,
     is_json = (\<lambda>_. []), is_time = (\<lambda>_. []), is_clean = id,
     is_codec = \<lparr>pb_Marshal = (\<lambda>_. Some []),
       pb_Unmarshal = (\<lambda>_. Some \<lparr>ev_ProtocolVersion = 1, ev_SenderVersion = ''2.0.5'', ev_Body = SystemInfoRequest\<rparr>)\<rparr>,
     is_peer_text = (\<lambda>_. [])\<rparr>"

definition demo_peer :: peer_env where
  "demo_peer = \<lparr>pe_handle = True, pe_pid = Some 7, pe_process = True, pe_path = Some ''emly''\<rparr>"

theorem served_peer_is_trusted_witness:
  "\<exists>env. answer demo_server None demo_peer [0, 0, 0, 0] = Some env \<and>
     Less (is_lib demo_server) ''2.0.5'' MinCompatibleEMLyVersion = Inr False"
proof -
  have v: "version_order (is_lib demo_server)" "NewVersion_ok (is_lib demo_server) MinCompatibleEMLyVersion"
    by (auto simp: version_order_def demo_server_def demo_ipc_versions_def MinCompatibleEMLyVersion_def)
  let ?req = "\<lparr>ev_ProtocolVersion = 1, ev_SenderVersion = ''2.0.5'', ev_Body = SystemInfoRequest\<rparr>"
  have u: "Uint32 [0, 0, 0, 0] = 0" by (simp add: Uint32_def)
  have rd: "fst (readEnvelope (is_codec demo_server) [0, 0, 0, 0]) = Inr ?req"
    by (simp add: readEnvelope_def demo_server_def MaxFrameSize_def u)
  have a: "answer demo_server None demo_peer [0, 0, 0, 0] = Some (dispatch demo_server None ?req)"
    using rd by (simp add: answer_def verifyClient_def demo_peer_def ProtocolVersion_def checkPeerVersion_def compat_now_def
        CompiledCompat_def MinCompatibleEMLyVersion_def Less_def)
       (simp add: demo_server_def demo_ipc_versions_def EqualFold_def ToLower_def lower_char_def)
  have n: "\<forall>code msg. ev_Body (dispatch demo_server None ?req) \<noteq> ErrorResponse code msg" by (simp add: dispatch_def reply_def Let_def)
  from served_peer_is_trusted [OF v a n] rd a show ?thesis by auto
qed

end
