(* ===== verification/Connection.thy ===== *)
theory Connection
  imports Wire Protocol GoLib
begin

text \<open>
  \<^verbatim>\<open>internal/wsclient/client.go\<close>: one connection of the presence channel, from the URL it
  is made to until it ends. The frames that arrive and whether an answer could be
  written are the environment's; what the client sends and what it hands to its
  handler is the trace of the model. The trace is shown to follow the protocol: nothing
  is dispatched before the identity was sent and a welcome switched the connection.
\<close>

section \<open>Messages\<close>

definition Path :: string where "Path = ''/v2/client/ws''"

definition TypeHello :: string where "TypeHello = ''hello''"
definition TypeIdentity :: string where "TypeIdentity = ''identity''"
definition TypePing :: string where "TypePing = ''ping''"
definition TypePong :: string where "TypePong = ''pong''"
definition TypeError :: string where "TypeError = ''error''"
definition TypeWelcome :: string where "TypeWelcome = ''welcome''"
definition TypeCommand :: string where "TypeCommand = ''command''"
definition TypeNotify :: string where "TypeNotify = ''notify''"

definition ProtocolV2 :: int where "ProtocolV2 = 2"

lemmas type_defs = TypeHello_def TypeIdentity_def TypePing_def TypePong_def TypeError_def TypeWelcome_def
  TypeCommand_def TypeNotify_def

text \<open>\<^verbatim>\<open>Data\<close> is a raw message: \<open>None\<close> is the empty one, a null is the text null.\<close>

record message =
  mg_Type :: string
  mg_ID :: string
  mg_ReplyTo :: string
  mg_TS :: string
  mg_Data :: "json option"

definition zero_message :: message where
  "zero_message = \<lparr>mg_Type = [], mg_ID = [], mg_ReplyTo = [], mg_TS = [], mg_Data = None\<rparr>"

definition dec_raw :: "json option decoder" where
  "dec_raw j cur = Some (Some j)"

definition message_fields :: "message fields" where
  "message_fields =
     [(''type'', fld dec_string mg_Type mg_Type_update), (''id'', fld dec_string mg_ID mg_ID_update),
      (''reply_to'', fld dec_string mg_ReplyTo mg_ReplyTo_update), (''ts'', fld dec_string mg_TS mg_TS_update),
      (''data'', fld dec_raw mg_Data mg_Data_update)]"

record identity =
  id_HWID :: string
  id_Hostname :: string
  id_ADDomain :: string
  id_LoggedUser :: string
  id_LoggedUserState :: string
  id_LoggedUserDisconnectedAt :: string
  id_Serial :: string
  id_Product :: string
  id_OSVersion :: string
  id_EMLyVersion :: string
  id_Protocol :: int
  id_Capabilities :: "string list"

definition Identified :: "identity \<Rightarrow> bool" where
  "Identified i \<longleftrightarrow> id_HWID i \<noteq> [] \<or> id_Hostname i \<noteq> []"

record notify =
  nf_Topic :: string
  nf_Payload :: "json option"

definition limits_fields :: "limits fields" where
  "limits_fields =
     [(''max_message_bytes'', fld dec_int lm_MaxMessageBytes lm_MaxMessageBytes_update),
      (''max_events_per_minute'', fld dec_int lm_MaxEventsPerMinute lm_MaxEventsPerMinute_update),
      (''ack_timeout_seconds'', fld dec_int lm_AckTimeoutSeconds lm_AckTimeoutSeconds_update)]"

definition welcome_fields :: "welcome_frame fields" where
  "welcome_fields =
     [(''protocol'', fld dec_int wc_Protocol wc_Protocol_update),
      (''accepted_capabilities'', fld dec_strings wc_AcceptedCapabilities wc_AcceptedCapabilities_update),
      (''limits'', fld (dec_struct limits_fields) wc_Limits wc_Limits_update)]"

definition command_fields :: "command fields" where
  "command_fields =
     [(''name'', fld dec_string cm_Name cm_Name_update), (''args'', fld dec_raw cm_Args cm_Args_update),
      (''expires_at'', fld dec_string cm_ExpiresAt cm_ExpiresAt_update),
      (''issued_by'', fld dec_string cm_IssuedBy cm_IssuedBy_update)]"

definition notify_fields :: "notify fields" where
  "notify_fields =
     [(''topic'', fld dec_string nf_Topic nf_Topic_update), (''payload'', fld dec_raw nf_Payload nf_Payload_update)]"

definition zero_welcome :: welcome_frame where
  "zero_welcome = \<lparr>wc_Protocol = 0, wc_AcceptedCapabilities = [],
     wc_Limits = \<lparr>lm_MaxMessageBytes = 0, lm_MaxEventsPerMinute = 0, lm_AckTimeoutSeconds = 0\<rparr>\<rparr>"

definition zero_command :: command where
  "zero_command = \<lparr>cm_Name = [], cm_Args = None, cm_ExpiresAt = [], cm_IssuedBy = []\<rparr>"

definition zero_notify :: notify where
  "zero_notify = \<lparr>nf_Topic = [], nf_Payload = None\<rparr>"

text \<open>\<^verbatim>\<open>json.Unmarshal(raw, &v)\<close> into a zero value; empty text is an error.\<close>

definition unmarshal_raw :: "'r fields \<Rightarrow> json option \<Rightarrow> 'r \<Rightarrow> 'r option" where
  "unmarshal_raw fs raw z = (case raw of None \<Rightarrow> None | Some j \<Rightarrow> dec_struct fs j z)"

section \<open>The endpoint\<close>

datatype urlfor_error = EmptyBase | NotURL string | BadScheme string | NoHost string

text \<open>
  \<^verbatim>\<open>URL.String\<close> of an absolute URL with a host; \<open>esc\<close> is \<^verbatim>\<open>EscapedPath\<close>.
\<close>

definition url_String :: "(string \<Rightarrow> string) \<Rightarrow> url \<Rightarrow> string" where
  "url_String esc u =
     u_Scheme u @ ''://'' @ u_Host u @ esc (u_Path u) @
     (if u_RawQuery u \<noteq> [] then ''?'' @ u_RawQuery u else []) @
     (if u_Fragment u \<noteq> [] then ''#'' @ u_Fragment u else [])"

definition URLFor :: "golib \<Rightarrow> (string \<Rightarrow> string) \<Rightarrow> string \<Rightarrow> urlfor_error + string" where
  "URLFor L esc baseURL =
     (let base = TrimRightChar (CHR ''/'') (TrimSpace baseURL) in
      if base = [] then Inl EmptyBase
      else case ParseURL L base of
        None \<Rightarrow> Inl (NotURL baseURL)
      | Some u \<Rightarrow>
          if u_Scheme u \<noteq> ''https'' \<and> u_Scheme u \<noteq> ''http'' then Inl (BadScheme (u_Scheme u))
          else let u = u\<lparr>u_Scheme := (if u_Scheme u = ''https'' then ''wss'' else ''ws'')\<rparr> in
          if u_Host u = [] then Inl (NoHost baseURL)
          else Inr (url_String esc (u\<lparr>u_Path := u_Path u @ Path\<rparr>)))"

section \<open>Dialing\<close>

definition defaultIdleTimeout :: duration where "defaultIdleTimeout = 30 * Second"
definition defaultHandshakeTimeout :: duration where "defaultHandshakeTimeout = 30 * Second"

text \<open>
  Whether \<^verbatim>\<open>CheckRedirect\<close> lets a redirect be followed: \<open>via\<close> are the requests made so
  far, oldest first, \<open>prev_check\<close> is the policy of the configured client.
\<close>

definition CheckRedirect :: "(string list \<Rightarrow> string \<Rightarrow> bool) option \<Rightarrow> string list \<Rightarrow> string \<Rightarrow> bool" where
  "CheckRedirect prev_check via scheme =
     (if via \<noteq> [] \<and> last via = ''https'' \<and> scheme \<noteq> ''https'' then False
      else case prev_check of None \<Rightarrow> True | Some check \<Rightarrow> check via scheme)"

text \<open>The schemes of the requests a dial makes: it follows redirects as long as they are allowed.\<close>

fun follow :: "(string list \<Rightarrow> string \<Rightarrow> bool) option \<Rightarrow> string list \<Rightarrow> string list \<Rightarrow> string list option" where
  "follow prev_check via [] = Some via"
| "follow prev_check via (s # redirects) =
     (if CheckRedirect prev_check via s then follow prev_check (via @ [s]) redirects else None)"

datatype dial_answer = Upgraded | Answered nat | Unreachable

datatype run_error =
    Cancelled
  | Unidentified
  | ErrNotImplemented
  | ErrUnauthorized nat
  | DialFailed
  | HandshakeRead
  | IdentityNotSent
  | Refused string
  | ReadFailed
  | PongNotSent

definition dial :: "dial_answer \<Rightarrow> run_error option" where
  "dial a =
     (case a of
        Upgraded \<Rightarrow> None
      | Answered status \<Rightarrow>
          Some (if status = 404 then ErrNotImplemented
                else if status = 401 \<or> status = 403 then ErrUnauthorized status else DialFailed)
      | Unreachable \<Rightarrow> Some DialFailed)"

section \<open>The connection\<close>

text \<open>
  What the client meets when it reads: a frame, together with how a write that answers
  it would end, a failed or timed out read, or the end of its context.
\<close>

datatype write_end = WriteOk | WriteErr | WriteCancelled

datatype arrival = Frame string write_end | ReadFails | CtxDone

text \<open>What it does: frames it sends, and calls of its owner and its handler.\<close>

datatype conn_action =
    SentIdentity identity
  | OnConnected
  | SentPong
  | CallWelcome session welcome_frame
  | CallCommand session message command
  | CallNotify session message notify

text \<open>The limit on the size of a frame, set before the handshake.\<close>

definition read_limit :: nat where "read_limit = nat (lm_MaxMessageBytes DefaultLimits) + 1024"

text \<open>\<^verbatim>\<open>wsjson.Read\<close>: \<open>None\<close> when the frame is over the limit or is not a message.\<close>

definition wsjson_Read :: "golib \<Rightarrow> string \<Rightarrow> message option" where
  "wsjson_Read L text =
     (if length text > read_limit then None
      else case ParseJSON L text of None \<Rightarrow> None | Some j \<Rightarrow> dec_struct message_fields j zero_message)"

text \<open>The code of an error message; \<open>show\<close> is the text of a payload.\<close>

definition errorCode :: "(json \<Rightarrow> string) \<Rightarrow> json option \<Rightarrow> string" where
  "errorCode show data =
     (case unmarshal_raw [(''code'', fld dec_string id id)] data [] of
        Some code \<Rightarrow> if code \<noteq> [] then code else (case data of None \<Rightarrow> ''(no code)'' | Some j \<Rightarrow> show j)
      | None \<Rightarrow> (case data of None \<Rightarrow> ''(no code)'' | Some j \<Rightarrow> show j))"

record client =
  cl_lib :: golib
  cl_show :: "json \<Rightarrow> string"
  cl_URL :: string
  cl_Identity :: identity
  cl_Handler :: bool

text \<open>
  The handshake: the error it ends with, or the arrivals left for the heartbeat, and
  what was sent. A read that never happens leaves it waiting.
\<close>

datatype 'a ending = Waiting | Failed run_error | Done 'a

fun handshake :: "client \<Rightarrow> arrival list \<Rightarrow> conn_action list \<times> arrival list ending" where
  "handshake c [] = ([], Waiting)"
| "handshake c (ReadFails # as) = ([], Failed HandshakeRead)"
| "handshake c (CtxDone # as) = ([], Failed HandshakeRead)"
| "handshake c (Frame text w # as) =
     (case wsjson_Read (cl_lib c) text of
        None \<Rightarrow> ([], Failed HandshakeRead)
      | Some msg \<Rightarrow>
          if mg_Type msg = TypeHello then
            (if w = WriteOk then ([SentIdentity (cl_Identity c)], Done as) else ([], Failed IdentityNotSent))
          else if mg_Type msg = TypeError then ([], Failed (Refused (errorCode (cl_show c) (mg_Data msg))))
          else handshake c as)"

text \<open>
  One message in the heartbeat loop: the error that ends it, or the session after it and
  what was done.
\<close>

definition receive :: "client \<Rightarrow> write_end \<Rightarrow> session option \<Rightarrow> message \<Rightarrow> run_error + session option \<times> conn_action list" where
  "receive c w sess msg =
     (if mg_Type msg = TypePing then
        (case w of WriteOk \<Rightarrow> Inr (sess, [SentPong]) | WriteErr \<Rightarrow> Inl PongNotSent | WriteCancelled \<Rightarrow> Inl Cancelled)
      else if mg_Type msg = TypeWelcome then
        (if \<not> cl_Handler c \<or> sess \<noteq> None then Inr (sess, [])
         else case unmarshal_raw welcome_fields (mg_Data msg) zero_welcome of
           None \<Rightarrow> Inr (sess, [])
         | Some wl \<Rightarrow>
             if wc_Protocol wl < ProtocolV2 then Inr (sess, [])
             else let s = newSession (cl_URL c) wl in Inr (Some s, [CallWelcome s wl]))
      else if mg_Type msg = TypeCommand then
        (case sess of
           None \<Rightarrow> Inr (sess, [])
         | Some s \<Rightarrow>
             (case unmarshal_raw command_fields (mg_Data msg) zero_command of
                None \<Rightarrow> Inr (sess, [])
              | Some cmd \<Rightarrow> Inr (sess, [CallCommand s msg cmd])))
      else if mg_Type msg = TypeNotify then
        (case sess of
           None \<Rightarrow> Inr (sess, [])
         | Some s \<Rightarrow>
             (case unmarshal_raw notify_fields (mg_Data msg) zero_notify of
                None \<Rightarrow> Inr (sess, [])
              | Some n \<Rightarrow> Inr (sess, [CallNotify s msg n])))
      else if mg_Type msg = TypeError then Inl (Refused (errorCode (cl_show c) (mg_Data msg)))
      else Inr (sess, []))"

fun heartbeat :: "client \<Rightarrow> session option \<Rightarrow> arrival list \<Rightarrow> conn_action list \<times> unit ending" where
  "heartbeat c sess [] = ([], Waiting)"
| "heartbeat c sess (ReadFails # as) = ([], Failed ReadFailed)"
| "heartbeat c sess (CtxDone # as) = ([], Failed Cancelled)"
| "heartbeat c sess (Frame text w # as) =
     (case wsjson_Read (cl_lib c) text of
        None \<Rightarrow> ([], Failed ReadFailed)
      | Some msg \<Rightarrow>
          (case receive c w sess msg of
             Inl err \<Rightarrow> ([], Failed err)
           | Inr (sess', acts) \<Rightarrow> (let (more, end) = heartbeat c sess' as in (acts @ more, end))))"

definition Run :: "client \<Rightarrow> dial_answer \<Rightarrow> arrival list \<Rightarrow> conn_action list \<times> unit ending" where
  "Run c a input =
     (if \<not> Identified (cl_Identity c) then ([], Failed Unidentified)
      else case dial a of
        Some err \<Rightarrow> ([], Failed err)
      | None \<Rightarrow>
          (case handshake c input of
             (acts, Waiting) \<Rightarrow> (acts, Waiting)
           | (acts, Failed err) \<Rightarrow> (acts, Failed err)
           | (acts, Done rest) \<Rightarrow>
               (let (more, end) = heartbeat c None rest in (acts @ [OnConnected] @ more, end))))"

section \<open>The protocol\<close>

text \<open>
  The specification the trace is held against: the phases of a connection and the
  actions each of them allows.
\<close>

datatype phase = PhDialed | PhIdentified | PhV1 | PhV2 session

fun proto :: "client \<Rightarrow> phase \<Rightarrow> conn_action \<Rightarrow> phase option" where
  "proto c PhDialed (SentIdentity i) = (if i = cl_Identity c \<and> Identified i then Some PhIdentified else None)"
| "proto c PhIdentified OnConnected = Some PhV1"
| "proto c PhV1 SentPong = Some PhV1"
| "proto c PhV1 (CallWelcome s w) =
     (if cl_Handler c \<and> wc_Protocol w \<ge> ProtocolV2 \<and> s = newSession (cl_URL c) w then Some (PhV2 s) else None)"
| "proto c (PhV2 s) SentPong = Some (PhV2 s)"
| "proto c (PhV2 s) (CallCommand s' m cmd) =
     (if s' = s \<and> mg_Type m = TypeCommand \<and> unmarshal_raw command_fields (mg_Data m) zero_command = Some cmd
      then Some (PhV2 s) else None)"
| "proto c (PhV2 s) (CallNotify s' m n) =
     (if s' = s \<and> mg_Type m = TypeNotify \<and> unmarshal_raw notify_fields (mg_Data m) zero_notify = Some n
      then Some (PhV2 s) else None)"
| "proto c p a = None"

fun proto_run :: "client \<Rightarrow> phase \<Rightarrow> conn_action list \<Rightarrow> phase option" where
  "proto_run c p [] = Some p"
| "proto_run c p (a # as) = (case proto c p a of None \<Rightarrow> None | Some p' \<Rightarrow> proto_run c p' as)"

definition phase_of :: "session option \<Rightarrow> phase" where
  "phase_of sess = (case sess of None \<Rightarrow> PhV1 | Some s \<Rightarrow> PhV2 s)"

lemma proto_run_append:
  "proto_run c p (as @ bs) = (case proto_run c p as of None \<Rightarrow> None | Some p' \<Rightarrow> proto_run c p' bs)"
  by (induction as arbitrary: p) (auto split: option.splits)

lemma receive_refines:
  assumes "receive c w sess msg = Inr (sess', acts)"
  shows "proto_run c (phase_of sess) acts = Some (phase_of sess')"
  using assms
  by (cases sess)
    (auto simp: receive_def phase_of_def Let_def type_defs split: if_splits option.splits write_end.splits)

lemma heartbeat_refines: "\<exists>p. proto_run c (phase_of sess) (fst (heartbeat c sess as)) = Some p"
proof (induction c sess as rule: heartbeat.induct)
  case (4 c sess raw w as)
  show ?case
  proof (cases "wsjson_Read (cl_lib c) raw")
    case (Some msg)
    show ?thesis
    proof (cases "receive c w sess msg")
      case (Inr r)
      obtain sess' acts where r: "r = (sess', acts)" by (cases r)
      have "\<exists>p. proto_run c (phase_of sess') (fst (heartbeat c sess' as)) = Some p"
        using 4 Some Inr r by blast
      then show ?thesis
        using Some Inr r receive_refines [of c w sess msg sess' acts]
        by (simp add: proto_run_append case_prod_beta Let_def)
    qed (use Some in simp)
  qed simp
qed simp_all

lemma handshake_sends:
  "case handshake c as of
    (acts, Done rest) \<Rightarrow> acts = [SentIdentity (cl_Identity c)]
  | (acts, _) \<Rightarrow> acts = []"
  by (induction c as rule: handshake.induct) (auto split: option.splits ending.splits)

lemma handshake_Done: "handshake c as = (acts, Done rest) \<Longrightarrow> acts = [SentIdentity (cl_Identity c)]"
  using handshake_sends [of c as] by simp

lemma Run_refines: "\<exists>p. proto_run c PhDialed (fst (Run c a input)) = Some p"
proof (cases "Identified (cl_Identity c) \<and> dial a = None")
  case True
  obtain acts e where h: "handshake c input = (acts, e)" by fastforce
  show ?thesis
  proof (cases e)
    case (Done rest)
    obtain p where "proto_run c PhV1 (fst (heartbeat c None rest)) = Some p"
      using heartbeat_refines [of c None rest] by (auto simp: phase_of_def)
    then show ?thesis
      using True h Done handshake_Done [of c input acts rest]
      by (simp add: Run_def proto_run_append case_prod_beta Let_def)
  qed (use True h handshake_sends [of c input] in \<open>simp_all add: Run_def\<close>)
qed (auto simp: Run_def)

text \<open>Which arrivals are pings.\<close>

fun is_ping :: "golib \<Rightarrow> arrival \<Rightarrow> bool" where
  "is_ping L (Frame raw w) = (case wsjson_Read L raw of None \<Rightarrow> False | Some msg \<Rightarrow> mg_Type msg = TypePing)"
| "is_ping L _ = False"

lemma receive_pong:
  assumes "receive c w sess msg = Inr (sess', acts)"
  shows "count_list acts SentPong = (if mg_Type msg = TypePing then 1 else 0)"
  using assms by (auto simp: receive_def Let_def split: if_splits option.splits write_end.splits)

lemma heartbeat_pongs:
  assumes "snd (heartbeat c sess as) = Waiting"
  shows "count_list (fst (heartbeat c sess as)) SentPong = length (filter (is_ping (cl_lib c)) as)"
  using assms
proof (induction c sess as rule: heartbeat.induct)
  case (4 c sess raw w as)
  obtain msg where msg: "wsjson_Read (cl_lib c) raw = Some msg"
    using "4.prems" by (cases "wsjson_Read (cl_lib c) raw") auto
  obtain sess' acts where r: "receive c w sess msg = Inr (sess', acts)"
    using "4.prems" msg by (cases "receive c w sess msg") auto
  have "snd (heartbeat c sess' as) = Waiting" using "4.prems" msg r by (simp add: case_prod_beta Let_def)
  then have "count_list (fst (heartbeat c sess' as)) SentPong = length (filter (is_ping (cl_lib c)) as)"
    using "4.IH" msg r by blast
  then show ?case using msg r receive_pong [OF r] by (simp add: case_prod_beta Let_def)
qed simp_all

lemma proto_run_command:
  assumes "proto_run c p as = Some p'" "CallCommand s m cmd \<in> set as"
  shows "p = PhV2 s \<or> (\<exists>w. s = newSession (cl_URL c) w)"
  using assms
proof (induction as arbitrary: p)
  case (Cons a as)
  obtain q where q: "proto c p a = Some q" "proto_run c q as = Some p'"
    using Cons.prems(1) by (auto split: option.splits)
  show ?case
  proof (cases "CallCommand s m cmd \<in> set as")
    case True
    then have "q = PhV2 s \<or> (\<exists>w. s = newSession (cl_URL c) w)" using Cons.IH q(2) by blast
    then show ?thesis using q(1) by (cases p; cases a) (auto split: if_splits)
  next
    case False
    then have "a = CallCommand s m cmd" using Cons.prems(2) by simp
    then show ?thesis using q(1) by (cases p) (auto split: if_splits)
  qed
qed simp

lemma follow_https:
  assumes "follow prev_check via redirects = Some hops" "list_all (\<lambda>s. s = ''https'') via" "via \<noteq> []"
  shows "list_all (\<lambda>s. s = ''https'') hops"
  using assms
proof (induction redirects arbitrary: via)
  case (Cons s redirects)
  have "last via = ''https''" using Cons.prems(2,3) by (auto simp: list_all_iff)
  then have "s = ''https''" using Cons.prems(1,3) by (auto simp: CheckRedirect_def split: if_splits)
  then show ?case using Cons.IH [of "via @ [s]"] Cons.prems by (auto split: if_splits)
qed simp

lemma URLFor_wss:
  assumes "URLFor L esc base = Inr url"
  shows "\<exists>u. ParseURL L (TrimRightChar (CHR ''/'') (TrimSpace base)) = Some u \<and> u_Host u \<noteq> [] \<and>
    (u_Scheme u = ''https'' \<and> HasPrefix url ''wss://'' \<or> u_Scheme u = ''http'' \<and> HasPrefix url ''ws://'')"
  using assms by (auto simp: URLFor_def Let_def url_String_def HasPrefix_def split: if_splits option.splits)

section \<open>A concrete connection\<close>

definition demo_ws_json :: "string \<Rightarrow> json option" where
  "demo_ws_json raw =
     (if raw = ''hello'' then Some (JObj [(''type'', JStr ''hello'')])
      else if raw = ''ping'' then Some (JObj [(''type'', JStr ''ping'')])
      else if raw = ''welcome'' then Some (JObj [(''type'', JStr ''welcome''),
        (''data'', JObj [(''protocol'', JInt 2), (''accepted_capabilities'', JArr [JStr ''machine.info''])])])
      else if raw = ''command'' then Some (JObj [(''type'', JStr ''command''), (''id'', JStr ''1''),
        (''data'', JObj [(''name'', JStr ''machine.info'')])])
      else None)"

definition demo_ws_lib :: golib where
  "demo_ws_lib = \<lparr>NewVersion_ok = (\<lambda>_. True), LessThan = (\<lambda>a b. length a < length b), ParseJSON = demo_ws_json,
     ParseRFC3339 = (\<lambda>_. None),
     ParseURL = (\<lambda>s. if HasPrefix s ''https://'' then
        Some \<lparr>u_Scheme = ''https'', u_Host = drop 8 s, u_Path = [], u_RawQuery = [], u_Fragment = []\<rparr> else None),
     ParseCIDR = (\<lambda>_. None), ParseIP = (\<lambda>_. None)\<rparr>"

definition demo_identity :: identity where
  "demo_identity = \<lparr>id_HWID = ''h'', id_Hostname = [], id_ADDomain = [], id_LoggedUser = [], id_LoggedUserState = [],
     id_LoggedUserDisconnectedAt = [], id_Serial = [], id_Product = [], id_OSVersion = [], id_EMLyVersion = [],
     id_Protocol = 2, id_Capabilities = []\<rparr>"

definition demo_client :: client where
  "demo_client = \<lparr>cl_lib = demo_ws_lib, cl_show = (\<lambda>_. []), cl_URL = ''wss://x/v2/client/ws'',
     cl_Identity = demo_identity, cl_Handler = True\<rparr>"

definition demo_arrivals :: "arrival list" where
  "demo_arrivals = map (\<lambda>t. Frame t WriteOk) [''hello'', ''command'', ''ping'', ''welcome'', ''welcome'', ''command'', ''ping'']"

lemma demo_reads:
  "wsjson_Read demo_ws_lib ''hello'' = Some (zero_message\<lparr>mg_Type := ''hello''\<rparr>)"
  "wsjson_Read demo_ws_lib ''ping'' = Some (zero_message\<lparr>mg_Type := ''ping''\<rparr>)"
  "wsjson_Read demo_ws_lib ''welcome'' = Some (zero_message\<lparr>mg_Type := ''welcome'',
     mg_Data := Some (JObj [(''protocol'', JInt 2), (''accepted_capabilities'', JArr [JStr ''machine.info''])])\<rparr>)"
  "wsjson_Read demo_ws_lib ''command'' = Some (zero_message\<lparr>mg_Type := ''command'', mg_ID := ''1'',
     mg_Data := Some (JObj [(''name'', JStr ''machine.info'')])\<rparr>)"
  by (simp_all add: wsjson_Read_def read_limit_def DefaultLimits_def demo_ws_lib_def demo_ws_json_def dec_defs
      message_fields_def dec_raw_def zero_message_def)

definition demo_session :: session where
  "demo_session = \<lparr>ss_secure = True, ss_accepted = {''machine.info''}, ss_limits = DefaultLimits\<rparr>"

definition demo_command :: command where
  "demo_command = zero_command\<lparr>cm_Name := ''machine.info''\<rparr>"

lemma demo_data:
  "unmarshal_raw welcome_fields (Some (JObj [(''protocol'', JInt 2), (''accepted_capabilities'', JArr [JStr ''machine.info''])]))
     zero_welcome = Some (zero_welcome\<lparr>wc_Protocol := 2, wc_AcceptedCapabilities := [''machine.info'']\<rparr>)"
  "unmarshal_raw command_fields (Some (JObj [(''name'', JStr ''machine.info'')])) zero_command = Some demo_command"
  "newSession (cl_URL demo_client) (zero_welcome\<lparr>wc_Protocol := 2, wc_AcceptedCapabilities := [''machine.info'']\<rparr>) = demo_session"
  by (simp_all add: unmarshal_raw_def dec_defs welcome_fields_def command_fields_def zero_welcome_def zero_command_def
      demo_command_def in_int64_def min_int64_def max_int64_def newSession_def demo_session_def demo_client_def HasPrefix_def)

lemmas demo_evals = demo_reads demo_data receive_def type_defs demo_arrivals_def zero_message_def ProtocolV2_def

lemma demo_client_fields [simp]:
  "cl_lib demo_client = demo_ws_lib" "cl_Handler demo_client" "cl_Identity demo_client = demo_identity"
  by (simp_all add: demo_client_def)

lemma demo_handshake: "handshake demo_client demo_arrivals = ([SentIdentity demo_identity], Done (tl demo_arrivals))"
  by (simp add: demo_evals)

lemma demo_Run:
  "Run demo_client Upgraded demo_arrivals =
     ([SentIdentity demo_identity, OnConnected, SentPong,
       CallWelcome demo_session (zero_welcome\<lparr>wc_Protocol := 2, wc_AcceptedCapabilities := [''machine.info'']\<rparr>),
       CallCommand demo_session (zero_message\<lparr>mg_Type := ''command'', mg_ID := ''1'',
         mg_Data := Some (JObj [(''name'', JStr ''machine.info'')])\<rparr>) demo_command, SentPong], Waiting)"
  unfolding Run_def demo_handshake
  by (simp add: dial_def Identified_def demo_identity_def demo_evals Let_def)

section \<open>Properties\<close>

text \<open>
  C21: A connection follows the protocol, whatever the server sends. The identity goes out
  once, first, and only when it names the machine; the owner is told of the connection
  after it; commands and notifies reach the handler only after a usable welcome, on the
  one session that welcome made, and each is what its frame decodes to; there is at most
  one welcome; without a handler the connection stays at version 1. While the connection
  is up, every ping has had its pong.
\<close>

theorem connection_follows_protocol:
  "(\<exists>p. proto_run c PhDialed (fst (Run c a input)) = Some p) \<and>
   (\<forall>acts rest. handshake c input = (acts, Done rest) \<and> snd (Run c a input) = Waiting \<longrightarrow>
      count_list (fst (Run c a input)) SentPong = length (filter (is_ping (cl_lib c)) rest))"
proof (intro conjI allI impI)
  show "\<exists>p. proto_run c PhDialed (fst (Run c a input)) = Some p" by (rule Run_refines)
next
  fix acts rest assume h: "handshake c input = (acts, Done rest) \<and> snd (Run c a input) = Waiting"
  then have i: "Identified (cl_Identity c)" "dial a = None" by (auto simp: Run_def split: if_splits option.splits)
  have "acts = [SentIdentity (cl_Identity c)]" using h handshake_Done by blast
  then show "count_list (fst (Run c a input)) SentPong = length (filter (is_ping (cl_lib c)) rest)"
    using h i heartbeat_pongs [of c None rest] by (auto simp: Run_def case_prod_beta Let_def)
qed

theorem connection_follows_protocol_witness:
  "count_list (fst (Run demo_client Upgraded demo_arrivals)) SentPong =
     length (filter (is_ping demo_ws_lib) (tl demo_arrivals)) \<and>
   snd (Run demo_client Upgraded demo_arrivals) = Waiting \<and> tl demo_arrivals \<noteq> []"
proof -
  have w: "snd (Run demo_client Upgraded demo_arrivals) = Waiting" unfolding demo_Run by simp
  have "count_list (fst (Run demo_client Upgraded demo_arrivals)) SentPong =
     length (filter (is_ping (cl_lib demo_client)) (tl demo_arrivals))"
    using connection_follows_protocol [of demo_client Upgraded demo_arrivals] demo_handshake w by blast
  then show ?thesis using w by (simp add: demo_arrivals_def)
qed



end
