(* ===== verification/Telemetry.thy ===== *)
theory Telemetry
  imports Sources EventChannel Connection Machine
begin

text \<open>
  What the service tells the server about the machine, by three ways that must agree: the
  \<^verbatim>\<open>X-EMLy-*\<close> headers of a request (\<^verbatim>\<open>internal/source/http.go\<close>), the identity of the
  presence channel (\<^verbatim>\<open>internal/service/clientws.go\<close>) and the payloads of \<^verbatim>\<open>machine.info\<close>
  and \<^verbatim>\<open>session.changed\<close> (\<^verbatim>\<open>clientevents.go\<close>, \<^verbatim>\<open>sessionwatch.go\<close>). \<open>rfc\<close> stands for the
  RFC 3339 text of a time.
\<close>

section \<open>Requests\<close>

record http_source =
  hs_ManifestURL :: string
  hs_UserAgent :: string
  hs_APIKey :: string
  hs_Hostname :: string
  hs_HWID :: string
  hs_ADDomain :: string
  hs_InternalIP :: string
  hs_OSVersion :: string
  hs_Serial :: string
  hs_Product :: string
  hs_EMLyVersion :: string
  hs_LoggedUser :: string
  hs_LoggedUserState :: string
  hs_LoggedUserDisconnectedAt :: time

definition state_text :: "session_state \<Rightarrow> string" where
  "state_text s =
     (case s of SessionNone \<Rightarrow> [] | SessionActiveConsole \<Rightarrow> ''active-console'' | SessionActiveRDP \<Rightarrow> ''active-rdp''
      | SessionDisconnected \<Rightarrow> ''disconnected'')"

definition ResolveEMLy :: "config \<Rightarrow> (string \<Rightarrow> string) option \<Rightarrow> emly_info" where
  "ResolveEMLy cfg sec = ResolveEMLyWithChannel sec (cf_ChannelOverride cfg)"

definition emlyVersion :: "config \<Rightarrow> (string \<Rightarrow> string) option \<Rightarrow> string" where
  "emlyVersion cfg sec =
     (let i = ResolveEMLy cfg sec in if ei_FreshInstall i then [] else ei_InstalledVersion i)"

definition newHTTPSource :: "config \<Rightarrow> info \<Rightarrow> (string \<Rightarrow> string) option \<Rightarrow> user_session \<Rightarrow> string \<Rightarrow> http_source" where
  "newHTTPSource cfg machine sec us manifestURL =
     \<lparr>hs_ManifestURL = manifestURL, hs_UserAgent = cf_UserAgent cfg, hs_APIKey = cf_APIKey cfg,
      hs_Hostname = in_Hostname machine, hs_HWID = in_HWID machine, hs_ADDomain = in_ADDomain machine,
      hs_InternalIP = in_InternalIP machine, hs_OSVersion = in_OSVersion machine, hs_Serial = in_Serial machine,
      hs_Product = in_Product machine, hs_EMLyVersion = emlyVersion cfg sec,
      hs_LoggedUser = us_User us, hs_LoggedUserState = state_text (us_State us),
      hs_LoggedUserDisconnectedAt = us_DisconnectedAt us\<rparr>"

text \<open>\<^verbatim>\<open>Header.Set\<close>, for a value that is not empty.\<close>

definition set_header :: "string \<Rightarrow> string \<Rightarrow> string gomap \<Rightarrow> string gomap" where
  "set_header k v h = (if v \<noteq> [] then AList.update k v h else h)"

definition optional_time :: "(time \<Rightarrow> string) \<Rightarrow> time \<Rightarrow> string" where
  "optional_time rfc t = (if is_zero_time t then [] else rfc t)"

definition source_headers :: "(time \<Rightarrow> string) \<Rightarrow> http_source \<Rightarrow> (string \<times> string) list" where
  "source_headers rfc s =
     [(''User-Agent'', hs_UserAgent s), (''X-Api-Key'', hs_APIKey s), (''X-EMLy-Hostname'', hs_Hostname s),
      (''X-EMLy-HWID'', hs_HWID s), (''X-EMLy-ADDomain'', hs_ADDomain s), (''X-EMLy-IntIP'', hs_InternalIP s),
      (''X-EMLy-OSVersion'', hs_OSVersion s), (''X-EMLy-Serial'', hs_Serial s), (''X-EMLy-Product'', hs_Product s),
      (''X-EMLy-AppVersion'', hs_EMLyVersion s), (''X-EMLy-LoggedUser'', hs_LoggedUser s),
      (''X-EMLy-LoggedUserState'', hs_LoggedUserState s),
      (''X-EMLy-LoggedUserDisconnectedAt'', optional_time rfc (hs_LoggedUserDisconnectedAt s))]"

definition applyHeaders :: "(time \<Rightarrow> string) \<Rightarrow> http_source \<Rightarrow> string gomap \<Rightarrow> string gomap" where
  "applyHeaders rfc s h = fold (\<lambda>(k, v). set_header k v) (source_headers rfc s) h"

text \<open>
  What a request for a manifest meets: no valid request, no answer, or a status with the
  body and whether it could be read. The body is cut at 4 MiB.
\<close>

datatype http_answer = BadRequestURL | NoResponse | Response nat string bool

definition getJSON :: "http_answer \<Rightarrow> fetch_error + string" where
  "getJSON a =
     (case a of
        BadRequestURL \<Rightarrow> Inl (ErrOther 0)
      | NoResponse \<Rightarrow> Inl (ErrOther 1)
      | Response status body ok \<Rightarrow>
          if status = 404 then Inl Resolver.ErrNotFound
          else if status \<noteq> 200 then Inl (ErrOther 2)
          else if \<not> ok then Inl (ErrOther 3)
          else Inr (take (4 * 2 ^ 20) body))"

definition FetchManifest :: "golib \<Rightarrow> http_answer \<Rightarrow> fetch_error + manifest" where
  "FetchManifest L a =
     (case getJSON a of Inl e \<Rightarrow> Inl e
      | Inr data \<Rightarrow> (case Parse_manifest L data of Inl _ \<Rightarrow> Inl (ErrOther 4) | Inr m \<Rightarrow> Inr m))"

definition FetchUpdaterManifest :: "golib \<Rightarrow> http_answer \<Rightarrow> fetch_error + updater_manifest" where
  "FetchUpdaterManifest L a =
     (case getJSON a of Inl e \<Rightarrow> Inl e
      | Inr data \<Rightarrow> (case ParseUpdater L data of Inl _ \<Rightarrow> Inl (ErrOther 4) | Inr m \<Rightarrow> Inr m))"

section \<open>The identity of the presence channel\<close>

definition identityFromSource :: "(time \<Rightarrow> string) \<Rightarrow> http_source \<Rightarrow> identity" where
  "identityFromSource rfc s =
     \<lparr>id_HWID = hs_HWID s, id_Hostname = hs_Hostname s, id_ADDomain = hs_ADDomain s, id_LoggedUser = hs_LoggedUser s,
      id_LoggedUserState = hs_LoggedUserState s,
      id_LoggedUserDisconnectedAt = optional_time rfc (hs_LoggedUserDisconnectedAt s),
      id_Serial = hs_Serial s, id_Product = hs_Product s, id_OSVersion = hs_OSVersion s, id_EMLyVersion = hs_EMLyVersion s,
      id_Protocol = 0, id_Capabilities = []\<rparr>"

definition clientWSIdentity ::
  "(time \<Rightarrow> string) \<Rightarrow> config \<Rightarrow> info \<Rightarrow> (string \<Rightarrow> string) option \<Rightarrow> user_session \<Rightarrow> identity" where
  "clientWSIdentity rfc cfg machine sec us = identityFromSource rfc (newHTTPSource cfg machine sec us [])"

text \<open>The headers of the upgrade request.\<close>

definition dial_headers :: "string \<Rightarrow> string \<Rightarrow> identity \<Rightarrow> string gomap" where
  "dial_headers key agent i =
     set_header ''X-EMLy-Hostname'' (id_Hostname i) (set_header ''X-EMLy-HWID'' (id_HWID i)
       (set_header ''User-Agent'' agent (set_header ''X-Api-Key'' key [])))"

section \<open>Session changes\<close>

datatype session_change_kind =
    SessionConsoleConnect | SessionConsoleDisconnect | SessionRemoteConnect | SessionRemoteDisconnect | SessionLogon
  | SessionLogoff | SessionLock | SessionUnlock | SessionRemoteControl | SessionCreate | SessionTerminate

fun kind_text :: "session_change_kind \<Rightarrow> string" where
  "kind_text SessionConsoleConnect = ''console-connect''"
| "kind_text SessionConsoleDisconnect = ''console-disconnect''"
| "kind_text SessionRemoteConnect = ''remote-connect''"
| "kind_text SessionRemoteDisconnect = ''remote-disconnect''"
| "kind_text SessionLogon = ''logon''"
| "kind_text SessionLogoff = ''logoff''"
| "kind_text SessionLock = ''lock''"
| "kind_text SessionUnlock = ''unlock''"
| "kind_text SessionRemoteControl = ''remote-control''"
| "kind_text SessionCreate = ''create''"
| "kind_text SessionTerminate = ''terminate''"

definition sessionChangeKinds :: "(32 word \<times> session_change_kind) list" where
  "sessionChangeKinds =
     [(0x1, SessionConsoleConnect), (0x2, SessionConsoleDisconnect), (0x3, SessionRemoteConnect),
      (0x4, SessionRemoteDisconnect), (0x5, SessionLogon), (0x6, SessionLogoff), (0x7, SessionLock),
      (0x8, SessionUnlock), (0x9, SessionRemoteControl), (0xA, SessionCreate), (0xB, SessionTerminate)]"

record session_change =
  sc_Kind :: session_change_kind
  sc_SessionID :: "32 word"
  sc_At :: time
  sc_SessionUser :: string
  sc_LoggedUser :: user_session

text \<open>\<open>eventData\<close> is the session id the notification points to, \<open>None\<close> for a null pointer.\<close>

definition ParseSessionChange :: "32 word \<Rightarrow> 32 word option \<Rightarrow> time \<Rightarrow> session_change option" where
  "ParseSessionChange eventType eventData at =
     (case map_of sessionChangeKinds eventType of
        None \<Rightarrow> None
      | Some kind \<Rightarrow>
          Some \<lparr>sc_Kind = kind, sc_SessionID = (case eventData of None \<Rightarrow> 0 | Some i \<Rightarrow> i), sc_At = at,
                sc_SessionUser = [], sc_LoggedUser = nobody\<rparr>)"

definition Resolve_session :: "wts \<Rightarrow> session_change \<Rightarrow> session_change" where
  "Resolve_session w c = c\<lparr>sc_SessionUser := sessionUser (wt_string w) (sc_SessionID c), sc_LoggedUser := LoggedUser w\<rparr>"

record user_session_payload =
  up_User :: string
  up_State :: string
  up_DisconnectedAt :: string

definition userSession :: "(time \<Rightarrow> string) \<Rightarrow> user_session \<Rightarrow> user_session_payload" where
  "userSession rfc s =
     \<lparr>up_User = us_User s, up_State = state_text (us_State s), up_DisconnectedAt = optional_time rfc (us_DisconnectedAt s)\<rparr>"

record session_changed =
  sg_Events :: "string list"
  sg_SessionID :: "32 word"
  sg_SessionUser :: string
  sg_LoggedUser :: "user_session_payload option"
  sg_Changed :: bool
  sg_At :: string

text \<open>\<open>ms\<close> is the text of a time with milliseconds.\<close>

definition sessionChangedPayload ::
  "(time \<Rightarrow> string) \<Rightarrow> (time \<Rightarrow> string) \<Rightarrow> session_change_kind list \<Rightarrow> session_change \<Rightarrow> bool \<Rightarrow> session_changed" where
  "sessionChangedPayload rfc ms kinds c changed =
     \<lparr>sg_Events = map kind_text kinds, sg_SessionID = sc_SessionID c, sg_SessionUser = sc_SessionUser c,
      sg_LoggedUser = (if us_User (sc_LoggedUser c) \<noteq> [] then Some (userSession rfc (sc_LoggedUser c)) else None),
      sg_Changed = changed, sg_At = optional_time ms (sc_At c)\<rparr>"

definition sessionSettle :: duration where "sessionSettle = 1500 * Millisecond"
definition sessionChangeBuffer :: nat where "sessionChangeBuffer = 16"

text \<open>
  The queue, the variables of the loop of \<^verbatim>\<open>watchSessions\<close>, and what it reported: the kinds
  of each burst, the resolved change, and whether the user differs from the last report.
\<close>

record watcher =
  wa_queue :: "session_change list"
  wa_last :: "session_change option"
  wa_kinds :: "session_change_kind list"
  wa_fire :: bool
  wa_prev :: user_session
  wa_out :: "(session_change_kind list \<times> session_change \<times> bool) list"

definition new_watcher :: watcher where
  "new_watcher = \<lparr>wa_queue = [], wa_last = None, wa_kinds = [], wa_fire = False, wa_prev = nobody, wa_out = []\<rparr>"

text \<open>Whether the notification was taken, and the watcher after it.\<close>

definition queueSessionChange :: "session_change \<Rightarrow> watcher \<Rightarrow> bool \<times> watcher" where
  "queueSessionChange c w =
     (if length (wa_queue w) < sessionChangeBuffer then (True, w\<lparr>wa_queue := wa_queue w @ [c]\<rparr>) else (False, w))"

definition watch_receive :: "watcher \<Rightarrow> watcher" where
  "watch_receive w =
     (case wa_queue w of
        [] \<Rightarrow> w
      | c # cs \<Rightarrow> w\<lparr>wa_queue := cs, wa_last := Some c, wa_kinds := wa_kinds w @ [sc_Kind c], wa_fire := True\<rparr>)"

definition watch_fire :: "wts \<Rightarrow> watcher \<Rightarrow> watcher" where
  "watch_fire win w =
     (case wa_last w of
        None \<Rightarrow> w
      | Some c \<Rightarrow>
          if \<not> wa_fire w then w
          else let got = Resolve_session win c; changed = (sc_LoggedUser got \<noteq> wa_prev w)
               in w\<lparr>wa_fire := False, wa_prev := sc_LoggedUser got, wa_out := wa_out w @ [(wa_kinds w, got, changed)],
                    wa_kinds := []\<rparr>)"

datatype watch_op = WNotify session_change | WReceive | WFire wts

text \<open>The control loop's and the watcher's steps in any order; the notifications that were taken are kept.\<close>

fun watch_run :: "watch_op list \<Rightarrow> watcher \<Rightarrow> watcher \<times> session_change list" where
  "watch_run [] w = (w, [])"
| "watch_run (WNotify c # ops) w =
     (let (taken, w') = queueSessionChange c w; (w'', cs) = watch_run ops w' in (w'', if taken then c # cs else cs))"
| "watch_run (WReceive # ops) w = watch_run ops (watch_receive w)"
| "watch_run (WFire win # ops) w = watch_run ops (watch_fire win w)"

section \<open>machine.info\<close>

record server_ref =
  sv_URL :: string
  sv_Role :: string

definition serverRef :: "cycle_state \<Rightarrow> string \<Rightarrow> server_ref option" where
  "serverRef cyc url =
     (if url = [] then None
      else Some \<lparr>sv_URL = url,
        sv_Role = (if cy_site cyc = [] then ''default''
                   else if cy_chain cyc \<noteq> [] \<and> url = ManifestURL (cy_eff cyc) (hd (cy_chain cyc)) then ''primary''
                   else ''backup'')\<rparr>)"

definition psource_String :: "psource \<Rightarrow> string" where
  "psource_String s = (case s of SourceCache \<Rightarrow> ''cache'' | SourceRemote \<Rightarrow> ''remote'' | SourceDefault \<Rightarrow> ''default'')"

record pending_info =
  pi_Version :: string
  pi_Forced :: bool
  pi_DownloadedAt :: string

definition pendingInfo :: "(time \<Rightarrow> string) \<Rightarrow> pending \<Rightarrow> pending_info" where
  "pendingInfo rfc p = \<lparr>pi_Version = pn_Version p, pi_Forced = pn_Forced p, pi_DownloadedAt = rfc (pn_DownloadedAt p)\<rparr>"

record site_info =
  si_DC :: string
  si_MatchedSite :: string
  si_Server :: "server_ref option"

record config_info =
  ci_Revision :: int
  ci_FetchedAt :: string
  ci_Source :: string

record hardware_info =
  hi_CPU :: string
  hi_Cores :: int
  hi_MemoryMB :: nat
  hi_SystemDrive :: "(nat \<times> nat) option"

record emly_payload =
  ep_Installed :: bool
  ep_Running :: bool
  ep_InstallDir :: string
  ep_Channel :: string
  ep_Language :: string

record machine_payload =
  mp_HWID :: string
  mp_Hostname :: string
  mp_ADDomain :: string
  mp_Serial :: string
  mp_Product :: string
  mp_OSVersion :: string
  mp_EMLyVersion :: string
  mp_UpdaterVersion :: string
  mp_LoggedUser :: "user_session_payload option"
  mp_BootTime :: string
  mp_UptimeSeconds :: int
  mp_Network :: "net_interface list option"
  mp_Site :: "site_info option"
  mp_Config :: "config_info option"
  mp_Hardware :: "hardware_info option"
  mp_EMLy :: "emly_payload option"
  mp_PendingUpdate :: "pending_info option"
  mp_SelfUpdate :: "(string \<times> int \<times> bool) option"

record info_env =
  ie_cfg :: config
  ie_machine :: info
  ie_emly :: "(string \<Rightarrow> string) option"
  ie_user :: user_session
  ie_system :: system_env
  ie_interfaces :: "net_interface list"
  ie_cyc :: "cycle_state option"
  ie_pref :: "string option"
  ie_running :: bool
  ie_state :: "state option"
  ie_now :: time
  ie_version :: string
  ie_rfc :: "time \<Rightarrow> string"

definition want :: "string list \<Rightarrow> string \<Rightarrow> bool" where
  "want sections s \<longleftrightarrow> sections = [] \<or> s \<in> set sections"

definition machineInfo :: "info_env \<Rightarrow> string list \<Rightarrow> machine_payload" where
  "machineInfo e sections =
     (let src = newHTTPSource (ie_cfg e) (ie_machine e) (ie_emly e) (ie_user e) [];
          rfc = ie_rfc e; ident = (\<lambda>v. if want sections ''identity'' then v else []);
          f = CollectSystemFacts (ie_system e) (ie_now e);
          boot = (want sections ''hardware'' \<or> want sections ''identity'') \<and> \<not> is_zero_time (sf_BootTime f);
          i = ResolveEMLy (ie_cfg e) (ie_emly e);
          st = (if want sections ''update'' then ie_state e else None)
      in \<lparr>mp_HWID = ident (hs_HWID src), mp_Hostname = ident (hs_Hostname src), mp_ADDomain = ident (hs_ADDomain src),
          mp_Serial = ident (hs_Serial src), mp_Product = ident (hs_Product src), mp_OSVersion = ident (hs_OSVersion src),
          mp_EMLyVersion = ident (hs_EMLyVersion src), mp_UpdaterVersion = ident (ie_version e),
          mp_LoggedUser = (if want sections ''logged_user'' \<and> us_User (ie_user e) \<noteq> [] then Some (userSession rfc (ie_user e)) else None),
          mp_BootTime = (if boot then rfc (sf_BootTime f) else []),
          mp_UptimeSeconds = (if boot then time_sub (ie_now e) (sf_BootTime f) div Second else 0),
          mp_Network = (if want sections ''network'' then Some (ie_interfaces e) else None),
          mp_Site = (if want sections ''site'' then
              map_option (\<lambda>cyc. \<lparr>si_DC = h_DC (cy_host cyc), si_MatchedSite = cy_site cyc,
                si_Server = (case fst (preferredChain (cy_chain cyc) (ie_pref e)) of
                    [] \<Rightarrow> None | name # _ \<Rightarrow> serverRef cyc (ManifestURL (cy_eff cyc) name))\<rparr>) (ie_cyc e) else None),
          mp_Config = (if want sections ''config'' then
              map_option (\<lambda>cyc. \<lparr>ci_Revision = Revision (cy_snap cyc), ci_FetchedAt = optional_time rfc (sn_FetchedAt (cy_snap cyc)),
                ci_Source = (let s = psource_String (sn_Source (cy_snap cyc)) in if s = ''default'' then ''legacy'' else s)\<rparr>) (ie_cyc e) else None),
          mp_Hardware = (if want sections ''hardware'' then
              Some \<lparr>hi_CPU = sf_CPU f, hi_Cores = sf_Cores f, hi_MemoryMB = sf_MemoryMB f,
                hi_SystemDrive = (if sf_SystemDriveTotalMB f > 0 then Some (sf_SystemDriveTotalMB f, sf_SystemDriveFreeMB f) else None)\<rparr> else None),
          mp_EMLy = (if want sections ''emly'' then
              Some \<lparr>ep_Installed = \<not> ei_FreshInstall i, ep_Running = ie_running e, ep_InstallDir = cf_EMLyInstallDir (ie_cfg e),
                ep_Channel = ei_Channel i, ep_Language = ei_Language i\<rparr> else None),
          mp_PendingUpdate = (case st of None \<Rightarrow> None | Some s \<Rightarrow> map_option (pendingInfo rfc) (st_Pending s)),
          mp_SelfUpdate = (case st of None \<Rightarrow> None
            | Some s \<Rightarrow> map_option (\<lambda>su. (su_Version su, su_Attempts su, su_GaveUp su)) (st_SelfUpdate s))\<rparr>)"

section \<open>Lemmas\<close>

text \<open>A header or field is sent exactly when there is something to say.\<close>

definition agrees :: "string gomap \<Rightarrow> string \<Rightarrow> string \<Rightarrow> bool" where
  "agrees h k v \<longleftrightarrow> map_of h k = (if v = [] then None else Some v)"

lemma map_of_set_header: "map_of (set_header k v h) j = (if j = k \<and> v \<noteq> [] then Some v else map_of h j)"
  by (simp add: set_header_def update_conv')

lemma fold_headers_other:
  "k \<notin> set (map fst kvs) \<Longrightarrow> map_of (fold (\<lambda>(k, v). set_header k v) kvs h) k = map_of h k"
  by (induction kvs arbitrary: h) (auto simp: map_of_set_header)

lemma fold_headers:
  assumes "distinct (map fst kvs)" "(k, v) \<in> set kvs" "map_of h k = None"
  shows "agrees (fold (\<lambda>(k, v). set_header k v) kvs h) k v"
  using assms
proof (induction kvs arbitrary: h)
  case (Cons kv kvs)
  obtain k' v' where kv: "kv = (k', v')" by (cases kv)
  show ?case
  proof (cases "(k, v) = kv")
    case True
    then have "k \<notin> set (map fst kvs)" using kv Cons.prems(1) by auto
    then show ?thesis
      using True kv Cons.prems(3) fold_headers_other [of k kvs "set_header k v h"] by (simp add: agrees_def map_of_set_header)
  next
    case False
    then have "(k, v) \<in> set kvs" "k \<noteq> k'" using Cons.prems kv by (auto simp: rev_image_eqI)
    then show ?thesis using Cons kv by (simp add: map_of_set_header)
  qed
qed simp

lemma fold_headers_nonempty:
  "map_of (fold (\<lambda>(k, v). set_header k v) kvs h) k = Some v \<Longrightarrow> v \<noteq> [] \<or> map_of h k = Some v"
proof (induction kvs arbitrary: h)
  case (Cons kv kvs)
  obtain k' v' where kv: "kv = (k', v')" by (cases kv)
  then show ?case using Cons.IH [of "set_header k' v' h"] Cons.prems by (auto simp: map_of_set_header split: if_splits)
qed simp

text \<open>The headers and the fields of the identity, by name.\<close>

definition identity_fields :: "identity \<Rightarrow> (string \<times> string) list" where
  "identity_fields i =
     [(''X-EMLy-HWID'', id_HWID i), (''X-EMLy-Hostname'', id_Hostname i), (''X-EMLy-ADDomain'', id_ADDomain i),
      (''X-EMLy-LoggedUser'', id_LoggedUser i), (''X-EMLy-LoggedUserState'', id_LoggedUserState i),
      (''X-EMLy-LoggedUserDisconnectedAt'', id_LoggedUserDisconnectedAt i), (''X-EMLy-Serial'', id_Serial i),
      (''X-EMLy-Product'', id_Product i), (''X-EMLy-OSVersion'', id_OSVersion i), (''X-EMLy-AppVersion'', id_EMLyVersion i)]"

lemma identity_fields_subset: "set (identity_fields (identityFromSource rfc s)) \<subseteq> set (source_headers rfc s)"
  by (simp add: identity_fields_def source_headers_def identityFromSource_def)

lemma source_headers_distinct: "distinct (map fst (source_headers rfc s))"
  by (simp add: source_headers_def)

text \<open>The watcher between two steps.\<close>

definition watch_inv :: "watcher \<Rightarrow> bool" where
  "watch_inv w \<longleftrightarrow> length (wa_queue w) \<le> sessionChangeBuffer \<and> (wa_fire w \<longleftrightarrow> wa_kinds w \<noteq> []) \<and>
     (wa_fire w \<longrightarrow> wa_last w \<noteq> None) \<and> [] \<notin> fst ` set (wa_out w) \<and>
     wa_prev w = last (nobody # map (\<lambda>(_, c, _). sc_LoggedUser c) (wa_out w)) \<and>
     map (\<lambda>(_, _, ch). ch) (wa_out w) =
       map2 (\<noteq>) (map (\<lambda>(_, c, _). sc_LoggedUser c) (wa_out w)) (nobody # map (\<lambda>(_, c, _). sc_LoggedUser c) (wa_out w))"

definition watch_kinds :: "watcher \<Rightarrow> session_change_kind list" where
  "watch_kinds w = concat (map fst (wa_out w)) @ wa_kinds w @ map sc_Kind (wa_queue w)"

lemma watch_inv_init: "watch_inv new_watcher" "watch_kinds new_watcher = []"
  by (simp_all add: watch_inv_def watch_kinds_def new_watcher_def)

lemma watch_queue:
  "watch_inv w \<Longrightarrow> watch_inv (snd (queueSessionChange c w)) \<and>
   watch_kinds (snd (queueSessionChange c w)) = watch_kinds w @ (if fst (queueSessionChange c w) then [sc_Kind c] else [])"
  by (auto simp: watch_inv_def watch_kinds_def queueSessionChange_def)

lemma watch_receive_inv: "watch_inv w \<Longrightarrow> watch_inv (watch_receive w) \<and> watch_kinds (watch_receive w) = watch_kinds w"
  by (auto simp: watch_inv_def watch_kinds_def watch_receive_def split: list.splits)

lemma map2_shift:
  "map2 f (xs @ [x]) (z # xs @ [x]) = map2 f xs (z # xs) @ [f x (last (z # xs))]"
  by (induction xs arbitrary: z) auto

lemma watch_fire_inv: "watch_inv w \<Longrightarrow> watch_inv (watch_fire win w) \<and> watch_kinds (watch_fire win w) = watch_kinds w"
  by (auto simp: watch_inv_def watch_kinds_def watch_fire_def Let_def map2_shift split: option.splits)

lemma watch_run_inv:
  "watch_inv w \<Longrightarrow> watch_inv (fst (watch_run ops w)) \<and>
   watch_kinds (fst (watch_run ops w)) = watch_kinds w @ map sc_Kind (snd (watch_run ops w))"
proof (induction ops w rule: watch_run.induct)
  case (2 c ops w)
  obtain taken w' where q: "queueSessionChange c w = (taken, w')" by fastforce
  then show ?case using 2 watch_queue [OF "2.prems", of c] by (auto simp: case_prod_beta Let_def)
qed (simp_all add: watch_receive_inv watch_fire_inv)

lemma machine_info_ignores_remote_channel:
  "mp_EMLy (machineInfo (e\<lparr>ie_cyc := c\<rparr>) sections) = mp_EMLy (machineInfo e sections)"
  by (simp add: machineInfo_def Let_def)

section \<open>Properties\<close>

text \<open>
  The three reports agree. For the same machine, user and installation, every value of
  the presence identity is the value of the corresponding header of a request, is left
  out of both exactly when it is empty, and is what \<^verbatim>\<open>machine.info\<close> reports in its identity
  section; the upgrade request carries the same hardware id and host name; and no header
  with an empty value is ever sent, which the server would take for an erasure.
\<close>

theorem reports_agree:
  "let s = newHTTPSource (ie_cfg e) (ie_machine e) (ie_emly e) (ie_user e) url;
       h = applyHeaders (ie_rfc e) s [];
       i = clientWSIdentity (ie_rfc e) (ie_cfg e) (ie_machine e) (ie_emly e) (ie_user e);
       p = machineInfo e []
   in (\<forall>(k, v) \<in> set (identity_fields i). agrees h k v) \<and>
      (\<forall>k v. map_of h k = Some v \<longrightarrow> v \<noteq> []) \<and>
      agrees (dial_headers key agent i) ''X-EMLy-HWID'' (id_HWID i) \<and>
      agrees (dial_headers key agent i) ''X-EMLy-Hostname'' (id_Hostname i) \<and>
      [mp_HWID p, mp_Hostname p, mp_ADDomain p, mp_Serial p, mp_Product p, mp_OSVersion p, mp_EMLyVersion p] =
        [id_HWID i, id_Hostname i, id_ADDomain i, id_Serial i, id_Product i, id_OSVersion i, id_EMLyVersion i]"
proof -
  define s where "s = newHTTPSource (ie_cfg e) (ie_machine e) (ie_emly e) (ie_user e) url"
  define i where "i = clientWSIdentity (ie_rfc e) (ie_cfg e) (ie_machine e) (ie_emly e) (ie_user e)"
  have i: "i = identityFromSource (ie_rfc e) s"
    by (simp add: i_def s_def clientWSIdentity_def newHTTPSource_def identityFromSource_def)
  have "agrees (applyHeaders (ie_rfc e) s []) k v" if "(k, v) \<in> set (identity_fields i)" for k v
    unfolding applyHeaders_def
    by (rule fold_headers [OF source_headers_distinct]) (use that identity_fields_subset i in auto)
  moreover have "v \<noteq> []" if "map_of (applyHeaders (ie_rfc e) s []) k = Some v" for k v
    using fold_headers_nonempty that unfolding applyHeaders_def by fastforce
  moreover have "agrees (dial_headers key agent i) ''X-EMLy-HWID'' (id_HWID i)"
    "agrees (dial_headers key agent i) ''X-EMLy-Hostname'' (id_Hostname i)"
    by (simp_all add: agrees_def dial_headers_def map_of_set_header)
  moreover have "[mp_HWID p, mp_Hostname p, mp_ADDomain p, mp_Serial p, mp_Product p, mp_OSVersion p, mp_EMLyVersion p] =
        [id_HWID i, id_Hostname i, id_ADDomain i, id_Serial i, id_Product i, id_OSVersion i, id_EMLyVersion i]"
    if "p = machineInfo e []" for p
    unfolding i that by (simp add: machineInfo_def want_def Let_def identityFromSource_def s_def newHTTPSource_def)
  ultimately show ?thesis unfolding Let_def s_def [symmetric] i_def [symmetric] by blast
qed

definition demo_info_env :: info_env where
  "demo_info_env = \<lparr>ie_cfg = demo_config,
     ie_machine = \<lparr>in_Hostname = [], in_HWID = ''h'', in_ADDomain = [], in_InternalIP = [], in_OSVersion = [],
       in_Serial = [], in_Product = []\<rparr>,
     ie_emly = None, ie_user = nobody,
     ie_system = \<lparr>sy_cores = 1, sy_ticks = 0, sy_cpu = None, sy_phys = None, sy_disk = None\<rparr>,
     ie_interfaces = [], ie_cyc = None, ie_pref = None, ie_running = False, ie_state = None, ie_now = 1,
     ie_version = ''1.0.0'', ie_rfc = (\<lambda>_. ''t'')\<rparr>"

theorem reports_agree_witness:
  "map_of (applyHeaders (\<lambda>_. ''t'') (newHTTPSource demo_config (ie_machine demo_info_env) None nobody ''https://x'') []) ''X-EMLy-HWID''
     = Some ''h''"
proof -
  have f: "ie_rfc demo_info_env = (\<lambda>_. ''t'')" "ie_cfg demo_info_env = demo_config" "ie_emly demo_info_env = None"
    "ie_user demo_info_env = nobody" "in_HWID (ie_machine demo_info_env) = ''h''"
    by (simp_all add: demo_info_env_def)
  let ?i = "clientWSIdentity (\<lambda>_. ''t'') demo_config (ie_machine demo_info_env) None nobody"
  have "(''X-EMLy-HWID'', ''h'') \<in> set (identity_fields ?i)"
    by (simp add: identity_fields_def clientWSIdentity_def identityFromSource_def newHTTPSource_def f)
  moreover have "\<forall>(k, v) \<in> set (identity_fields ?i).
      agrees (applyHeaders (\<lambda>_. ''t'') (newHTTPSource demo_config (ie_machine demo_info_env) None nobody ''https://x'') []) k v"
    by (rule conjunct1 [OF reports_agree [of demo_info_env "''https://x''" "[]" "[]", unfolded Let_def f]])
  ultimately have "agrees (applyHeaders (\<lambda>_. ''t'') (newHTTPSource demo_config (ie_machine demo_info_env) None nobody ''https://x'') [])
      ''X-EMLy-HWID'' ''h''" by blast
  then show ?thesis by (simp add: agrees_def)
qed

text \<open>
  No session notification that was taken is lost or reported twice. In any order of
  notifications, receipts and timer expiries, the kinds reported so far, followed by
  those of the open burst and of the queue, are exactly the kinds of the notifications
  taken, in their order; the queue never exceeds its bound; every report carries at least
  one notification; and a report says that the user changed exactly when its user differs
  from that of the report before it, nobody before the first.
\<close>

theorem session_bursts_conserved:
  "case watch_run ops new_watcher of (w, taken) \<Rightarrow>
     concat (map fst (wa_out w)) @ wa_kinds w @ map sc_Kind (wa_queue w) = map sc_Kind taken \<and>
     length (wa_queue w) \<le> sessionChangeBuffer \<and> [] \<notin> fst ` set (wa_out w) \<and>
     map (\<lambda>(_, _, ch). ch) (wa_out w) =
       map2 (\<noteq>) (map (\<lambda>(_, c, _). sc_LoggedUser c) (wa_out w)) (nobody # map (\<lambda>(_, c, _). sc_LoggedUser c) (wa_out w))"
proof -
  obtain w taken where r: "watch_run ops new_watcher = (w, taken)" by fastforce
  have inv: "watch_inv w" and kinds: "watch_kinds w = map sc_Kind taken"
    using watch_run_inv [OF watch_inv_init(1), of ops] r watch_inv_init(2) by simp_all
  have "concat (map fst (wa_out w)) @ wa_kinds w @ map sc_Kind (wa_queue w) = map sc_Kind taken"
    using kinds by (simp only: watch_kinds_def)
  then show ?thesis using inv unfolding r prod.case watch_inv_def by blast
qed

end
