(* ===== verification/Presence.thy ===== *)
theory Presence
  imports Telemetry
begin

text \<open>
  \<^verbatim>\<open>internal/service/clientws.go\<close> and \<^verbatim>\<open>clientnotify.go\<close>: the supervisor that keeps the
  presence channel open, iteration by iteration of its loop, and the notifies that wake
  the update loop. Timers, the clock, what a connection meets and when the policy changes
  are the environment's.
\<close>

section \<open>Notifies\<close>

definition minReleaseJitter :: duration where "minReleaseJitter = 60 * Second"
definition minConfigJitter :: duration where "minConfigJitter = 30 * Second"
definition notifyWakeThrottle :: duration where "notifyWakeThrottle = 10 * Minute"

record release_published =
  rp_Target :: string
  rp_Channel :: string
  rp_Version :: string
  rp_JitterSeconds :: int

record config_published =
  cp_Revision :: int
  cp_JitterSeconds :: int

definition release_fields :: "release_published fields" where
  "release_fields =
     [(''target'', fld dec_string rp_Target rp_Target_update), (''channel'', fld dec_string rp_Channel rp_Channel_update),
      (''version'', fld dec_string rp_Version rp_Version_update),
      (''jitter_seconds'', fld dec_int rp_JitterSeconds rp_JitterSeconds_update)]"

definition config_fields :: "config_published fields" where
  "config_fields =
     [(''revision'', fld dec_int cp_Revision cp_Revision_update),
      (''jitter_seconds'', fld dec_int cp_JitterSeconds cp_JitterSeconds_update)]"

definition zero_release :: release_published where
  "zero_release = \<lparr>rp_Target = [], rp_Channel = [], rp_Version = [], rp_JitterSeconds = 0\<rparr>"

definition zero_config_published :: config_published where
  "zero_config_published = \<lparr>cp_Revision = 0, cp_JitterSeconds = 0\<rparr>"

text \<open>
  The flag that makes the next poll fetch the document, the time of the last wake that
  was allowed (zero before the first), the wakes that were scheduled, each with the time
  of the call and its delay, and the channel, which holds one reason.
\<close>

record notify_state =
  nt_forceConfig :: bool
  nt_last :: time
  nt_scheduled :: "(time \<times> duration) list"
  nt_wake :: "string option"

record notify_env =
  ne_lib :: golib
  ne_version :: string
  ne_cyc :: "cycle_state option"
  ne_emly :: "(string \<Rightarrow> string) option"
  ne_now :: time
  ne_rand :: "int \<Rightarrow> int"

definition releaseConcernsMe :: "notify_env \<Rightarrow> release_published \<Rightarrow> bool" where
  "releaseConcernsMe e p =
     (if rp_Target p = ''updater'' then Less (ne_lib e) (ne_version e) (rp_Version p) = Inr True
      else if rp_Target p = ''emly'' then
        (case ne_cyc e of
           None \<Rightarrow> False
         | Some cyc \<Rightarrow>
             (let emly = ResolveEMLyWithChannel (ne_emly e) (us_Channel (d_Updater (e_Doc (cy_eff cyc)))) in
              if rp_Channel p \<noteq> [] \<and> rp_Channel p \<noteq> ei_Channel emly then False
              else Less (ne_lib e) (ei_InstalledVersion emly) (rp_Version p) = Inr True))
      else False)"

definition allowNotifyWake :: "time \<Rightarrow> notify_state \<Rightarrow> bool \<times> notify_state" where
  "allowNotifyWake now st =
     (if \<not> is_zero_time (nt_last st) \<and> time_sub now (nt_last st) < notifyWakeThrottle then (False, st)
      else (True, st\<lparr>nt_last := now\<rparr>))"

text \<open>
  The delay of \<^verbatim>\<open>scheduleWake\<close>: the bound plus one is a 64-bit sum, and \<^verbatim>\<open>rand.Int64N\<close> panics
  on a bound that is not positive, the value \<open>None\<close> here.
\<close>

definition wake_delay :: "(int \<Rightarrow> int) \<Rightarrow> duration \<Rightarrow> duration option" where
  "wake_delay rnd m = (if m \<le> 0 then Some 0 else if wrap64 (m + 1) \<le> 0 then None else Some (rnd (wrap64 (m + 1))))"

definition scheduleWake :: "notify_env \<Rightarrow> duration \<Rightarrow> notify_state \<Rightarrow> notify_state option" where
  "scheduleWake e maxJitter st =
     map_option (\<lambda>d. st\<lparr>nt_scheduled := nt_scheduled st @ [(ne_now e, d)]\<rparr>) (wake_delay (ne_rand e) maxJitter)"

text \<open>The timer's function: a full channel keeps the reason it has.\<close>

definition wake_fires :: "string \<Rightarrow> notify_state \<Rightarrow> notify_state" where
  "wake_fires reason st = (case nt_wake st of None \<Rightarrow> st\<lparr>nt_wake := Some reason\<rparr> | Some _ \<Rightarrow> st)"

definition notify_jitter :: "int \<Rightarrow> duration \<Rightarrow> duration" where
  "notify_jitter seconds floor = (let j = wrap64 (seconds * Second) in if j < floor then floor else j)"

definition handleNotify :: "notify_env \<Rightarrow> notify \<Rightarrow> notify_state \<Rightarrow> notify_state option" where
  "handleNotify e n st =
     (if nf_Topic n = TopicReleasePublished then
        (case unmarshal_raw release_fields (nf_Payload n) zero_release of
           None \<Rightarrow> Some st
         | Some p \<Rightarrow>
             if \<not> releaseConcernsMe e p then Some st
             else let (ok, st') = allowNotifyWake (ne_now e) st in
             if \<not> ok then Some st' else scheduleWake e (notify_jitter (rp_JitterSeconds p) minReleaseJitter) st')
      else if nf_Topic n = TopicConfigPublished then
        (case unmarshal_raw config_fields (nf_Payload n) zero_config_published of
           None \<Rightarrow> Some st
         | Some p \<Rightarrow>
             if (case ne_cyc e of None \<Rightarrow> False | Some cyc \<Rightarrow> cp_Revision p \<le> Revision (cy_snap cyc)) then Some st
             else let st = st\<lparr>nt_forceConfig := True\<rparr>; (ok, st') = allowNotifyWake (ne_now e) st in
             if \<not> ok then Some st' else scheduleWake e (notify_jitter (cp_JitterSeconds p) minConfigJitter) st')
      else Some st)"

fun notifies :: "(notify_env \<times> notify) list \<Rightarrow> notify_state \<Rightarrow> notify_state option" where
  "notifies [] st = Some st"
| "notifies ((e, n) # ns) st = (case handleNotify e n st of None \<Rightarrow> None | Some st' \<Rightarrow> notifies ns st')"

section \<open>The supervisor\<close>

record ws_target =
  tg_enabled :: bool
  tg_server :: string
  tg_url :: string

definition no_target :: ws_target where
  "no_target = \<lparr>tg_enabled = False, tg_server = [], tg_url = []\<rparr>"

definition clientWSTarget ::
  "golib \<Rightarrow> (string \<Rightarrow> string) \<Rightarrow> cycle_state option \<Rightarrow> string option \<Rightarrow> ws_target \<times> string option" where
  "clientWSTarget L esc cur pref =
     (case cur of
        None \<Rightarrow> (no_target, pref)
      | Some cyc \<Rightarrow>
          if \<not> cs_Enabled (d_ClientWS (e_Doc (cy_eff cyc))) \<or> cy_chain cyc = [] then (no_target, pref)
          else let (chain, pref') = preferredChain (cy_chain cyc) pref; name = hd chain in
          (case URLFor L esc (BaseURL (cy_eff cyc) name) of
             Inl _ \<Rightarrow> (no_target, pref')
           | Inr url \<Rightarrow> (\<lparr>tg_enabled = True, tg_server = name, tg_url = url\<rparr>, pref')))"

definition clientWSWatchInterval :: duration where "clientWSWatchInterval = 15 * Second"
definition clientWSInitialJitterMax :: duration where "clientWSInitialJitterMax = 60 * Second"
definition clientWSUnsupportedRetryAfter :: duration where "clientWSUnsupportedRetryAfter = Hour"

definition clientWSInitialDelay :: "(int \<Rightarrow> int) \<Rightarrow> duration" where
  "clientWSInitialDelay rnd = rnd (clientWSInitialJitterMax + 1)"

text \<open>How long \<^verbatim>\<open>clientWSSleep\<close> waits when nothing wakes it.\<close>

definition clientWSSleep :: "duration \<Rightarrow> duration" where
  "clientWSSleep d = (if d \<le> 0 then Second else d)"

text \<open>The targets read at each tick of the watcher: whether it cancels the connection.\<close>

definition watchClientWSTarget :: "ws_target \<Rightarrow> ws_target list \<Rightarrow> bool" where
  "watchClientWSTarget running ticks \<longleftrightarrow> list_ex (\<lambda>t. t \<noteq> running) ticks"

text \<open>What is logged or done, with the clock's reading where the code takes one.\<close>

datatype ws_log =
    Dialed string time
  | Connected string
  | SwitchedOff
  | Unsupported string
  | Marked string time
  | Lost string

record 'p supervisor =
  su_backoff :: backoff
  su_unsupported :: "time gomap"
  su_running :: bool
  su_channel :: "'p channel"
  su_pref :: "string option"
  su_log :: "ws_log list"

record ws_setup =
  wx_lib :: golib
  wx_esc :: "string \<Rightarrow> string"
  wx_show :: "json \<Rightarrow> string"
  wx_rfc :: "time \<Rightarrow> string"
  wx_cfg :: config
  wx_info :: info

text \<open>
  One iteration: the cycle it reads, the clock before the dial, at the connection and at
  its end, what the connection meets, the targets the watcher reads meanwhile, and
  whether the service is stopping when it is over.
\<close>

record ws_iter =
  it_cur :: "cycle_state option"
  it_now :: time
  it_user :: user_session
  it_emly :: "(string \<Rightarrow> string) option"
  it_dial :: dial_answer
  it_input :: "arrival list"
  it_connectedAt :: time
  it_end :: time
  it_ticks :: "ws_target list"
  it_stopping :: bool
  it_rand :: "int \<Rightarrow> int"

datatype ws_next = Again | Idle duration | Stopped | Holding

definition log_ws :: "ws_log list \<Rightarrow> 'p supervisor \<Rightarrow> 'p supervisor" where
  "log_ws ls s = s\<lparr>su_log := su_log s @ ls\<rparr>"

definition make_client :: "ws_setup \<Rightarrow> ws_iter \<Rightarrow> ws_target \<Rightarrow> client" where
  "make_client x e target =
     \<lparr>cl_lib = wx_lib x, cl_show = wx_show x, cl_URL = tg_url target,
      cl_Identity = (clientWSIdentity (wx_rfc x) (wx_cfg x) (wx_info x) (it_emly e) (it_user e))
        \<lparr>id_Protocol := ProtocolV2, id_Capabilities := capabilities\<rparr>,
      cl_Handler = True\<rparr>"

definition marked :: "ws_iter \<Rightarrow> string \<Rightarrow> 'p supervisor \<Rightarrow> bool" where
  "marked e server s =
     (case map_of (su_unsupported s) server of
        None \<Rightarrow> False
      | Some markedAt \<Rightarrow> time_sub (it_now e) markedAt < clientWSUnsupportedRetryAfter)"

text \<open>The idle on the backoff that ends an iteration.\<close>

definition back_off :: "ws_iter \<Rightarrow> 'p supervisor \<Rightarrow> 'p supervisor \<times> ws_next" where
  "back_off e s =
     (let (d, b) = Next (it_rand e) (su_backoff s) in (s\<lparr>su_backoff := b\<rparr>, Idle (clientWSSleep d)))"

text \<open>What follows a connection that ended with \<open>err\<close>; \<open>connected\<close> tells whether it had been up.\<close>

definition after_run :: "ws_iter \<Rightarrow> ws_target \<Rightarrow> bool \<Rightarrow> run_error \<Rightarrow> 'p supervisor \<Rightarrow> 'p supervisor \<times> ws_next" where
  "after_run e target connected err s =
     (if it_stopping e then (s, Stopped)
      else if watchClientWSTarget target (it_ticks e) then (s\<lparr>su_backoff := Reset (su_backoff s)\<rparr>, Again)
      else if err = ErrNotImplemented then
        (log_ws ((if map_of (su_unsupported s) (tg_server target) = None then [Unsupported (tg_server target)] else []) @
                 [Marked (tg_server target) (it_end e)])
          (s\<lparr>su_unsupported := AList.update (tg_server target) (it_end e) (su_unsupported s), su_backoff := Reset (su_backoff s)\<rparr>), Again)
      else case err of
        ErrUnauthorized _ \<Rightarrow> back_off e s
      | _ \<Rightarrow>
          if connected
          then back_off e (log_ws [Lost (tg_server target)]
                 (s\<lparr>su_backoff := Settle (time_sub (it_end e) (it_connectedAt e)) (su_backoff s)\<rparr>))
          else back_off e s)"

text \<open>An attempt: its generation, the dial, the connection and what follows it.\<close>

definition attempt :: "ws_setup \<Rightarrow> ws_iter \<Rightarrow> ws_target \<Rightarrow> 'p supervisor \<Rightarrow> 'p supervisor \<times> ws_next" where
  "attempt x e target s =
     (let (gen, ch) = nextWSGeneration (su_channel s);
          s = log_ws [Dialed (tg_server target) (it_now e)] (s\<lparr>su_channel := ch\<rparr>);
          (acts, end) = Run (make_client x e target) (it_dial e) (it_input e);
          connected = OnConnected \<in> set acts;
          s = (if connected then log_ws [Connected (tg_server target)] (s\<lparr>su_running := True\<rparr>) else s)
      in (case end of
            Failed err \<Rightarrow> after_run e target connected err (s\<lparr>su_channel := clearWSSession gen (su_channel s)\<rparr>)
          | _ \<Rightarrow> (s, Holding)))"

definition supervise :: "ws_setup \<Rightarrow> ws_iter \<Rightarrow> 'p supervisor \<Rightarrow> 'p supervisor \<times> ws_next" where
  "supervise x e s =
     (let (target, pref) = clientWSTarget (wx_lib x) (wx_esc x) (it_cur e) (su_pref s); s = s\<lparr>su_pref := pref\<rparr> in
      if \<not> tg_enabled target then
        ((if su_running s then log_ws [SwitchedOff] (s\<lparr>su_running := False\<rparr>) else s), Idle (clientWSSleep clientWSWatchInterval))
      else if marked e (tg_server target) s then (s, Idle (clientWSSleep clientWSWatchInterval))
      else attempt x e target s)"

text \<open>The loop: it ends when the service stops, or with a connection that is still up.\<close>

fun runClientWS :: "ws_setup \<Rightarrow> ws_iter list \<Rightarrow> 'p supervisor \<Rightarrow> 'p supervisor" where
  "runClientWS x [] s = s"
| "runClientWS x (e # es) s =
     (case supervise x e s of
        (s', Again) \<Rightarrow> runClientWS x es s'
      | (s', Idle _) \<Rightarrow> runClientWS x es s'
      | (s', _) \<Rightarrow> s')"

definition new_supervisor :: "'p channel \<Rightarrow> 'p supervisor" where
  "new_supervisor ch =
     \<lparr>su_backoff = \<lparr>bo_Base = 0, bo_Max = 0, bo_StableFor = 0, bo_cur = 0\<rparr>, su_unsupported = [], su_running = False,
      su_channel = ch, su_pref = None, su_log = []\<rparr>"

section \<open>The notifies, step by step\<close>

lemma even_wrap64: "even n \<Longrightarrow> even (wrap64 n)"
  unfolding wrap64_def by (simp add: dvd_mod)

lemma notify_jitter_range:
  assumes "0 < floor" "floor < max_int64"
  shows "floor \<le> notify_jitter seconds floor" "notify_jitter seconds floor < max_int64"
proof -
  have "even (wrap64 (seconds * Second))" by (rule even_wrap64) (simp add: Second_def)
  then have "wrap64 (seconds * Second) \<noteq> max_int64" by (auto simp: max_int64_def)
  then have "wrap64 (seconds * Second) < max_int64"
    using wrap64_in_range [of "seconds * Second"] by (simp add: in_int64_def)
  then show "floor \<le> notify_jitter seconds floor" "notify_jitter seconds floor < max_int64"
    using assms by (simp_all add: notify_jitter_def Let_def)
qed

lemma wake_delay_legal:
  assumes "random_below rnd" "0 < m" "m < max_int64"
  shows "\<exists>d. wake_delay rnd m = Some d \<and> 0 \<le> d \<and> d \<le> m"
proof -
  have "wrap64 (m + 1) = m + 1"
    using assms by (intro wrap64_id) (simp add: in_int64_def min_int64_def)
  moreover have "0 \<le> rnd (m + 1) \<and> rnd (m + 1) < m + 1"
    by (rule assms(1) [unfolded random_below_def, rule_format]) (use assms(2) in simp)
  ultimately show ?thesis using assms(2) by (simp add: wake_delay_def)
qed

lemma floors: "0 < minReleaseJitter" "minReleaseJitter < max_int64" "0 < minConfigJitter" "minConfigJitter < max_int64"
  by (simp_all add: minReleaseJitter_def minConfigJitter_def Second_def max_int64_def)

text \<open>The wakes scheduled so far, and the throttle's memory of the last.\<close>

definition wakes_ok :: "notify_state \<Rightarrow> bool" where
  "wakes_ok st \<longleftrightarrow>
     sorted_wrt (\<lambda>a b. fst a + notifyWakeThrottle \<le> fst b) (nt_scheduled st) \<and>
     (\<forall>(t, d) \<in> set (nt_scheduled st). t \<noteq> 0 \<and> 0 \<le> d \<and> d < max_int64) \<and>
     nt_last st = (if nt_scheduled st = [] then 0 else fst (last (nt_scheduled st)))"

lemma allow_wake:
  assumes "wakes_ok st" "allowNotifyWake now st = (True, st')" "p \<in> set (nt_scheduled st)"
  shows "fst p + notifyWakeThrottle \<le> now"
proof -
  have ne: "nt_scheduled st \<noteq> []" using assms(3) by auto
  let ?l = "last (nt_scheduled st)"
  have l: "?l \<in> set (nt_scheduled st)" using ne by simp
  have last: "nt_last st = fst ?l" using assms(1) ne by (simp add: wakes_ok_def)
  moreover have "fst ?l \<noteq> 0" using assms(1) l unfolding wakes_ok_def by (auto simp: case_prod_beta simp del: last_in_set)
  ultimately have "time_sub now (nt_last st) \<ge> notifyWakeThrottle"
    using assms(2) by (auto simp: allowNotifyWake_def is_zero_time_def split: if_splits)
  then have "fst ?l + notifyWakeThrottle \<le> now"
    unfolding last by (auto simp: time_sub_def max_def min_def notifyWakeThrottle_def Minute_def min_int64_def split: if_splits)
  moreover have "fst p \<le> fst ?l"
  proof (cases "p = ?l")
    case False
    have "nt_scheduled st = butlast (nt_scheduled st) @ [?l]" using ne by simp
    then have "p \<in> set (butlast (nt_scheduled st))" using assms(3) False
      by (metis Un_iff empty_iff empty_set insert_iff list.simps(15) set_append)
    moreover have "sorted_wrt (\<lambda>a b. fst a + notifyWakeThrottle \<le> fst b) (butlast (nt_scheduled st) @ [?l])"
      using assms(1) ne by (simp add: wakes_ok_def)
    ultimately have "fst p + notifyWakeThrottle \<le> fst ?l" by (auto simp: sorted_wrt_append)
    then show ?thesis by (simp add: notifyWakeThrottle_def Minute_def)
  qed simp
  ultimately show ?thesis by linarith
qed

lemma wakes_ok_schedule:
  assumes "wakes_ok st" "allowNotifyWake (ne_now e) st = (True, st')" "ne_now e \<noteq> 0" "random_below (ne_rand e)"
    and "0 < m" "m < max_int64"
  shows "\<exists>st''. scheduleWake e m st' = Some st'' \<and> wakes_ok st''"
proof -
  obtain d where d: "wake_delay (ne_rand e) m = Some d" "0 \<le> d" "d \<le> m" using wake_delay_legal assms(4-6) by blast
  have s: "nt_scheduled st' = nt_scheduled st" "nt_last st' = ne_now e"
    using assms(2) by (auto simp: allowNotifyWake_def split: if_splits)
  have "wakes_ok (st'\<lparr>nt_scheduled := nt_scheduled st' @ [(ne_now e, d)]\<rparr>)"
    using assms(1,3,6) d allow_wake [OF assms(1,2)] s by (auto simp: wakes_ok_def sorted_wrt_append)
  then show ?thesis using d(1) by (simp add: scheduleWake_def)
qed

lemma wakes_ok_throttled: "wakes_ok st \<Longrightarrow> allowNotifyWake now st = (False, st') \<Longrightarrow> wakes_ok st'"
  by (auto simp: allowNotifyWake_def split: if_splits)

lemma wakes_ok_force: "wakes_ok (st\<lparr>nt_forceConfig := b\<rparr>) = wakes_ok st"
  by (simp add: wakes_ok_def)

lemma handleNotify_ok:
  assumes "wakes_ok st" "ne_now e \<noteq> 0" "random_below (ne_rand e)"
  shows "\<exists>st'. handleNotify e n st = Some st' \<and> wakes_ok st'"
proof -
  have wake: "\<exists>st''. (let (ok, st') = allowNotifyWake (ne_now e) s in if \<not> ok then Some st' else scheduleWake e m st') = Some st'' \<and> wakes_ok st''"
    if "wakes_ok s" "0 < m" "m < max_int64" for s m
  proof -
    obtain ok st' where a: "allowNotifyWake (ne_now e) s = (ok, st')" by fastforce
    show ?thesis
    proof (cases ok)
      case True
      then show ?thesis using wakes_ok_schedule [OF that(1) _ assms(2,3) that(2,3)] a by simp
    next
      case False
      then show ?thesis using wakes_ok_throttled [OF that(1)] a by simp
    qed
  qed
  have j: "0 < notify_jitter k f \<and> notify_jitter k f < max_int64" if "f \<in> {minReleaseJitter, minConfigJitter}" for k f
    using that notify_jitter_range [of minReleaseJitter k] notify_jitter_range [of minConfigJitter k] floors by auto
  show ?thesis
    using assms(1) wake [of st] wake [of "st\<lparr>nt_forceConfig := True\<rparr>"] j
    by (auto simp: handleNotify_def wakes_ok_force Let_def split: option.splits)
qed

lemma notifies_ok:
  assumes "wakes_ok st" "\<forall>(e, n) \<in> set ns. ne_now e \<noteq> 0 \<and> random_below (ne_rand e)"
  shows "\<exists>st'. notifies ns st = Some st' \<and> wakes_ok st'"
  using assms
proof (induction ns arbitrary: st)
  case (Cons p ns)
  obtain e n where p: "p = (e, n)" by (cases p)
  obtain st1 where "handleNotify e n st = Some st1" "wakes_ok st1"
    using handleNotify_ok [OF Cons.prems(1), of e n] Cons.prems(2) p by auto
  then show ?case using Cons.IH [of st1] Cons.prems(2) p by auto
qed simp

text \<open>A document that is newer than the one in use.\<close>

definition newer_config :: "notify_env \<Rightarrow> notify \<Rightarrow> bool" where
  "newer_config e n \<longleftrightarrow> nf_Topic n = TopicConfigPublished \<and>
     (\<exists>p. unmarshal_raw config_fields (nf_Payload n) zero_config_published = Some p \<and>
       (\<forall>cyc. ne_cyc e = Some cyc \<longrightarrow> Revision (cy_snap cyc) < cp_Revision p))"

lemma force_frame:
  "allowNotifyWake now st = (ok, st') \<Longrightarrow> nt_forceConfig st' = nt_forceConfig st"
  "scheduleWake e m st = Some st'' \<Longrightarrow> nt_forceConfig st'' = nt_forceConfig st"
  by (auto simp: allowNotifyWake_def scheduleWake_def split: if_splits)

lemma handleNotify_force:
  assumes "handleNotify e n st = Some st'"
  shows "nt_forceConfig st' \<longleftrightarrow> nt_forceConfig st \<or> newer_config e n"
proof -
  have wake: "nt_forceConfig st'' = nt_forceConfig s"
    if "(let (ok, st') = allowNotifyWake now s in if \<not> ok then Some st' else scheduleWake e m st') = Some st''" for now s m st''
    using that by (auto simp: case_prod_beta Let_def dest!: force_frame(2) split: if_splits)
      (metis force_frame(1) prod.collapse)+
  have t: "TopicReleasePublished \<noteq> TopicConfigPublished" by (simp add: event_defs)
  show ?thesis
    using assms t
    by (auto simp: handleNotify_def newer_config_def Let_def split: if_splits option.splits dest!: wake [unfolded Let_def])
qed

section \<open>The supervisor's log\<close>

text \<open>
  The specification of the log: a monitor that knows when each server was last marked,
  which servers were warned about, and whether the channel has been up since it was last
  switched off, and refuses an entry that should not be there.
\<close>

record monitor =
  mo_marks :: "string \<rightharpoonup> time"
  mo_running :: bool
  mo_warned :: "string set"

fun observe :: "ws_log \<Rightarrow> monitor \<Rightarrow> monitor option" where
  "observe (Dialed srv t) m =
     (case mo_marks m srv of None \<Rightarrow> Some m
      | Some t0 \<Rightarrow> if t - t0 \<ge> clientWSUnsupportedRetryAfter then Some m else None)"
| "observe (Connected srv) m = Some (m\<lparr>mo_running := True\<rparr>)"
| "observe SwitchedOff m = (if mo_running m then Some (m\<lparr>mo_running := False\<rparr>) else None)"
| "observe (Unsupported srv) m = (if srv \<in> mo_warned m then None else Some (m\<lparr>mo_warned := insert srv (mo_warned m)\<rparr>))"
| "observe (Marked srv t) m = Some (m\<lparr>mo_marks := (mo_marks m)(srv \<mapsto> t)\<rparr>)"
| "observe (Lost srv) m = (if mo_running m then Some m else None)"

fun observes :: "ws_log list \<Rightarrow> monitor \<Rightarrow> monitor option" where
  "observes [] m = Some m"
| "observes (l # ls) m = (case observe l m of None \<Rightarrow> None | Some m' \<Rightarrow> observes ls m')"

definition new_monitor :: monitor where
  "new_monitor = \<lparr>mo_marks = Map.empty, mo_running = False, mo_warned = {}\<rparr>"

definition mon :: "'p supervisor \<Rightarrow> monitor" where
  "mon s = \<lparr>mo_marks = map_of (su_unsupported s), mo_running = su_running s,
     mo_warned = dom (map_of (su_unsupported s))\<rparr>"

definition logged :: "'p supervisor \<Rightarrow> bool" where
  "logged s \<longleftrightarrow> observes (su_log s) new_monitor = Some (mon s)"

lemma observes_append:
  "observes (ls @ ls') m = (case observes ls m of None \<Rightarrow> None | Some m' \<Rightarrow> observes ls' m')"
  by (induction ls arbitrary: m) (auto split: option.splits)

lemma logged_log:
  "logged s \<Longrightarrow> su_log s' = su_log s \<Longrightarrow> observes ls (mon s) = Some (mon s') \<Longrightarrow> logged (log_ws ls s')"
  by (simp add: logged_def log_ws_def observes_append mon_def)

lemma logged_frame:
  "logged s \<Longrightarrow> su_log s' = su_log s \<Longrightarrow> su_unsupported s' = su_unsupported s \<Longrightarrow> su_running s' = su_running s \<Longrightarrow> logged s'"
  by (simp add: logged_def mon_def)

lemma back_off_frame [simp]:
  "su_log (fst (back_off e s)) = su_log s" "su_unsupported (fst (back_off e s)) = su_unsupported s"
  "su_running (fst (back_off e s)) = su_running s"
  by (simp_all add: back_off_def case_prod_beta)

lemma logged_back_off: "logged s \<Longrightarrow> logged (fst (back_off e s))"
  by (rule logged_frame) simp_all

lemma logged_mark:
  assumes "logged s"
  shows "logged (log_ws ((if map_of (su_unsupported s) srv = None then [Unsupported srv] else []) @ [Marked srv t])
    (s\<lparr>su_unsupported := AList.update srv t (su_unsupported s), su_backoff := b\<rparr>))"
  by (rule logged_log [OF assms]) (auto simp: mon_def update_conv' domIff)

lemma logged_lost:
  assumes "logged s" "su_running s"
  shows "logged (log_ws [Lost srv] (s\<lparr>su_backoff := b\<rparr>))"
  by (rule logged_log [OF assms(1)]) (simp_all add: mon_def assms(2))

lemma logged_after_run:
  assumes "logged s" "connected \<longrightarrow> su_running s"
  shows "logged (fst (after_run e target connected err s))"
proof -
  have "logged (s\<lparr>su_backoff := b\<rparr>)" for b using assms(1) by (rule logged_frame) simp_all
  then show ?thesis
    using assms logged_mark [OF assms(1)] logged_lost [OF assms(1)]
    by (cases err) (auto simp: after_run_def logged_back_off)
qed

lemma logged_attempt:
  assumes "logged s" "\<not> marked e (tg_server target) s"
  shows "logged (fst (attempt x e target s))"
proof -
  obtain gen ch where g: "nextWSGeneration (su_channel s) = (gen, ch)" by fastforce
  obtain acts end' where r: "Run (make_client x e target) (it_dial e) (it_input e) = (acts, end')" by fastforce
  define s2 where "s2 = log_ws [Dialed (tg_server target) (it_now e)] (s\<lparr>su_channel := ch\<rparr>)"
  define s3 where "s3 = (if OnConnected \<in> set acts then log_ws [Connected (tg_server target)] (s2\<lparr>su_running := True\<rparr>) else s2)"
  have a: "attempt x e target s = (case end' of
      Failed err \<Rightarrow> after_run e target (OnConnected \<in> set acts) err (s3\<lparr>su_channel := clearWSSession gen (su_channel s3)\<rparr>)
    | _ \<Rightarrow> (s3, Holding))"
    unfolding attempt_def prod.case Let_def g r s2_def [symmetric] s3_def [symmetric] by simp
  have "observes [Dialed (tg_server target) (it_now e)] (mon s) = Some (mon (s\<lparr>su_channel := ch\<rparr>))"
    using assms(2) by (auto simp: mon_def marked_def time_sub_def clientWSUnsupportedRetryAfter_def Hour_def min_int64_def
        split: option.splits)
  then have l2: "logged s2" unfolding s2_def by (rule logged_log [OF assms(1), rotated]) simp
  have "logged (log_ws [Connected (tg_server target)] (s2\<lparr>su_running := True\<rparr>))"
    by (rule logged_log [OF l2]) (simp_all add: mon_def)
  then have "logged s3" using l2 by (simp add: s3_def)
  then have l3: "logged (s3\<lparr>su_channel := c\<rparr>)" for c by (rule logged_frame) simp_all
  have "OnConnected \<in> set acts \<longrightarrow> su_running (s3\<lparr>su_channel := c\<rparr>)" for c by (simp add: s3_def log_ws_def)
  then show ?thesis using logged_after_run [OF l3] \<open>logged s3\<close> unfolding a by (cases end') auto
qed

lemma logged_supervise:
  assumes "logged s"
  shows "logged (fst (supervise x e s))"
proof -
  obtain target pref where t: "clientWSTarget (wx_lib x) (wx_esc x) (it_cur e) (su_pref s) = (target, pref)" by fastforce
  have l: "logged (s\<lparr>su_pref := pref\<rparr>)" using assms by (rule logged_frame) simp_all
  have "logged (log_ws [SwitchedOff] (s\<lparr>su_pref := pref, su_running := False\<rparr>))" if "su_running s"
    by (rule logged_log [OF l]) (simp_all add: mon_def that)
  then show ?thesis using l logged_attempt [OF l, of e target x] by (auto simp: supervise_def t Let_def)
qed

lemma logged_runClientWS: "logged s \<Longrightarrow> logged (runClientWS x es s)"
proof (induction es arbitrary: s)
  case (Cons e es)
  obtain s' nx where r: "supervise x e s = (s', nx)" by fastforce
  then have "logged s'" using logged_supervise [OF Cons.prems, of x e] by simp
  then show ?case using Cons.IH r by (cases nx) auto
qed simp

lemma logged_new: "logged (new_supervisor ch)"
  by (simp add: logged_def new_supervisor_def new_monitor_def mon_def)

lemma observes_warned_once:
  assumes "observes ls m = Some m'"
  shows "count_list ls (Unsupported srv) \<le> (if srv \<in> mo_warned m then 0 else 1)"
  using assms
proof (induction ls arbitrary: m)
  case (Cons l ls)
  then obtain m1 where m1: "observe l m = Some m1" "observes ls m1 = Some m'" by (auto split: option.splits)
  have "count_list ls (Unsupported srv) \<le> (if srv \<in> mo_warned m1 then 0 else 1)" using Cons.IH m1(2) by blast
  then show ?case using m1(1) by (cases l) (auto split: if_splits option.splits)
qed simp

text \<open>The supervisor's own schedule, with the default parameters.\<close>

definition bo_ok :: "'p supervisor \<Rightarrow> bool" where
  "bo_ok s \<longleftrightarrow> bo_Base (su_backoff s) = 0 \<and> bo_Max (su_backoff s) = 0 \<and> bo_StableFor (su_backoff s) = 0 \<and>
     bo_cur (su_backoff s) \<le> DefaultBackoffMax"

lemma bo_ok_log [simp]: "bo_ok (log_ws ls s) = bo_ok s"
  by (simp add: bo_ok_def log_ws_def)

lemma bo_ok_Reset: "bo_ok s \<Longrightarrow> bo_ok (s\<lparr>su_backoff := Reset (su_backoff s)\<rparr>)"
  by (simp add: bo_ok_def Reset_def DefaultBackoffMax_def Minute_def)

lemma bo_ok_Settle: "bo_ok s \<Longrightarrow> bo_ok (s\<lparr>su_backoff := Settle d (su_backoff s)\<rparr>)"
  by (simp add: Settle_def bo_ok_Reset)

lemma bo_ok_back_off:
  assumes "bo_ok s"
  shows "bo_ok (fst (back_off e s))"
    and "random_below (it_rand e) \<Longrightarrow> snd (back_off e s) = Idle d \<Longrightarrow> 0 < d \<and> d \<le> DefaultBackoffMax"
proof -
  have m: "bo_max (su_backoff s) = DefaultBackoffMax" using assms by (simp add: bo_ok_def bo_max_def)
  have sane: "sane (su_backoff s)"
    using assms m by (simp add: sane_def bo_ok_def) (simp add: DefaultBackoffMax_def Minute_def)
  have c: "bo_cur (snd (Next (it_rand e) (su_backoff s))) \<le> DefaultBackoffMax"
    using Next_cur [OF sane, of "it_rand e"] m by simp
  then show "bo_ok (fst (back_off e s))"
    using assms by (simp add: bo_ok_def back_off_def case_prod_beta) (simp add: Next_def Let_def)
  assume r: "random_below (it_rand e)" and d: "snd (back_off e s) = Idle d"
  let ?c = "bo_cur (snd (Next (it_rand e) (su_backoff s)))"
  have dd: "d = clientWSSleep (jitter (it_rand e) ?c)" using d by (auto simp: back_off_def case_prod_beta Next_def Let_def)
  have "jitter (it_rand e) ?c \<le> DefaultBackoffMax"
  proof (cases "?c \<le> 0")
    case False
    then have "it_rand e (?c + 1) < ?c + 1" by (intro conjunct2 [OF r [unfolded random_below_def, rule_format]]) simp
    then show ?thesis using False c by (simp add: jitter_def)
  qed (simp add: jitter_def DefaultBackoffMax_def Minute_def)
  then show "0 < d \<and> d \<le> DefaultBackoffMax"
    unfolding dd by (simp add: clientWSSleep_def) (simp add: DefaultBackoffMax_def Second_def Minute_def)
qed

lemma after_run_idle:
  assumes "bo_ok s"
  shows "bo_ok (fst (after_run e target connected err s))"
    and "random_below (it_rand e) \<Longrightarrow> snd (after_run e target connected err s) = Idle d \<Longrightarrow> 0 < d \<and> d \<le> DefaultBackoffMax"
proof -
  have settled: "bo_ok (log_ws ls (s\<lparr>su_backoff := Settle u (su_backoff s)\<rparr>))" for ls u
    using bo_ok_Settle [OF assms] by simp
  have marked: "bo_ok (log_ws ls (s\<lparr>su_unsupported := m, su_backoff := Reset (su_backoff s)\<rparr>))" for ls m
    using bo_ok_Reset [OF assms] by (simp add: bo_ok_def log_ws_def)
  show "bo_ok (fst (after_run e target connected err s))"
    using assms bo_ok_Reset [OF assms] marked bo_ok_back_off(1) [OF assms, of e] bo_ok_back_off(1) [OF settled, of e]
    by (cases err) (auto simp: after_run_def)
  assume "random_below (it_rand e)" "snd (after_run e target connected err s) = Idle d"
  then show "0 < d \<and> d \<le> DefaultBackoffMax"
    using bo_ok_back_off(2) [OF assms, of e d] bo_ok_back_off(2) [OF settled, of e _ _ d]
    by (cases err) (auto simp: after_run_def split: if_splits)
qed

lemma attempt_idle:
  assumes "bo_ok s"
  shows "bo_ok (fst (attempt x e target s))"
    and "random_below (it_rand e) \<Longrightarrow> snd (attempt x e target s) = Idle d \<Longrightarrow> 0 < d \<and> d \<le> DefaultBackoffMax"
proof -
  have ok: "bo_ok (s\<lparr>su_channel := c\<rparr>)" "bo_ok ((log_ws l (s\<lparr>su_channel := c\<rparr>))\<lparr>su_running := r\<rparr>)"
    "bo_ok ((log_ws l (s\<lparr>su_channel := c\<rparr>))\<lparr>su_channel := c'\<rparr>)"
    "bo_ok ((log_ws l' ((log_ws l (s\<lparr>su_channel := c\<rparr>))\<lparr>su_running := r\<rparr>))\<lparr>su_channel := c'\<rparr>)" for l l' c c' r
    using assms by (simp_all add: bo_ok_def log_ws_def)
  show "bo_ok (fst (attempt x e target s))"
    by (simp add: attempt_def case_prod_beta Let_def ok after_run_idle(1) split: ending.splits)
  assume "random_below (it_rand e)" "snd (attempt x e target s) = Idle d"
  then show "0 < d \<and> d \<le> DefaultBackoffMax"
    using after_run_idle(2) [OF ok(3)] after_run_idle(2) [OF ok(4)]
    by (auto simp: attempt_def case_prod_beta Let_def split: ending.splits if_splits)
qed

lemma supervise_idle:
  assumes "bo_ok s"
  shows "bo_ok (fst (supervise x e s))"
    and "random_below (it_rand e) \<Longrightarrow> snd (supervise x e s) = Idle d \<Longrightarrow> 0 < d \<and> d \<le> DefaultBackoffMax"
proof -
  have ok: "bo_ok (s\<lparr>su_pref := p\<rparr>)" "bo_ok (s\<lparr>su_pref := p, su_running := r\<rparr>)" for p r
    using assms by (simp_all add: bo_ok_def)
  show "bo_ok (fst (supervise x e s))"
    by (simp add: supervise_def case_prod_beta Let_def ok attempt_idle(1))
  have w: "0 < clientWSSleep clientWSWatchInterval \<and> clientWSSleep clientWSWatchInterval \<le> DefaultBackoffMax"
    by (simp add: clientWSSleep_def clientWSWatchInterval_def DefaultBackoffMax_def Second_def Minute_def)
  assume "random_below (it_rand e)" "snd (supervise x e s) = Idle d"
  then show "0 < d \<and> d \<le> DefaultBackoffMax"
    using attempt_idle(2) [OF ok(1)] w by (auto simp: supervise_def case_prod_beta Let_def split: if_splits)
qed

lemma runClientWS_bo_ok: "bo_ok s \<Longrightarrow> bo_ok (runClientWS x es s)"
proof (induction es arbitrary: s)
  case (Cons e es)
  obtain s' nx where r: "supervise x e s = (s', nx)" by fastforce
  then have "bo_ok s'" using supervise_idle(1) [OF Cons.prems, of x e] by simp
  then show ?case using Cons.IH r by (cases nx) auto
qed simp

section \<open>Properties\<close>

text \<open>
  C25: A burst of notifies cannot drive the update loop. Whatever the server publishes, and
  in whatever order, handling it never panics, whatever number it suggests as jitter;
  two wakes that were scheduled are at least ten minutes apart; each delay lies between
  zero and the largest duration; and the next poll is made to fetch the document exactly
  when a revision newer than the one in use was announced, also while wakes are throttled.
\<close>

theorem notify_wakes_bounded:
  assumes "\<forall>(e, n) \<in> set ns. ne_now e \<noteq> 0 \<and> random_below (ne_rand e)"
    and "nt_scheduled st = []" "nt_last st = 0"
  shows "\<exists>st'. notifies ns st = Some st' \<and>
    sorted_wrt (\<lambda>a b. fst a + notifyWakeThrottle \<le> fst b) (nt_scheduled st') \<and>
    (\<forall>(t, d) \<in> set (nt_scheduled st'). 0 \<le> d \<and> d < max_int64) \<and>
    (nt_forceConfig st' \<longleftrightarrow> nt_forceConfig st \<or> (\<exists>(e, n) \<in> set ns. newer_config e n))"
proof -
  have "wakes_ok st" using assms(2,3) by (simp add: wakes_ok_def)
  then obtain st' where st': "notifies ns st = Some st'" "wakes_ok st'" using notifies_ok assms(1) by blast
  moreover have "nt_forceConfig st' \<longleftrightarrow> nt_forceConfig st \<or> (\<exists>(e, n) \<in> set ns. newer_config e n)"
    using st'(1)
  proof (induction ns arbitrary: st)
    case (Cons p ns)
    obtain e n where p: "p = (e, n)" by (cases p)
    obtain st1 where h: "handleNotify e n st = Some st1" "notifies ns st1 = Some st'"
      using Cons.prems p by (auto split: option.splits)
    then show ?case using Cons.IH [OF h(2)] handleNotify_force [OF h(1)] p by auto
  qed simp
  ultimately show ?thesis unfolding wakes_ok_def by fastforce
qed


section \<open>Witnesses\<close>

definition demo_notify_env :: "time \<Rightarrow> notify_env" where
  "demo_notify_env now = \<lparr>ne_lib = demo_ws_lib, ne_version = ''1'', ne_cyc = None, ne_emly = None, ne_now = now,
     ne_rand = (\<lambda>_. 0)\<rparr>"

definition demo_notify :: notify where
  "demo_notify = \<lparr>nf_Topic = ''config.published'', nf_Payload = Some (JObj [(''revision'', JInt 7)])\<rparr>"

theorem notify_wakes_bounded_witness:
  "\<exists>st'. notifies [(demo_notify_env 1, demo_notify), (demo_notify_env 2, demo_notify)]
      \<lparr>nt_forceConfig = False, nt_last = 0, nt_scheduled = [], nt_wake = None\<rparr> = Some st' \<and> nt_forceConfig st' \<and>
     sorted_wrt (\<lambda>a b. fst a + notifyWakeThrottle \<le> fst b) (nt_scheduled st')"
proof -
  let ?ns = "[(demo_notify_env 1, demo_notify), (demo_notify_env 2, demo_notify)]"
  have h: "\<forall>(e, n) \<in> set ?ns. ne_now e \<noteq> 0 \<and> random_below (ne_rand e)"
    by (simp add: demo_notify_env_def random_below_def)
  have "newer_config (demo_notify_env 1) demo_notify"
    by (simp add: newer_config_def demo_notify_def demo_notify_env_def TopicConfigPublished_def unmarshal_raw_def dec_defs
        config_fields_def in_int64_def min_int64_def max_int64_def)
  then have "\<exists>(e, n) \<in> set ?ns. newer_config e n" by simp
  then show ?thesis
    using notify_wakes_bounded [OF h, of "\<lparr>nt_forceConfig = False, nt_last = 0, nt_scheduled = [], nt_wake = None\<rparr>"]
    by (simp del: sorted_wrt.simps set_simps) blast
qed

definition demo_ws_cycle :: cycle_state where
  "demo_ws_cycle = demo_cycle_state\<lparr>cy_eff := (cy_eff demo_cycle_state)\<lparr>e_Doc := (e_Doc (cy_eff demo_cycle_state))
     \<lparr>d_ClientWS := \<lparr>cs_Enabled = True, cs_Commands = []\<rparr>, d_Servers := [(''s'', ''https://x'')]\<rparr>\<rparr>, cy_chain := [''s'']\<rparr>"

definition demo_ws_setup :: ws_setup where
  "demo_ws_setup = \<lparr>wx_lib = demo_ws_lib, wx_esc = (\<lambda>p. p), wx_show = (\<lambda>_. []), wx_rfc = (\<lambda>_. []), wx_cfg = demo_config,
     wx_info = ie_machine demo_info_env\<rparr>"

definition demo_iter :: "time \<Rightarrow> ws_iter" where
  "demo_iter now = \<lparr>it_cur = Some demo_ws_cycle, it_now = now, it_user = nobody, it_emly = None, it_dial = Answered 404,
     it_input = [], it_connectedAt = 0, it_end = now, it_ticks = [], it_stopping = False, it_rand = (\<lambda>_. 0)\<rparr>"

definition demo_channel :: "unit channel" where
  "demo_channel = \<lparr>ch_buf = [], ch_gen = 0, ch_session = None\<rparr>"

lemma demo_target:
  "clientWSTarget demo_ws_lib (\<lambda>p. p) (Some demo_ws_cycle) None =
     (\<lparr>tg_enabled = True, tg_server = ''s'', tg_url = ''wss://x/v2/client/ws''\<rparr>, None)"
proof -
  have b: "TrimRightChar (CHR ''/'') (TrimSpace ''https://x'') = ''https://x''" by code_simp
  have "URLFor demo_ws_lib (\<lambda>p. p) ''https://x'' = Inr ''wss://x/v2/client/ws''"
    unfolding URLFor_def b by (simp add: demo_ws_lib_def HasPrefix_def url_String_def Path_def)
  then show ?thesis
    by (simp add: clientWSTarget_def demo_ws_cycle_def preferredChain_def BaseURL_def str_entry_def Let_def)
qed

lemma demo_identified: "Identified (cl_Identity (make_client demo_ws_setup (demo_iter now) t))"
  by (simp add: Identified_def make_client_def clientWSIdentity_def identityFromSource_def newHTTPSource_def
      demo_ws_setup_def demo_info_env_def)

lemma demo_supervised:
  "su_log (runClientWS demo_ws_setup [demo_iter 1, demo_iter 2] (new_supervisor demo_channel)) =
     [Dialed ''s'' 1, Unsupported ''s'', Marked ''s'' 1]"
proof -
  have r: "Run (make_client demo_ws_setup (demo_iter now) t) (Answered 404) [] = ([], Failed ErrNotImplemented)" for now t
    using demo_identified by (simp add: Run_def dial_def)
  have t: "clientWSTarget (wx_lib demo_ws_setup) (wx_esc demo_ws_setup) (it_cur (demo_iter now)) None =
     (\<lparr>tg_enabled = True, tg_server = ''s'', tg_url = ''wss://x/v2/client/ws''\<rparr>, None)" for now
    using demo_target by (simp add: demo_ws_setup_def demo_iter_def)
  have f: "it_dial (demo_iter now) = Answered 404" "it_input (demo_iter now) = []" "it_now (demo_iter now) = now"
    "it_end (demo_iter now) = now" "it_ticks (demo_iter now) = []" "\<not> it_stopping (demo_iter now)" for now
    by (simp_all add: demo_iter_def)
  show ?thesis
    by (simp add: supervise_def attempt_def after_run_def new_supervisor_def demo_channel_def t f r nextWSGeneration_def
        clearWSSession_def log_ws_def marked_def watchClientWSTarget_def time_sub_def clientWSUnsupportedRetryAfter_def
        Hour_def min_int64_def max_int64_def)
qed


end
