(* ===== verification/Logging.thy ===== *)
theory Logging
  imports PolicyParse Systems
begin

text \<open>
  \<^verbatim>\<open>internal/logging\<close> and \<^verbatim>\<open>applyLogging\<close> of \<^verbatim>\<open>service/remoteconfig.go\<close>: levels, the rolling files, the
  mirror in the Windows Event Log, changing them while the service runs, and the writer
  whose target is replaced under the lines that are being written. The values of a line are
  the strings they are printed as; rotation is the file package's.
\<close>

section \<open>Levels\<close>

datatype log_level = LevelDebug | LevelInfo | LevelWarn | LevelError

fun level_rank :: "log_level \<Rightarrow> int" where
  "level_rank LevelDebug = - 4"
| "level_rank LevelInfo = 0"
| "level_rank LevelWarn = 4"
| "level_rank LevelError = 8"

definition ParseLevel :: "string \<Rightarrow> log_level option" where
  "ParseLevel name =
     (let n = ToLower (TrimSpace name) in
      if n = ''debug'' then Some LevelDebug
      else if n = ''info'' then Some LevelInfo
      else if n = ''warn'' \<or> n = ''warning'' then Some LevelWarn
      else if n = ''error'' then Some LevelError
      else None)"

text \<open>The name of a level, as \<^verbatim>\<open>slog\<close> spells it in capitals.\<close>

fun level_String :: "log_level \<Rightarrow> string" where
  "level_String LevelDebug = ''DEBUG''"
| "level_String LevelInfo = ''INFO''"
| "level_String LevelWarn = ''WARN''"
| "level_String LevelError = ''ERROR''"

section \<open>The logger\<close>

record file_settings =
  fs_MaxSizeMB :: int
  fs_MaxBackups :: int
  fs_Compress :: bool

definition DefaultFileSettings :: file_settings where
  "DefaultFileSettings = \<lparr>fs_MaxSizeMB = 2, fs_MaxBackups = 5, fs_Compress = True\<rparr>"

text \<open>A rolling file: its name and limits, as handed to the file package.\<close>

record rolling =
  rl_Filename :: string
  rl_MaxSize :: int
  rl_MaxBackups :: int
  rl_Compress :: bool

datatype event_kind = EventInfo | EventWarning | EventError

text \<open>
  The logger and what it has written: each line with its level and the files it went to,
  each record of the Event Log with its kind and id. \<open>lo_closed\<close> are the writers it closed.
\<close>

record logger =
  lo_level :: log_level
  lo_sink :: "rolling list"
  lo_closed :: "rolling list"
  lo_logDir :: string
  lo_exePath :: string
  lo_console :: bool
  lo_settings :: file_settings
  lo_ev :: bool
  lo_evEnabled :: bool
  lo_lines :: "(log_level \<times> string \<times> string list \<times> rolling list) list"
  lo_events :: "(event_kind \<times> nat \<times> string) list"

text \<open>\<open>join_path\<close> is \<^verbatim>\<open>filepath.Join\<close> of a directory and a name.\<close>

definition buildFiles :: "(string \<Rightarrow> string \<Rightarrow> string) \<Rightarrow> logger \<Rightarrow> file_settings \<Rightarrow> rolling list" where
  "buildFiles join_path l s =
     \<lparr>rl_Filename = join_path (lo_logDir l) ''updater.log'', rl_MaxSize = fs_MaxSizeMB s,
      rl_MaxBackups = fs_MaxBackups s, rl_Compress = fs_Compress s\<rparr> #
     (if lo_exePath l \<noteq> []
      then [\<lparr>rl_Filename = lo_exePath l, rl_MaxSize = fs_MaxSizeMB s,
             rl_MaxBackups = min (fs_MaxBackups s) 3, rl_Compress = fs_Compress s\<rparr>] else [])"

definition New_logger :: "(string \<Rightarrow> string \<Rightarrow> string) \<Rightarrow> string \<Rightarrow> string \<Rightarrow> bool \<Rightarrow> logger" where
  "New_logger join_path logDir exeLogPath console =
     (let l = \<lparr>lo_level = (if console then LevelDebug else LevelInfo), lo_sink = [], lo_closed = [], lo_logDir = logDir,
               lo_exePath = exeLogPath, lo_console = console, lo_settings = DefaultFileSettings, lo_ev = False,
               lo_evEnabled = True, lo_lines = [], lo_events = []\<rparr>
      in l\<lparr>lo_sink := buildFiles join_path l DefaultFileSettings\<rparr>)"

definition Reconfigure :: "(string \<Rightarrow> string \<Rightarrow> string) \<Rightarrow> file_settings \<Rightarrow> logger \<Rightarrow> logger" where
  "Reconfigure join_path s0 l =
     (let s = (if fs_MaxSizeMB s0 < 1 then s0\<lparr>fs_MaxSizeMB := fs_MaxSizeMB DefaultFileSettings\<rparr> else s0);
          s = (if fs_MaxBackups s < 0 then s\<lparr>fs_MaxBackups := 0\<rparr> else s)
      in if s = lo_settings l then l
         else l\<lparr>lo_settings := s, lo_sink := buildFiles join_path l s, lo_closed := lo_closed l @ lo_sink l\<rparr>)"

definition SetLevel :: "string \<Rightarrow> logger \<Rightarrow> bool \<times> logger" where
  "SetLevel name l = (case ParseLevel name of None \<Rightarrow> (False, l) | Some lv \<Rightarrow> (True, l\<lparr>lo_level := lv\<rparr>))"

definition Level :: "logger \<Rightarrow> string" where
  "Level l = ToLower (level_String (lo_level l))"

definition SetEventLog :: "bool \<Rightarrow> logger \<Rightarrow> logger" where
  "SetEventLog enabled l = l\<lparr>lo_evEnabled := enabled\<rparr>"

section \<open>Writing\<close>

definition write_line :: "log_level \<Rightarrow> string \<Rightarrow> string list \<Rightarrow> logger \<Rightarrow> logger" where
  "write_line lv msg kv l =
     (if level_rank (lo_level l) \<le> level_rank lv
      then l\<lparr>lo_lines := lo_lines l @ [(lv, msg, kv, lo_sink l)]\<rparr> else l)"

text \<open>\<^verbatim>\<open>AttachEventLog\<close>, given the error of opening the source, and \<^verbatim>\<open>Close\<close>.\<close>

definition AttachEventLog :: "string option \<Rightarrow> logger \<Rightarrow> logger" where
  "AttachEventLog err l =
     (case err of
        None \<Rightarrow> l\<lparr>lo_ev := True\<rparr>
      | Some e \<Rightarrow> write_line LevelWarn ''event log source unavailable, continuing with file log only'' [''error'', e] l)"

definition Close_logger :: "logger \<Rightarrow> logger" where
  "Close_logger l = (if lo_ev l then l\<lparr>lo_ev := False\<rparr> else l)"

definition alwaysMirrored :: "nat \<Rightarrow> bool" where
  "alwaysMirrored i \<longleftrightarrow> 900 \<le> i \<and> i \<le> 904"

definition mirror :: "logger \<Rightarrow> nat \<Rightarrow> bool" where
  "mirror l i = (if \<not> lo_ev l then False else if \<not> lo_evEnabled l \<and> \<not> alwaysMirrored i then False else True)"

fun format_from :: "bool \<Rightarrow> string list \<Rightarrow> string" where
  "format_from first (k # v # kv) = (if first then [] else '', '') @ k @ ''='' @ v @ format_from False kv"
| "format_from first _ = []"

definition format_event :: "string \<Rightarrow> string list \<Rightarrow> string" where
  "format_event msg kv = (if kv = [] then msg else msg @ '' ('' @ format_from True kv @ '')'')"

definition write_event :: "event_kind \<Rightarrow> nat \<Rightarrow> string \<Rightarrow> string list \<Rightarrow> logger \<Rightarrow> logger" where
  "write_event k i msg kv l =
     (if mirror l i then l\<lparr>lo_events := lo_events l @ [(k, i, format_event msg kv)]\<rparr> else l)"

definition InfoEvent :: "nat \<Rightarrow> string \<Rightarrow> string list \<Rightarrow> logger \<Rightarrow> logger" where
  "InfoEvent i msg kv l = write_event EventInfo i msg kv (write_line LevelInfo msg kv l)"

definition WarnEvent :: "nat \<Rightarrow> string \<Rightarrow> string list \<Rightarrow> logger \<Rightarrow> logger" where
  "WarnEvent i msg kv l = write_event EventWarning i msg kv (write_line LevelWarn msg kv l)"

definition ErrorEvent :: "nat \<Rightarrow> string \<Rightarrow> string list \<Rightarrow> logger \<Rightarrow> logger" where
  "ErrorEvent i msg kv l = write_event EventError i msg kv (write_line LevelError msg kv l)"

section \<open>The settings of the policy\<close>

definition bool_text :: "bool \<Rightarrow> string" where
  "bool_text b = (if b then ''true'' else ''false'')"

text \<open>\<^verbatim>\<open>applyLogging\<close>, with the section that was applied last.\<close>

definition applyLogging ::
  "(string \<Rightarrow> string \<Rightarrow> string) \<Rightarrow> logging_settings \<Rightarrow> logging_settings option \<times> logger \<Rightarrow> logging_settings option \<times> logger" where
  "applyLogging join_path lg st =
     (let (applied, l) = st in
      if applied = Some lg then (applied, l)
      else
        (let (ok, l) = SetLevel (lg_Level lg) l;
             l = (if ok then l
                  else write_line LevelWarn ''unknown log level in the remote configuration, keeping the current one''
                         [''level'', lg_Level lg] l);
             l = Reconfigure join_path
                   \<lparr>fs_MaxSizeMB = lg_MaxSizeMB lg, fs_MaxBackups = lg_Backups lg, fs_Compress = lg_Compress lg\<rparr> l;
             l = SetEventLog (lg_EventLog lg) l;
             l = write_line LevelInfo ''logging settings applied''
                   [''level'', lg_Level lg, ''maxSizeMB'', Itoa (lg_MaxSizeMB lg), ''backups'', Itoa (lg_Backups lg),
                    ''compress'', bool_text (lg_Compress lg), ''eventLog'', bool_text (lg_EventLog lg)] l
         in (Some lg, l)))"

section \<open>The writer under the lines\<close>

text \<open>
  \<^verbatim>\<open>swapWriter\<close>: the lock makes a write and a swap atomic, the old target's files are closed
  afterwards by whoever swapped. Targets are numbered in the order they were built.
\<close>

record swap_writer =
  sw_target :: "nat option"
  sw_built :: nat
  sw_old :: "nat list"
  sw_closed :: "nat list"
  sw_written :: "(nat \<times> string) list"
  sw_dropped :: nat

definition new_writer :: swap_writer where
  "new_writer = \<lparr>sw_target = None, sw_built = 0, sw_old = [], sw_closed = [], sw_written = [], sw_dropped = 0\<rparr>"

definition sw_Write :: "string \<Rightarrow> swap_writer \<Rightarrow> swap_writer" where
  "sw_Write p s =
     (case sw_target s of
        None \<Rightarrow> s\<lparr>sw_dropped := Suc (sw_dropped s)\<rparr>
      | Some n \<Rightarrow> s\<lparr>sw_written := sw_written s @ [(n, p)]\<rparr>)"

definition sw_swap :: "swap_writer \<Rightarrow> swap_writer" where
  "sw_swap s =
     s\<lparr>sw_target := Some (sw_built s), sw_built := Suc (sw_built s),
       sw_old := (case sw_target s of None \<Rightarrow> sw_old s | Some n \<Rightarrow> sw_old s @ [n])\<rparr>"

datatype writer_act = WriteLine string | SwapTarget | CloseOld nat

inductive writer_step :: "swap_writer \<Rightarrow> writer_act \<Rightarrow> swap_writer \<Rightarrow> bool" where
  step_write: "writer_step s (WriteLine p) (sw_Write p s)"
| step_swap: "writer_step s SwapTarget (sw_swap s)"
| step_close: "n \<in> set (sw_old s) \<Longrightarrow>
    writer_step s (CloseOld n) (s\<lparr>sw_old := remove1 n (sw_old s), sw_closed := sw_closed s @ [n]\<rparr>)"

interpretation log_writer: transition_system "\<lambda>s. s = sw_swap new_writer" writer_step .

section \<open>Lemmas\<close>

text \<open>The logger is as the section says.\<close>

definition reflects :: "(string \<Rightarrow> string \<Rightarrow> string) \<Rightarrow> logging_settings \<Rightarrow> logger \<Rightarrow> bool" where
  "reflects join_path lg l \<longleftrightarrow>
     Level l = lg_Level lg \<and> lo_evEnabled l = lg_EventLog lg \<and>
     lo_settings l = \<lparr>fs_MaxSizeMB = lg_MaxSizeMB lg, fs_MaxBackups = lg_Backups lg, fs_Compress = lg_Compress lg\<rparr> \<and>
     lo_sink l = buildFiles join_path l (lo_settings l)"

lemma write_line_frame [simp]:
  "lo_level (write_line lv m kv l) = lo_level l" "lo_sink (write_line lv m kv l) = lo_sink l"
  "lo_settings (write_line lv m kv l) = lo_settings l" "lo_evEnabled (write_line lv m kv l) = lo_evEnabled l"
  "lo_ev (write_line lv m kv l) = lo_ev l" "lo_closed (write_line lv m kv l) = lo_closed l"
  "lo_exePath (write_line lv m kv l) = lo_exePath l" "lo_logDir (write_line lv m kv l) = lo_logDir l"
  "lo_events (write_line lv m kv l) = lo_events l"
  by (simp_all add: write_line_def)

lemma buildFiles_cong:
  "lo_exePath l = lo_exePath l' \<Longrightarrow> lo_logDir l = lo_logDir l' \<Longrightarrow> buildFiles jp l s = buildFiles jp l' s"
  by (simp add: buildFiles_def)

lemma valid_level:
  assumes "logging_valid lg"
  shows "\<exists>lv. ParseLevel (lg_Level lg) = Some lv \<and> ToLower (level_String lv) = lg_Level lg"
proof -
  have "ParseLevel ''debug'' = Some LevelDebug" "ParseLevel ''info'' = Some LevelInfo" "ParseLevel ''warn'' = Some LevelWarn"
    "ParseLevel ''error'' = Some LevelError" by code_simp+
  moreover have "ToLower (level_String LevelDebug) = ''debug''" "ToLower (level_String LevelInfo) = ''info''"
    "ToLower (level_String LevelWarn) = ''warn''" "ToLower (level_String LevelError) = ''error''" by code_simp+
  ultimately show ?thesis using assms unfolding logging_valid_def by auto
qed

lemma Reconfigure_valid:
  assumes "logging_valid lg" "lo_sink l = buildFiles jp l (lo_settings l)"
    and "s = \<lparr>fs_MaxSizeMB = lg_MaxSizeMB lg, fs_MaxBackups = lg_Backups lg, fs_Compress = lg_Compress lg\<rparr>"
  shows "lo_settings (Reconfigure jp s l) = s" "lo_sink (Reconfigure jp s l) = buildFiles jp (Reconfigure jp s l) s"
    "lo_level (Reconfigure jp s l) = lo_level l" "lo_ev (Reconfigure jp s l) = lo_ev l"
proof -
  have "\<not> fs_MaxSizeMB s < 1" "\<not> fs_MaxBackups s < 0" using assms(1,3) by (simp_all add: logging_valid_def)
  then have R: "Reconfigure jp s l =
      (if s = lo_settings l then l
       else l\<lparr>lo_settings := s, lo_sink := buildFiles jp l s, lo_closed := lo_closed l @ lo_sink l\<rparr>)"
    by (simp add: Reconfigure_def Let_def)
  show "lo_settings (Reconfigure jp s l) = s" "lo_sink (Reconfigure jp s l) = buildFiles jp (Reconfigure jp s l) s"
    "lo_level (Reconfigure jp s l) = lo_level l" "lo_ev (Reconfigure jp s l) = lo_ev l"
    using assms(2) by (simp_all add: R buildFiles_def)
qed

text \<open>The targets in use, replaced and closed are different ones.\<close>

definition writer_ok :: "swap_writer \<Rightarrow> bool" where
  "writer_ok s \<longleftrightarrow>
     (\<exists>n. sw_target s = Some n \<and> n < sw_built s \<and> (\<forall>m \<in> set (sw_old s) \<union> set (sw_closed s). m < n) \<and>
        (\<forall>x \<in> set (sw_written s). fst x \<le> n)) \<and>
     sorted (map fst (sw_written s)) \<and> sw_dropped s = 0"

lemma writer_ok_start: "writer_ok (sw_swap new_writer)"
  by (simp add: writer_ok_def sw_swap_def new_writer_def)

definition line_of :: "writer_act \<Rightarrow> string list" where
  "line_of a = (case a of WriteLine p \<Rightarrow> [p] | _ \<Rightarrow> [])"

lemma writer_step_ok:
  assumes "writer_step s a s'" "writer_ok s"
  shows "writer_ok s' \<and> map snd (sw_written s') = map snd (sw_written s) @ line_of a"
  using assms(1)
proof cases
  case (step_write p)
  then show ?thesis using assms(2) by (auto simp: writer_ok_def sw_Write_def sorted_append line_of_def)
next
  case step_swap
  obtain n where n: "sw_target s = Some n" "n < sw_built s" "\<forall>m \<in> set (sw_old s) \<union> set (sw_closed s). m < n"
      "\<forall>x \<in> set (sw_written s). fst x \<le> n" "sorted (map fst (sw_written s))" "sw_dropped s = 0"
    using assms(2) unfolding writer_ok_def by blast
  then have "\<forall>m \<in> set (sw_old s) \<union> set (sw_closed s) \<union> {n}. m < sw_built s" "\<forall>x \<in> set (sw_written s). fst x \<le> sw_built s"
    by (auto dest: less_trans le_less_trans less_imp_le)
  then show ?thesis using step_swap n by (simp add: writer_ok_def sw_swap_def line_of_def)
next
  case (step_close n)
  then show ?thesis using assms(2) by (auto simp: writer_ok_def line_of_def dest: set_remove1_subset [THEN subsetD])
qed

lemma writer_run_ok:
  assumes "log_writer.run s as s'" "writer_ok s"
  shows "writer_ok s' \<and> map snd (sw_written s') = map snd (sw_written s) @ concat (map line_of as)"
  using assms by (induction rule: log_writer.run.induct) (use writer_step_ok in fastforce)+

section \<open>Properties\<close>

text \<open>
  A logging section that passed validation takes effect in full and at once: the level,
  the size and number of the rolling files and the Event Log mirror are then those of the
  section, the files beside the executable never exceed three backups, applying it again
  changes nothing and reopens nothing; and with the mirror switched off the events of the
  remote configuration (900 to 904) are still written.
\<close>

theorem applyLogging_effective:
  assumes "logging_valid lg" "lo_sink l = buildFiles jp l (lo_settings l)"
    and "\<forall>lg0. applied = Some lg0 \<longrightarrow> reflects jp lg0 l"
    and "applyLogging jp lg (applied, l) = (applied', l')"
  shows "reflects jp lg l' \<and> applied' = Some lg \<and> applyLogging jp lg (applied', l') = (applied', l') \<and>
    (\<forall>r \<in> set (tl (lo_sink l')). rl_MaxBackups r \<le> 3) \<and> lo_ev l' = lo_ev l \<and>
    (\<forall>i msg kv. lo_ev l \<and> (lg_EventLog lg \<or> 900 \<le> i \<and> i \<le> 904) \<longrightarrow>
       lo_events (ErrorEvent i msg kv l') = lo_events l' @ [(EventError, i, format_event msg kv)])"
proof -
  have main: "reflects jp lg l' \<and> applied' = Some lg \<and> lo_ev l' = lo_ev l"
  proof (cases "applied = Some lg")
    case True
    then show ?thesis using assms(3,4) by (simp add: applyLogging_def)
  next
    case False
    obtain lv where lv: "ParseLevel (lg_Level lg) = Some lv" "ToLower (level_String lv) = lg_Level lg"
      using valid_level [OF assms(1)] by blast
    let ?l = "l\<lparr>lo_level := lv\<rparr>"
    have "lo_sink ?l = buildFiles jp ?l (lo_settings ?l)" using assms(2) by (simp add: buildFiles_def)
    from Reconfigure_valid [OF assms(1) this refl] show ?thesis
      using assms(4) False lv
      by (auto simp: applyLogging_def SetLevel_def SetEventLog_def Let_def reflects_def Level_def buildFiles_def)
  qed
  have "rl_MaxBackups r \<le> 3" if "r \<in> set (tl (lo_sink l'))" for r
    using main that by (auto simp: reflects_def buildFiles_def split: if_splits)
  moreover have "lo_events (ErrorEvent i msg kv l') = lo_events l' @ [(EventError, i, format_event msg kv)]"
    if "lo_ev l" "lg_EventLog lg \<or> 900 \<le> i \<and> i \<le> 904" for i msg kv
    using main that by (auto simp: ErrorEvent_def write_event_def mirror_def alwaysMirrored_def reflects_def)
  ultimately show ?thesis using main by (simp add: applyLogging_def)
qed

text \<open>
  Changing the limits of the log loses no line. Whatever the order of writes, swaps and
  closing of old files, every line written is written exactly once and in order, to the
  target in force at that moment, never to one that was closed or replaced before.
\<close>

theorem swapped_log_keeps_lines:
  assumes "log_writer.run (sw_swap new_writer) as s"
  shows "map snd (sw_written s) = concat (map line_of as) \<and>
    sw_dropped s = 0 \<and> sorted (map fst (sw_written s)) \<and>
    (\<exists>n. sw_target s = Some n \<and> n \<notin> set (sw_closed s) \<and> (\<forall>x \<in> set (sw_written s). fst x \<le> n))"
  using writer_run_ok [OF assms writer_ok_start]
  by (fastforce simp: writer_ok_def sw_swap_def new_writer_def)

section \<open>A concrete logger\<close>

definition demo_logger :: logger where
  "demo_logger = New_logger (\<lambda>d n. d @ n) ''logs/'' ''exe.log'' False"

definition demo_logging :: logging_settings where
  "demo_logging = \<lparr>lg_Level = ''warn'', lg_MaxSizeMB = 5, lg_Backups = 9, lg_Compress = True, lg_EventLog = False\<rparr>"

theorem applyLogging_effective_witness:
  "reflects (\<lambda>d n. d @ n) demo_logging (snd (applyLogging (\<lambda>d n. d @ n) demo_logging (None, demo_logger)))"
  using applyLogging_effective [of demo_logging demo_logger "\<lambda>d n. d @ n" None,
      OF _ _ _ prod.collapse [symmetric]]
  by (simp add: logging_valid_def demo_logging_def demo_logger_def New_logger_def Let_def buildFiles_def)

theorem swapped_log_keeps_lines_witness:
  "map snd (sw_written (sw_Write ''b'' (sw_swap (sw_Write ''a'' (sw_swap new_writer))))) = [''a'', ''b'']"
proof -
  let ?as = "[WriteLine ''a'', SwapTarget, WriteLine ''b'']"
  have "log_writer.run (sw_swap new_writer) ?as (sw_Write ''b'' (sw_swap (sw_Write ''a'' (sw_swap new_writer))))"
    by (rule log_writer.run_Cons [OF step_write log_writer.run_Cons [OF step_swap log_writer.run_Cons [OF step_write log_writer.run_Nil]]])
  from swapped_log_keeps_lines [OF this] show ?thesis by (simp add: line_of_def)
qed

end
