(* ===== verification/Service.thy ===== *)
theory Service
  imports Cycle ClientCmd Ipc Presence Logging
begin

text \<open>
  \<^verbatim>\<open>RunLoop\<close> and \<^verbatim>\<open>Execute\<close> (\<^verbatim>\<open>internal/service/service.go\<close>): the service as a whole, round after
  round. A start loads the cached policy, fetches once, decides on the servers and seeds the
  command ring; every round after the first refreshes the policy and decides again; a round
  runs one cycle and waits for the poll timer, a wake or the end. What the goroutine of the
  presence channel does to the shared fields between two accesses of the loop is a list of
  its own operations.
\<close>

section \<open>The state\<close>

record ('b, 'p) updater =
  up_world :: "'b world"
  up_policy :: "'b policy_state"
  up_site :: site_state
  up_commands :: "'p ring"
  up_notify :: notify_state
  up_wakeReason :: string
  up_logging :: "logging_settings option \<times> logger"

text \<open>What is fixed while the service runs.\<close>

record 'b loop_setup =
  ls_service :: "'b service_setup"
  ls_codec :: "'b cache_codec"
  ls_badPath :: string
  ls_machine :: machine
  ls_netString :: "ipnet \<Rightarrow> string"
  ls_consoleDebug :: bool
  ls_joinPath :: "string \<Rightarrow> string \<Rightarrow> string"

definition policy_setup_of :: "'b loop_setup \<Rightarrow> 'b policy_setup" where
  "policy_setup_of u =
     \<lparr>pu_lib = se_lib (ls_service u), pu_cfg = se_cfg (ls_service u),
      pu_defaults = DefaultsFromConfig (se_cfg (ls_service u)) CompiledIPCProtocol (ls_consoleDebug u),
      pu_codec = ls_codec u, pu_cachePath = se_cachePath (ls_service u), pu_badPath = ls_badPath u\<rparr>"

definition fallback_snapshot :: "'b loop_setup \<Rightarrow> snapshot" where
  "fallback_snapshot u =
     \<lparr>sn_Parsed = FromLegacy (ls_netString u) (se_cfg (ls_service u)) (pu_defaults (policy_setup_of u)),
      sn_Source = SourceDefault, sn_FetchedAt = 0, sn_FetchedFrom = [], sn_ETag = []\<rparr>"

section \<open>The steps of a round\<close>

text \<open>\<^verbatim>\<open>refreshConfig\<close> on the files of the machine.\<close>

definition refresh_now :: "'b loop_setup \<Rightarrow> 'b env \<Rightarrow> refresh_env \<Rightarrow> bool \<Rightarrow> ('b, 'p) updater \<Rightarrow> ('b, 'p) updater" where
  "refresh_now u e r force st =
     (let po = refreshConfig (policy_setup_of u) e r force ((up_policy st)\<lparr>po_files := wd_files (up_world st)\<rparr>)
      in st\<lparr>up_policy := po, up_world := (up_world st)\<lparr>wd_files := po_files po\<rparr>\<rparr>)"

text \<open>\<^verbatim>\<open>beginCycle\<close>: the decision becomes the current one, its logging section is applied and a stale
  policy is warned about.\<close>

definition begin_cycle :: "'b loop_setup \<Rightarrow> host_env \<Rightarrow> bool \<Rightarrow> ('b, 'p) updater \<Rightarrow> cycle_state \<times> ('b, 'p) updater" where
  "begin_cycle u e first st =
     (let (cyc, site, _, _) = beginCycle (se_lib (ls_service u)) (ls_machine u) e first (po_Policy (up_policy st)) (up_site st);
          po = snd (warnIfStale (cy_snap cyc) (h_Now (cy_host cyc)) ((up_policy st)\<lparr>po_host := Some (cy_host cyc)\<rparr>))
      in (cyc, st\<lparr>up_site := site, up_policy := po,
                  up_logging := applyLogging (ls_joinPath u) (d_Logging (e_Doc (cy_eff cyc))) (up_logging st)\<rparr>))"

text \<open>What the presence channel does meanwhile: it handles a notify, or a wake that was scheduled fires.\<close>

datatype channel_act = Notified notify_env notify | Fires string

fun channel_acts :: "channel_act list \<Rightarrow> notify_state \<Rightarrow> notify_state option" where
  "channel_acts [] n = Some n"
| "channel_acts (Notified e m # as) n = (case handleNotify e m n of None \<Rightarrow> None | Some n' \<Rightarrow> channel_acts as n')"
| "channel_acts (Fires reason # as) n = channel_acts as (wake_fires reason n)"

datatype waiting = TimerEnds | WakeArrives | ContextEnds

record 'b round_env =
  ro_before :: "channel_act list"
  ro_files :: "'b env"
  ro_refresh :: refresh_env
  ro_host :: host_env
  ro_commands :: "pending_command list \<Rightarrow> pending_command list"
  ro_cycle :: "'b cyc_env"
  ro_during :: "channel_act list"
  ro_wait :: waiting

text \<open>
  The \<^verbatim>\<open>select\<close> at the end of a round: the reason of the next one, or \<open>None\<close> to return. A wake can
  be received only when the channel holds one.
\<close>

definition wait_select :: "waiting \<Rightarrow> notify_state \<Rightarrow> (string \<times> notify_state) option" where
  "wait_select x n =
     (case x of
        ContextEnds \<Rightarrow> None
      | TimerEnds \<Rightarrow> Some ([], n)
      | WakeArrives \<Rightarrow> (case nt_wake n of None \<Rightarrow> Some ([], n) | Some reason \<Rightarrow> Some (reason, n\<lparr>nt_wake := None\<rparr>)))"

text \<open>The part of a round before the cycle; only rounds after the first refresh and decide again.\<close>

definition next_policy ::
  "'b loop_setup \<Rightarrow> 'b round_env \<Rightarrow> ('b, 'p) updater \<Rightarrow> cycle_state \<times> ('b, 'p) updater" where
  "next_policy u r st =
     (let force = nt_forceConfig (up_notify st);
          st = st\<lparr>up_notify := (up_notify st)\<lparr>nt_forceConfig := False\<rparr>\<rparr>
      in begin_cycle u (ro_host r) False (refresh_now u (ro_files r) (ro_refresh r) force st))"

text \<open>A call of \<^verbatim>\<open>Cycle\<close>: its environment, the reason, the decision and the state it met.\<close>

type_synonym 'b cycle_args = "'b cyc_env \<times> string \<times> cycle_state"
type_synonym 'b cycle_call = "'b cycle_args \<times> 'b world"

datatype loop_end = Stopped | Panicked | Looping

definition run_cycle :: "'b loop_setup \<Rightarrow> 'b round_env \<Rightarrow> cycle_state \<Rightarrow> ('b, 'p) updater \<Rightarrow> 'b cycle_call \<times> ('b, 'p) updater" where
  "run_cycle u r cyc st =
     (let w = (up_world st)\<lparr>wd_commands := ro_commands r (wd_commands (up_world st))\<rparr>
      in (((ro_cycle r, up_wakeReason st, cyc), w),
          st\<lparr>up_world := snd (Cycle (ls_service u) (ro_cycle r) (up_wakeReason st) cyc w), up_wakeReason := []\<rparr>))"

text \<open>The loop, with the calls it made. \<open>cyc\<close> is the decision of the start, used by the first round.\<close>

fun rounds ::
  "'b loop_setup \<Rightarrow> cycle_state option \<Rightarrow> 'b round_env list \<Rightarrow> ('b, 'p) updater \<Rightarrow>
   loop_end \<times> 'b cycle_call list \<times> ('b, 'p) updater" where
  "rounds u cyc [] st = (Looping, [], st)"
| "rounds u cyc (r # rs) st =
     (case channel_acts (ro_before r) (up_notify st) of
        None \<Rightarrow> (Panicked, [], st)
      | Some n \<Rightarrow>
          (let st = st\<lparr>up_notify := n\<rparr>;
               (c, st) = (case cyc of Some c \<Rightarrow> (c, st) | None \<Rightarrow> next_policy u r st);
               (call, st) = run_cycle u r c st
           in case channel_acts (ro_during r) (up_notify st) of
                None \<Rightarrow> (Panicked, [call], st)
              | Some n \<Rightarrow>
                  (case wait_select (ro_wait r) n of
                     None \<Rightarrow> (Stopped, [call], st\<lparr>up_notify := n\<rparr>)
                   | Some (reason, n) \<Rightarrow>
                       (let (fin, calls, st) = rounds u None rs (st\<lparr>up_notify := n, up_wakeReason := reason\<rparr>)
                        in (fin, call # calls, st)))))"

section \<open>Starting\<close>

record 'b start_env =
  so_files :: "'b env"
  so_refresh :: refresh_env
  so_host :: host_env
  so_state_ok :: bool
  so_log :: logger

text \<open>\<^verbatim>\<open>New\<close>: the fields a fresh \<^verbatim>\<open>Updater\<close> has, over the machine as it is; the policy is set by \<^verbatim>\<open>initPolicy\<close>.\<close>

definition init_policy :: "'b loop_setup \<Rightarrow> 'b env \<Rightarrow> logger \<Rightarrow> 'b world \<Rightarrow> ('b, 'p) updater" where
  "init_policy u e log w =
     (let (snap, f) = initPolicy (policy_setup_of u) e (fallback_snapshot u) (wd_files w)
      in \<lparr>up_world = w\<lparr>wd_files := f\<rparr>,
          up_policy = \<lparr>po_Policy = snap, po_host = None, po_lastConfigAttempt = 0, po_configUnreachable = False,
                       po_lastStaleWarn = 0, po_paused = False, po_files = f\<rparr>,
          up_site = \<lparr>ss_dc = None, ss_dcAt = 0, ss_ips = [], ss_lastKey = [], ss_dcFailedLogged = False\<rparr>,
          up_commands = empty_ring,
          up_notify = \<lparr>nt_forceConfig = False, nt_last = 0, nt_scheduled = [], nt_wake = None\<rparr>,
          up_wakeReason = [], up_logging = (None, log)\<rparr>)"

definition start :: "'b loop_setup \<Rightarrow> 'b start_env \<Rightarrow> 'b world \<Rightarrow> cycle_state \<times> ('b, 'p) updater" where
  "start u s w =
     (let (cyc, st) = begin_cycle u (so_host s) True (refresh_now u (so_files s) (so_refresh s) True (init_policy u (so_files s) (so_log s) w))
      in (cyc, if so_state_ok s then st\<lparr>up_commands := seedCommandRing (wd_commands (up_world st)) (up_commands st)\<rparr> else st))"

definition RunLoop ::
  "'b loop_setup \<Rightarrow> 'b start_env \<Rightarrow> 'b round_env list \<Rightarrow> 'b world \<Rightarrow> loop_end \<times> 'b cycle_call list \<times> ('b, 'p) updater" where
  "RunLoop u s rs w = (let (cyc, st) = start u s w in rounds u (Some cyc) rs st)"

section \<open>The service control manager\<close>

datatype scm_status = StartPending | Running | StopPending | OtherStatus nat

text \<open>A request, as \<^verbatim>\<open>Execute\<close> receives it: the status it carries, the event of a session change.\<close>

datatype scm_request = Interrogate scm_status | SessionChange "32 word" "32 word option" time | Stop | Shutdown | OtherRequest

record execution =
  ex_statuses :: "scm_status list"
  ex_queued :: "session_change list"
  ex_cancelled :: bool
  ex_warned :: bool
  ex_returned :: "(bool \<times> nat) option"

text \<open>
  The loop over the requests; \<open>in_time\<close> tells whether the goroutines are done within 30 seconds
  of the cancellation. Without a stop it has not returned.
\<close>

fun execute_loop :: "bool \<Rightarrow> scm_request list \<Rightarrow> execution \<Rightarrow> execution" where
  "execute_loop in_time [] x = x"
| "execute_loop in_time (Interrogate s # cs) x = execute_loop in_time cs (x\<lparr>ex_statuses := ex_statuses x @ [s]\<rparr>)"
| "execute_loop in_time (SessionChange t d now # cs) x =
     (case ParseSessionChange t d now of
        None \<Rightarrow> execute_loop in_time cs x
      | Some c \<Rightarrow> execute_loop in_time cs (x\<lparr>ex_queued := ex_queued x @ [c]\<rparr>))"
| "execute_loop in_time (OtherRequest # cs) x = execute_loop in_time cs x"
| "execute_loop in_time (c # cs) x =
     x\<lparr>ex_statuses := ex_statuses x @ [StopPending], ex_cancelled := True, ex_warned := \<not> in_time,
       ex_returned := Some (False, 0)\<rparr>"

definition Execute :: "bool \<Rightarrow> scm_request list \<Rightarrow> execution" where
  "Execute in_time cs =
     execute_loop in_time cs
       \<lparr>ex_statuses = [StartPending, Running], ex_queued = [], ex_cancelled = False, ex_warned = False, ex_returned = None\<rparr>"

section \<open>Many cycles\<close>

text \<open>
  What the loop relies on: a cycle keeps the bookkeeping in order, adds to what was done to
  the machine only what fits the releases it knows, and leaves as pending only what was
  pending or what a manifest of this cycle offered. Between two cycles other code runs
  that touches neither.
\<close>

locale update_cycle =
  fixes step :: "'c \<Rightarrow> 'w \<Rightarrow> 'w"
    and ok :: "'w \<Rightarrow> bool"
    and pend :: "'w \<Rightarrow> 'r option"
    and did :: "'w \<Rightarrow> 'd list"
    and apart_from :: "'w \<Rightarrow> 'w \<Rightarrow> bool"
    and offers :: "'c \<Rightarrow> 'w \<Rightarrow> 'r \<Rightarrow> bool"
    and fits :: "('r \<Rightarrow> bool) \<Rightarrow> 'c \<Rightarrow> 'w \<Rightarrow> 'd list \<Rightarrow> bool"
  assumes step_ok: "ok w \<Longrightarrow> ok (step c w)"
    and step_did: "ok w \<Longrightarrow>
      \<exists>ds. did (step c w) = did w @ ds \<and> fits (\<lambda>r. pend w = Some r \<or> offers c w r) c w ds"
    and step_pend: "pend (step c w) = Some r \<Longrightarrow> pend w = Some r \<or> offers c w r"
    and fits_mono: "fits K c w ds \<Longrightarrow> (\<And>r. K r \<Longrightarrow> K' r) \<Longrightarrow> fits K' c w ds"
    and between: "apart_from w w' \<Longrightarrow> pend w' = pend w \<and> did w' = did w \<and> (ok w \<longrightarrow> ok w')"
begin

inductive history :: "'w \<Rightarrow> ('c \<times> 'w) list \<Rightarrow> 'w \<Rightarrow> bool" for w0 where
  history_start: "history w0 [] w0"
| history_between: "history w0 cs w \<Longrightarrow> apart_from w w' \<Longrightarrow> history w0 cs w'"
| history_cycle: "history w0 cs w \<Longrightarrow> history w0 (cs @ [(c, w)]) (step c w)"

definition offered :: "'w \<Rightarrow> ('c \<times> 'w) list \<Rightarrow> 'r \<Rightarrow> bool" where
  "offered w0 cs r \<longleftrightarrow> pend w0 = Some r \<or> (\<exists>(c, w) \<in> set cs. offers c w r)"

lemma history_fits:
  assumes "history w0 cs w" "ok w0"
  shows "ok w \<and> (\<forall>r. pend w = Some r \<longrightarrow> offered w0 cs r) \<and>
    (\<exists>dss. did w = did w0 @ concat dss \<and> list_all2 (\<lambda>(c, v) ds. fits (offered w0 cs) c v ds) cs dss)"
  using assms(1)
proof induction
  case history_start
  then show ?case using assms(2) by (auto simp: offered_def)
next
  case (history_between cs w w')
  then show ?case using between by metis
next
  case (history_cycle cs w c)
  let ?cs = "cs @ [(c, w)]"
  have mono: "offered w0 cs r \<Longrightarrow> offered w0 ?cs r" for r by (auto simp: offered_def)
  obtain dss where dss: "did w = did w0 @ concat dss" "list_all2 (\<lambda>(c, v) ds. fits (offered w0 cs) c v ds) cs dss"
    and w: "ok w" "\<forall>r. pend w = Some r \<longrightarrow> offered w0 cs r" using history_cycle.IH by blast
  obtain ds where ds: "did (step c w) = did w @ ds" "fits (\<lambda>r. pend w = Some r \<or> offers c w r) c w ds"
    using step_did [OF w(1)] by blast
  have new: "pend w = Some r \<or> offers c w r \<Longrightarrow> offered w0 ?cs r" for r
    using w(2) mono by (auto simp: offered_def)
  have "list_all2 (\<lambda>(c, v) ds. fits (offered w0 ?cs) c v ds) cs dss"
    by (rule list_all2_mono [OF dss(2)]) (auto intro: fits_mono mono)
  moreover have "fits (offered w0 ?cs) c w ds" by (rule fits_mono [OF ds(2) new])
  ultimately have "list_all2 (\<lambda>(c, v) ds. fits (offered w0 ?cs) c v ds) ?cs (dss @ [ds])"
    by (intro list_all2_appendI) auto
  then show ?case using step_ok [OF w(1)] step_pend new ds(1) dss(1)
    by (intro conjI exI [of _ "dss @ [ds]"]) auto
qed

end

subsection \<open>The cycle of the updater\<close>

definition pending_release :: "'b world \<Rightarrow> (string \<times> string) option" where
  "pending_release w = map_option (\<lambda>p. (pn_Version p, pn_SHA256 p)) (wd_pending w)"

definition cycle_step :: "'b service_setup \<Rightarrow> 'b cycle_args \<Rightarrow> 'b world \<Rightarrow> 'b world" where
  "cycle_step u c w = (case c of (e, wake, cyc) \<Rightarrow> snd (Cycle u e wake cyc w))"

definition cycle_ok :: "'b service_setup \<Rightarrow> 'b world \<Rightarrow> bool" where
  "cycle_ok u w \<longleftrightarrow> pending_wf u w \<and> (\<forall>v. apart u (SetupPath (se_selfDownloads u) v))"

definition cycle_apart :: "'b world \<Rightarrow> 'b world \<Rightarrow> bool" where
  "cycle_apart w w' \<longleftrightarrow> wd_pending w' = wd_pending w \<and> wd_did w' = wd_did w"

text \<open>A manifest that this call resolved, for the channel of the EMLy it found, names the release.\<close>

definition cycle_offers :: "'b service_setup \<Rightarrow> 'b cycle_args \<Rightarrow> 'b world \<Rightarrow> string \<times> string \<Rightarrow> bool" where
  "cycle_offers u c w r =
     (case c of (e, wake, cyc) \<Rightarrow> manifest_known u e cyc (ei_Channel (emly_now cyc w)) (fst r) (snd r))"

text \<open>What one call may do to the machine, given the releases \<open>K\<close>.\<close>

definition deeds_fit :: "'b service_setup \<Rightarrow> (string \<times> string \<Rightarrow> bool) \<Rightarrow> 'b cycle_args \<Rightarrow> 'b world \<Rightarrow> 'b deed list \<Rightarrow> bool" where
  "deeds_fit u K c w ds =
     (case c of (e, wake, cyc) \<Rightarrow>
       (\<forall>v b. RanSetup v b \<in> set ds \<longrightarrow> (\<exists>x. x \<noteq> [] \<and> EqualFold (se_sha u b) x \<and> K (v, x))) \<and>
       (KilledEMLy \<in> set ds \<longrightarrow>
          hd ds = KilledEMLy \<and> KilledEMLy \<notin> set (tl ds) \<and> cycle_kills u e cyc (emly_now cyc w) (wd_pending w)) \<and>
       (\<forall>v b. LaunchedSelf v b \<in> set ds \<longrightarrow>
          ds = [LaunchedSelf v b] \<and> xe_signed e b \<and> Less (se_lib u) (se_version u) v = Inr True) \<and>
       length (setups ds) \<le> 2 \<and>
       (ds \<noteq> [] \<longrightarrow> enabled_now u cyc \<and> gate_open e PCycle (wd_gate w)))"

definition pending_in :: "(string \<times> string \<Rightarrow> bool) \<Rightarrow> 'b world \<Rightarrow> bool" where
  "pending_in K w \<longleftrightarrow> (\<forall>r. pending_release w = Some r \<longrightarrow> K r)"

lemma pending_in_cong: "wd_pending w' = wd_pending w \<Longrightarrow> pending_in K w \<Longrightarrow> pending_in K w'"
  by (simp add: pending_in_def pending_release_def)

lemma pending_in_cases: "wd_pending w' \<in> {None, wd_pending w} \<Longrightarrow> pending_in K w \<Longrightarrow> pending_in K w'"
  by (auto simp: pending_in_def pending_release_def)

lemma pending_in_ops [inv_intros]:
  "pending_in K w \<Longrightarrow> pending_in K (snd (check_gate e pt w))"
  "pending_in K w \<Longrightarrow> pending_in K (snd (begin_install e pt w))"
  "pending_in K w \<Longrightarrow> pending_in K (end_install w)"
  "pending_in K w \<Longrightarrow> pending_in K (announce h w)"
  "pending_in K w \<Longrightarrow> pending_in K (cleanup x m k w)"
  "pending_in K w \<Longrightarrow> pending_in K (clear_pending e op w)"
  "pending_in K w \<Longrightarrow> K (pn_Version p, pn_SHA256 p) \<Longrightarrow> pending_in K (set_pending e op p w)"
  "pending_in K w \<Longrightarrow> pending_in K (doing d w)"
  "pending_in K w \<Longrightarrow> pending_in K (w\<lparr>wd_files := f\<rparr>)"
  "pending_in K w \<Longrightarrow> pending_in K (w\<lparr>wd_pref := pref\<rparr>)"
  "pending_in K w \<Longrightarrow> pending_in K (w\<lparr>wd_notified := n\<rparr>)"
  "pending_in K w \<Longrightarrow> pending_in K (w\<lparr>wd_trigger := t\<rparr>)"
  by (auto simp: pending_in_def pending_release_def frame_simps clear_pending_def set_pending_def)

lemma installed_pending_in: "pending_in K w \<Longrightarrow> pending_in K (installed u e from p b w)"
  by (rule pending_in_cases) (simp_all add: frame_simps)

lemma setup_pending_in: "pending_in K w \<Longrightarrow> runSetupAndVerify u e n p w = (err, w') \<Longrightarrow> pending_in K w'"
  using runSetupAndVerify_frame(3) by (metis pending_in_cong)

lemma redownload_pending_in:
  assumes "forceRedownload u e cyc p channel w = (r, w')" "pending_in K w"
    and "\<And>v x. published u (xe_refetch e) cyc channel v x \<Longrightarrow> K (v, x)"
  shows "pending_in K w'"
proof (cases r)
  case (Inl err)
  then show ?thesis using forceRedownload_failed(2) [of u e cyc p channel w err w'] assms(1,2) by (metis pending_in_cases)
next
  case (Inr fresh)
  note F = forceRedownload_fresh [of u e cyc p channel w fresh w', OF assms(1) [unfolded Inr]]
  show ?thesis
    using F(4) assms(2) assms(3) [OF F(3)] by (auto simp: pending_in_def pending_release_def)
qed

lemma clean_install_pending_in:
  assumes "clean_install u e cyc p channel from w = (err, w')" "pending_in K w"
    and "\<And>v x. published u (xe_refetch e) cyc channel v x \<Longrightarrow> K (v, x)"
  shows "pending_in K w'"
proof -
  obtain r w1 where r: "forceRedownload u e cyc p channel w = (r, w1)" by (cases "forceRedownload u e cyc p channel w")
  let ?p = "case r of Inr fresh \<Rightarrow> fresh | Inl _ \<Rightarrow> p"
  obtain er w2 where s: "runSetupAndVerify u e 2 ?p (uninstall e w1) = (er, w2)"
    by (cases "runSetupAndVerify u e 2 ?p (uninstall e w1)")
  have "pending_in K (uninstall e w1)"
    by (rule pending_in_cong [OF uninstall_frame(3) redownload_pending_in [OF r assms(2,3)]])
  then have "pending_in K w2" by (rule setup_pending_in [OF _ s])
  then show ?thesis
    using assms(1) r s by (cases er) (auto simp: clean_install_def Let_def intro: installed_pending_in inv_intros)
qed

lemma install_pending_in:
  assumes "install u e cyc p emly w = (err, w')" "pending_in K w"
    and "\<And>v x. published u (xe_refetch e) cyc (ei_Channel emly) v x \<Longrightarrow> K (v, x)"
  shows "pending_in K w'"
proof -
  obtain granted w1 where g: "begin_install e PInstall w = (granted, w1)" by (cases "begin_install e PInstall w")
  then have w1: "pending_in K w1" using pending_in_ops(2) [OF assms(2), of e PInstall] by simp
  obtain er w2 where b: "install_body u e cyc p emly w1 = (er, w2)" by (cases "install_body u e cyc p emly w1")
  obtain r w3 where s: "runSetupAndVerify u e 1 p (started (from_version emly) p w1) = (r, w3)"
    by (cases "runSetupAndVerify u e 1 p (started (from_version emly) p w1)")
  have w3: "pending_in K w3"
    by (rule setup_pending_in [OF pending_in_cong [OF started_frame(3) w1] s])
  have "pending_in K w2"
  proof (cases "VerifyFile (se_sha u) (xe_rd e) (wd_files w1) (pn_SetupPath p) (pn_SHA256 p)")
    case None
    then show ?thesis
      using b s w3 clean_install_pending_in [OF _ w3 assms(3)]
      by (cases r) (auto simp: install_body_def intro: installed_pending_in)
  next
    case (Some er)
    then show ?thesis using b w1 by (auto simp: install_body_def intro!: inv_intros)
  qed
  then show ?thesis using assms(1) g b w1 by (auto simp: install_def intro: inv_intros split: if_splits)
qed

lemma apply_pending_in:
  assumes "apply_update u e cyc p emly w = (err, w')" "pending_in K w"
    and "\<And>v x. published u (xe_refetch e) cyc (ei_Channel emly) v x \<Longrightarrow> K (v, x)"
  shows "pending_in K w'"
proof -
  obtain g1 w1 where c1: "check_gate e PApply w = (g1, w1)" by (cases "check_gate e PApply w")
  obtain g2 w2 where c2: "check_gate e PKill w1 = (g2, w2)" by (cases "check_gate e PKill w1")
  have w1: "pending_in K w1" using pending_in_ops(1) [OF assms(2), of e PApply] c1 by simp
  have w2: "pending_in K w2" using pending_in_ops(1) [OF w1, of e PKill] c2 by simp
  note inst = install_pending_in [OF _ w1 assms(3)] install_pending_in [OF _ pending_in_ops(8) [OF w2] assms(3)]
  show ?thesis
    using assms(1) unfolding apply_update_def c1 prod.case
    using inst w1 w2 c2 by (auto split: if_splits)
qed

lemma poll_pending_in:
  assumes "poll u e cyc emly w = (err, w')" "pending_in K w"
    and K: "\<And>v x. manifest_known u e cyc (ei_Channel emly) v x \<Longrightarrow> K (v, x)"
  shows "pending_in K w'"
proof -
  let ?R = "resolveTargetWith (se_lib u) (xe_fetch e) cyc (ei_Channel emly) True (wd_pref w)"
  obtain res pref where r: "?R = (res, pref)" by (cases ?R)
  have re: "published u (xe_refetch e) cyc (ei_Channel emly) v x \<Longrightarrow> K (v, x)" for v x
    using K by (simp add: manifest_known_def)
  show ?thesis
  proof (cases res)
    case (Inl er)
    then show ?thesis
      using assms(1,2) r by (auto simp: poll_def Let_def notifySourcesUnreachable_def intro: inv_intros split: if_splits)
  next
    case (Inr y)
    obtain src m t where y: "y = (src, m, t)" by (cases y)
    have "published u (xe_fetch e) cyc (ei_Channel emly) (t_Version t) (t_SHA256 t)"
      unfolding published_def using r Inr y by (metis fst_conv)
    then have t: "K (t_Version t, t_SHA256 t)" using K by (simp add: manifest_known_def)
    have app: "pending_in K w'" if "apply_update u e cyc p emly w1 = (err, w')" "pending_in K w1" for p w1
      using apply_pending_in [of u e cyc p emly w1 err w' K] that re by blast
    show ?thesis
      using assms(1) r Inr y t
      by (auto simp: poll_def Let_def split: sum.splits if_splits prod.splits
          intro!: inv_intros assms(2) elim!: app)
  qed
qed

lemma resume_pending_in:
  assumes "resume u e cyc emly w = (err, w')" "pending_in K w"
    and K: "\<And>v x. manifest_known u e cyc (ei_Channel emly) v x \<Longrightarrow> K (v, x)"
  shows "pending_in K w'"
proof -
  have re: "published u (xe_refetch e) cyc (ei_Channel emly) v x \<Longrightarrow> K (v, x)" for v x
    using K by (simp add: manifest_known_def)
  have app: "pending_in K w'" if "apply_update u e cyc p emly w1 = (err, w')" "pending_in K w1" for p w1
    using apply_pending_in [of u e cyc p emly w1 err w' K] that re by blast
  have pol: "pending_in K w'" if "poll u e cyc emly w1 = (err, w')" "pending_in K w1" for w1
    using poll_pending_in [of u e cyc emly w1 err w' K] that K by blast
  show ?thesis
    using assms(1,2)
    by (auto simp: resume_def split: option.splits sum.splits if_splits intro!: inv_intros elim!: app pol)
qed

lemma Cycle_pending_in:
  assumes "Cycle u e wake cyc w = (err, w')" "pending_in K w"
    and "\<And>v x. manifest_known u e cyc (ei_Channel (emly_now cyc w)) v x \<Longrightarrow> K (v, x)"
  shows "pending_in K w'"
  using assms(1)
proof (cases rule: Cycle_cases)
  case skipped
  then show ?thesis using assms(2) by (auto simp: untouched_def intro: pending_in_cong)
next
  case (self w1)
  then show ?thesis
    using assms(2) selfUpdate_frame(1) [of u e cyc w1] by (auto simp: untouched_def intro: pending_in_cong)
next
  case (emly w1 w2)
  have "wd_pending w2 = wd_pending w" using selfUpdate_frame(1) [of u e cyc w1] emly(3,4) by (simp add: untouched_def)
  then have "pending_in K w2" by (rule pending_in_cong [OF _ assms(2)])
  then show ?thesis using resume_pending_in [of u e cyc "emly_now cyc w" w2 err w' K] emly(5) assms(3) by blast
qed

lemma cycle_step_pending:
  assumes "pending_release (cycle_step u c w) = Some r"
  shows "pending_release w = Some r \<or> cycle_offers u c w r"
proof -
  obtain e wake cyc where c: "c = (e, wake, cyc)" by (cases c)
  have "pending_in (\<lambda>r. pending_release w = Some r \<or> cycle_offers u c w r) (snd (Cycle u e wake cyc w))"
    by (rule Cycle_pending_in [OF prod.collapse [symmetric]]) (auto simp: pending_in_def cycle_offers_def c)
  then show ?thesis using assms by (cases r) (simp add: pending_in_def cycle_step_def c)
qed

lemma cycle_step_did:
  assumes "cycle_ok u w"
  shows "cycle_ok u (cycle_step u c w) \<and>
    (\<exists>ds. wd_did (cycle_step u c w) = wd_did w @ ds \<and>
       deeds_fit u (\<lambda>r. pending_release w = Some r \<or> cycle_offers u c w r) c w ds)"
proof -
  obtain e wake cyc where c: "c = (e, wake, cyc)" by (cases c)
  let ?ch = "ei_Channel (emly_now cyc w)"
  have K: "cycle_known u e cyc ?ch (wd_pending w) v x \<Longrightarrow>
      pending_release w = Some (v, x) \<or> cycle_offers u c w (v, x)" for v x
    by (auto simp: cycle_known_def pending_release_def cycle_offers_def c)
  have wf: "pending_wf u w" "\<forall>v. apart u (SetupPath (se_selfDownloads u) v)" using assms by (simp_all add: cycle_ok_def)
  note T = Cycle_runs_verified [OF prod.collapse [symmetric] wf, of e wake cyc]
  then obtain ds where "wd_did (snd (Cycle u e wake cyc w)) = wd_did w @ ds"
      "\<forall>v b. RanSetup v b \<in> set ds \<longrightarrow> (\<exists>x. x \<noteq> [] \<and> EqualFold (se_sha u b) x \<and> cycle_known u e cyc ?ch (wd_pending w) v x)"
      "KilledEMLy \<in> set ds \<longrightarrow>
         hd ds = KilledEMLy \<and> KilledEMLy \<notin> set (tl ds) \<and> cycle_kills u e cyc (emly_now cyc w) (wd_pending w)"
      "\<forall>v b. LaunchedSelf v b \<in> set ds \<longrightarrow> ds = [LaunchedSelf v b] \<and> xe_signed e b \<and> Less (se_lib u) (se_version u) v = Inr True"
      "length (setups ds) \<le> 2" "ds \<noteq> [] \<longrightarrow> enabled_now u cyc \<and> gate_open e PCycle (wd_gate w)" by blast
  then have "deeds_fit u (\<lambda>r. pending_release w = Some r \<or> cycle_offers u c w r) c w ds"
    unfolding deeds_fit_def c prod.case using K [unfolded c] by blast
  then show ?thesis
    using T wf(2) \<open>wd_did _ = wd_did w @ ds\<close> by (auto simp: cycle_step_def cycle_ok_def c)
qed

lemma deeds_fit_mono:
  assumes "deeds_fit u K c w ds" "\<And>r. K r \<Longrightarrow> K' r"
  shows "deeds_fit u K' c w ds"
proof -
  obtain e wake cyc where c: "c = (e, wake, cyc)" by (cases c)
  have "\<exists>x. x \<noteq> [] \<and> EqualFold (se_sha u b) x \<and> K' (v, x)" if "RanSetup v b \<in> set ds" for v b
    using assms that unfolding deeds_fit_def c prod.case by blast
  then show ?thesis using assms(1) unfolding deeds_fit_def c prod.case by blast
qed

interpretation uc: update_cycle "cycle_step u" "cycle_ok u" pending_release wd_did cycle_apart "cycle_offers u" "deeds_fit u"
  for u :: "'b service_setup"
proof unfold_locales
  fix w :: "'b world" and c
  show "cycle_ok u w \<Longrightarrow> cycle_ok u (cycle_step u c w)"
    and "cycle_ok u w \<Longrightarrow> \<exists>ds. wd_did (cycle_step u c w) = wd_did w @ ds \<and>
      deeds_fit u (\<lambda>r. pending_release w = Some r \<or> cycle_offers u c w r) c w ds"
    using cycle_step_did by blast+
  show "pending_release (cycle_step u c w) = Some r \<Longrightarrow> pending_release w = Some r \<or> cycle_offers u c w r" for r
    by (rule cycle_step_pending)
  show "deeds_fit u K c w ds \<Longrightarrow> (\<And>r. K r \<Longrightarrow> K' r) \<Longrightarrow> deeds_fit u K' c w ds" for K K' ds
    by (rule deeds_fit_mono)
  show "cycle_apart w w' \<Longrightarrow> pending_release w' = pending_release w \<and> wd_did w' = wd_did w \<and> (cycle_ok u w \<longrightarrow> cycle_ok u w')" for w'
    by (auto simp: cycle_apart_def pending_release_def cycle_ok_def pending_wf_def)
qed

section \<open>The rounds as a history of cycles\<close>

lemma refresh_world: "cycle_apart (up_world st) (up_world (refresh_now u e r force st))"
  by (simp add: refresh_now_def Let_def cycle_apart_def)

lemma begin_cycle_world [simp]: "up_world (snd (begin_cycle u e first st)) = up_world st"
  by (simp add: begin_cycle_def Let_def case_prod_unfold)

lemma next_policy_world: "cycle_apart (up_world st) (up_world (snd (next_policy u r st)))"
  using refresh_world [of "st\<lparr>up_notify := (up_notify st)\<lparr>nt_forceConfig := False\<rparr>\<rparr>"]
  by (simp add: next_policy_def Let_def)

lemma run_cycle_history:
  assumes "run_cycle u r c st = (call, st')" "uc.history (ls_service u) w0 cs (up_world st)"
  shows "uc.history (ls_service u) w0 (cs @ [call]) (up_world st')"
proof -
  let ?w = "(up_world st)\<lparr>wd_commands := ro_commands r (wd_commands (up_world st))\<rparr>"
  have "uc.history (ls_service u) w0 cs ?w"
    by (rule uc.history_between [OF assms(2)]) (simp add: cycle_apart_def)
  from uc.history_cycle [OF this, of "(ro_cycle r, up_wakeReason st, c)"] show ?thesis
    using assms(1) by (auto simp: run_cycle_def Let_def cycle_step_def)
qed

text \<open>One round: the decision it used, the call it made and the state it went on with.\<close>

lemma rounds_Cons:
  assumes "rounds u cyc (r # rs) st = (fin, calls, st')"
  obtains (panic) "calls = []" "st' = st" "fin = Panicked"
  | (cycle) n c st1 call st2 rest fin' st3 where "channel_acts (ro_before r) (up_notify st) = Some n"
      "(case cyc of Some c \<Rightarrow> (c, st\<lparr>up_notify := n\<rparr>) | None \<Rightarrow> next_policy u r (st\<lparr>up_notify := n\<rparr>)) = (c, st1)"
      "run_cycle u r c st1 = (call, st2)" "calls = call # rest"
      "up_world st3 = up_world st2" "up_policy st3 = up_policy st2" "up_site st3 = up_site st2"
      "up_logging st3 = up_logging st2"
      "rest = [] \<and> st' = st3 \<or> rounds u None rs st3 = (fin', rest, st')"
proof (cases "channel_acts (ro_before r) (up_notify st)")
  case None
  then show ?thesis using assms panic by simp
next
  case (Some n)
  obtain c st1 where c: "(case cyc of Some c \<Rightarrow> (c, st\<lparr>up_notify := n\<rparr>) | None \<Rightarrow> next_policy u r (st\<lparr>up_notify := n\<rparr>)) = (c, st1)"
    by fastforce
  obtain call st2 where r: "run_cycle u r c st1 = (call, st2)" by (cases "run_cycle u r c st1")
  note now = cycle [OF Some c r]
  show ?thesis
  proof (cases "channel_acts (ro_during r) (up_notify st2)")
    case None
    then show ?thesis using assms Some c r now [of "[]" st2] by auto
  next
    case during: (Some n2)
    show ?thesis
    proof (cases "wait_select (ro_wait r) n2")
      case None
      then show ?thesis using assms Some c r during now [of "[]" "st2\<lparr>up_notify := n2\<rparr>"] by auto
    next
      case (Some x)
      obtain reason n3 where x: "x = (reason, n3)" by (cases x)
      let ?st = "st2\<lparr>up_notify := n3, up_wakeReason := reason\<rparr>"
      obtain f2 cs2 st4 where rec: "rounds u None rs ?st = (f2, cs2, st4)" by (metis prod_cases3)
      then show ?thesis
        using assms \<open>channel_acts (ro_before r) (up_notify st) = Some n\<close> c r during Some x now [of cs2 ?st f2] by auto
    qed
  qed
qed

lemma rounds_history:
  assumes "rounds u cyc rs st = (fin, calls, st')" "uc.history (ls_service u) w0 cs (up_world st)"
  shows "uc.history (ls_service u) w0 (cs @ calls) (up_world st') \<and> length calls \<le> length rs"
  using assms
proof (induction rs arbitrary: cyc st fin calls cs)
  case (Cons r rs)
  from Cons.prems(1) show ?case
  proof (cases rule: rounds_Cons)
    case panic
    then show ?thesis using Cons.prems(2) by simp
  next
    case (cycle n c st1 call st2 rest fin' st3)
    have "uc.history (ls_service u) w0 cs (up_world st1)"
    proof (cases cyc)
      case None
      then have "cycle_apart (up_world st) (up_world st1)"
        using cycle(2) next_policy_world [of "st\<lparr>up_notify := n\<rparr>" u r] by simp
      then show ?thesis by (rule uc.history_between [OF Cons.prems(2)])
    next
      case (Some c')
      then show ?thesis using Cons.prems(2) cycle(2) by auto
    qed
    then have h: "uc.history (ls_service u) w0 (cs @ [call]) (up_world st3)"
      using run_cycle_history [OF cycle(3)] cycle(5) by simp
    from cycle(9) show ?thesis
    proof
      assume "rest = [] \<and> st' = st3"
      then show ?thesis using h cycle(4) by simp
    next
      assume "rounds u None rs st3 = (fin', rest, st')"
      from Cons.IH [OF this h] show ?thesis using cycle(4) by simp
    qed
  qed
qed simp

section \<open>The policy of the rounds\<close>

definition call_cycle :: "'b cycle_call \<Rightarrow> cycle_state" where
  "call_cycle call = snd (snd (fst call))"

text \<open>The default policy, or a document that passed validation in full.\<close>

definition validated :: "'b loop_setup \<Rightarrow> snapshot \<Rightarrow> bool" where
  "validated u snap \<longleftrightarrow>
     sn_Parsed snap = sn_Parsed (fallback_snapshot u) \<or>
     (\<exists>body. length body \<le> MaxDocumentSize \<and>
        Parse_policy (se_lib (ls_service u)) body (pu_defaults (policy_setup_of u)) = Inr (sn_Parsed snap))"

text \<open>The decision follows from the policy and the facts of the host.\<close>

definition decided :: "'b loop_setup \<Rightarrow> cycle_state \<Rightarrow> bool" where
  "decided u cyc \<longleftrightarrow>
     cy_eff cyc = fst (Effective (se_lib (ls_service u)) (sn_Parsed (cy_snap cyc)) (cy_host cyc)) \<and>
     (cy_site cyc, cy_chain cyc) = Chain (se_lib (ls_service u)) (cy_eff cyc) (cy_host cyc)"

definition succeeds :: "snapshot \<Rightarrow> snapshot \<Rightarrow> bool" where
  "succeeds s s' \<longleftrightarrow> (sn_Source s \<noteq> SourceDefault \<longrightarrow> sn_Source s' \<noteq> SourceDefault \<and> Revision s \<le> Revision s')"

lemma succeeds_trans: "succeeds s t \<Longrightarrow> succeeds t r \<Longrightarrow> succeeds s r"
  by (auto simp: succeeds_def)

lemma policy_step_succeeds:
  assumes "policy_step (policy_setup_of u) s s'"
  shows "succeeds s s'" "validated u s \<Longrightarrow> validated u s'"
  using assms by (auto simp: policy_step_def succeeds_def validated_def policy_setup_of_def Revision_def)

lemma begin_cycle_decided:
  assumes "begin_cycle u e first st = (cyc, st')"
  shows "cy_snap cyc = po_Policy (up_policy st)" "po_Policy (up_policy st') = po_Policy (up_policy st)" "decided u cyc"
    "up_notify st' = up_notify st" "po_lastConfigAttempt (up_policy st') = po_lastConfigAttempt (up_policy st)"
  using assms
  by (auto simp: begin_cycle_def beginCycle_def decided_def warnIfStale_def Let_def case_prod_unfold)

lemma refresh_policy:
  "policy_step (policy_setup_of u) (po_Policy (up_policy st)) (po_Policy (up_policy (refresh_now u e r force st)))"
  using refreshConfig_step [of "policy_setup_of u" "(up_policy st)\<lparr>po_files := wd_files (up_world st)\<rparr>" e r force]
  by (simp add: refresh_now_def Let_def)

lemma next_policy_decided:
  assumes "next_policy u r st = (cyc, st')"
  shows "cy_snap cyc = po_Policy (up_policy st')" "decided u cyc"
    "policy_step (policy_setup_of u) (po_Policy (up_policy st)) (po_Policy (up_policy st'))"
proof -
  let ?st = "st\<lparr>up_notify := (up_notify st)\<lparr>nt_forceConfig := False\<rparr>\<rparr>"
  have b: "begin_cycle u (ro_host r) False (refresh_now u (ro_files r) (ro_refresh r) (nt_forceConfig (up_notify st)) ?st) = (cyc, st')"
    using assms by (simp add: next_policy_def Let_def)
  show "cy_snap cyc = po_Policy (up_policy st')" "decided u cyc" using begin_cycle_decided [OF b] by simp_all
  show "policy_step (policy_setup_of u) (po_Policy (up_policy st)) (po_Policy (up_policy st'))"
    using begin_cycle_decided(2) [OF b] refresh_policy [of u ?st] by simp
qed

lemma run_cycle_policy:
  "run_cycle u r c st = (call, st') \<Longrightarrow> up_policy st' = up_policy st \<and> call_cycle call = c"
  by (auto simp: run_cycle_def Let_def call_cycle_def)

lemma rounds_policy:
  assumes "rounds u cyc rs st = (fin, calls, st')" "validated u (po_Policy (up_policy st))"
    and "\<And>c. cyc = Some c \<Longrightarrow> decided u c \<and> cy_snap c = po_Policy (up_policy st)"
  shows "(\<forall>call \<in> set calls. decided u (call_cycle call) \<and> validated u (cy_snap (call_cycle call)) \<and>
      succeeds (po_Policy (up_policy st)) (cy_snap (call_cycle call))) \<and>
    sorted_wrt (\<lambda>a b. succeeds (cy_snap (call_cycle a)) (cy_snap (call_cycle b))) calls"
  using assms
proof (induction rs arbitrary: cyc st fin calls)
  case (Cons r rs)
  from Cons.prems(1) show ?case
  proof (cases rule: rounds_Cons)
    case (cycle n c st1 call st2 rest fin' st3)
    have c: "decided u c \<and> cy_snap c = po_Policy (up_policy st1) \<and> succeeds (po_Policy (up_policy st)) (cy_snap c) \<and>
        validated u (cy_snap c)"
    proof (cases cyc)
      case None
      then show ?thesis
        using next_policy_decided [of u r "st\<lparr>up_notify := n\<rparr>" c st1] cycle(2) Cons.prems(2)
          policy_step_succeeds [of u "po_Policy (up_policy st)" "po_Policy (up_policy st1)"] by auto
    next
      case (Some c')
      then have "c = c'" "st1 = st\<lparr>up_notify := n\<rparr>" using cycle(2) by simp_all
      then show ?thesis using Cons.prems(2) Cons.prems(3) [OF Some] by (simp add: succeeds_def)
    qed
    then have st3: "up_policy st3 = up_policy st1" "call_cycle call = c"
      using run_cycle_policy [OF cycle(3)] cycle(6) by simp_all
    from cycle(9) show ?thesis
    proof
      assume "rest = [] \<and> st' = st3"
      then show ?thesis using c st3 cycle(4) by auto
    next
      assume rec: "rounds u None rs st3 = (fin', rest, st')"
      have val: "validated u (po_Policy (up_policy st3))" and snap: "po_Policy (up_policy st3) = cy_snap c"
        using c st3(1) by simp_all metis
      have "(\<forall>call \<in> set rest. decided u (call_cycle call) \<and> validated u (cy_snap (call_cycle call)) \<and>
          succeeds (cy_snap c) (cy_snap (call_cycle call))) \<and>
        sorted_wrt (\<lambda>a b. succeeds (cy_snap (call_cycle a)) (cy_snap (call_cycle b))) rest"
        using Cons.IH [OF rec val] unfolding snap by blast
      then show ?thesis using c st3 cycle(4) succeeds_trans [of "po_Policy (up_policy st)" "cy_snap c"] by auto
    qed
  qed simp
qed simp

lemma initPolicy_validated: "validated u (fst (initPolicy (policy_setup_of u) e (fallback_snapshot u) f))"
proof (cases "cf_RemoteConfigEnabled (pu_cfg (policy_setup_of u))")
  case False
  then show ?thesis by (simp add: initPolicy_def validated_def)
next
  case True
  show ?thesis
  proof (cases "LoadCache (pu_codec (policy_setup_of u)) e (pu_cachePath (policy_setup_of u)) f")
    case (Inl er)
    then show ?thesis using True by (simp add: initPolicy_def validated_def)
  next
    case (Inr c)
    have p: "pu_lib (policy_setup_of u) = se_lib (ls_service u)" by (simp add: policy_setup_of_def)
    show ?thesis
    proof (cases c)
      case (Some cache)
      show ?thesis
      proof (cases "Parse_policy (pu_lib (policy_setup_of u)) (cc_Document cache) (pu_defaults (policy_setup_of u))")
        case (Inr q)
        then show ?thesis
          using True \<open>LoadCache _ _ _ _ = Inr c\<close> Some Parse_policy_size [OF Inr]
          unfolding validated_def by (intro disjI2 exI [of _ "cc_Document cache"]) (simp add: initPolicy_def p)
      qed (use True Inr Some in \<open>simp add: initPolicy_def validated_def\<close>)
    qed (use True Inr in \<open>simp add: initPolicy_def validated_def\<close>)
  qed
qed

lemma start_facts:
  assumes "start u s w = (cyc, st)"
  shows "decided u cyc" "cy_snap cyc = po_Policy (up_policy st)" "validated u (po_Policy (up_policy st))"
    "cycle_apart w (up_world st)"
proof -
  let ?i = "init_policy u (so_files s) (so_log s) w :: ('a, 'b) updater"
  let ?r = "refresh_now u (so_files s) (so_refresh s) True ?i"
  obtain st1 where b: "begin_cycle u (so_host s) True ?r = (cyc, st1)"
    and st: "up_policy st = up_policy st1" "up_world st = up_world st1"
    using assms by (auto simp: start_def Let_def case_prod_unfold prod_eq_iff)
  have i: "validated u (po_Policy (up_policy ?i))" "cycle_apart w (up_world ?i)"
    using initPolicy_validated [of u "so_files s" "wd_files w"]
    by (simp_all add: init_policy_def Let_def case_prod_unfold cycle_apart_def)
  show "decided u cyc" "cy_snap cyc = po_Policy (up_policy st)" "validated u (po_Policy (up_policy st))"
    using begin_cycle_decided [OF b] st policy_step_succeeds(2) [OF refresh_policy i(1)] by simp_all
  show "cycle_apart w (up_world st)"
    using i(2) refresh_world [of ?i u "so_files s" "so_refresh s" True] begin_cycle_world [of u "so_host s" True ?r] b st
    by (simp add: cycle_apart_def)
qed

section \<open>Notifies and the refresh\<close>

lemma wake_fires_force [simp]: "nt_forceConfig (wake_fires reason n) = nt_forceConfig n"
  by (simp add: wake_fires_def split: option.split)

lemma channel_acts_force:
  assumes "channel_acts as n = Some n'"
  shows "nt_forceConfig n' \<longleftrightarrow> nt_forceConfig n \<or> (\<exists>e m. Notified e m \<in> set as \<and> newer_config e m)"
  using assms
proof (induction as n rule: channel_acts.induct)
  case (2 e m as n)
  then obtain n1 where "handleNotify e m n = Some n1" "channel_acts as n1 = Some n'" by (auto split: option.splits)
  then show ?case using "2.IH" handleNotify_force by auto
qed auto

lemma refresh_loop_attempt: "po_lastConfigAttempt (refresh_loop u e r etag i cs st) = po_lastConfigAttempt st"
  by (induction cs arbitrary: i st)
     (auto simp: Let_def confirmSnapshot_def acceptDocument_def split: sum.split)

lemma refreshConfig_attempt:
  assumes "cf_RemoteConfigEnabled (pu_cfg u)"
  shows "force \<Longrightarrow> po_lastConfigAttempt (refreshConfig u e r force st) = rq_now r"
    "\<not> force \<Longrightarrow> \<not> is_zero_time (po_lastConfigAttempt st) \<Longrightarrow> time_sub (rq_now r) (po_lastConfigAttempt st) <
       refresh_Interval (d_Refresh (pd_Global (sn_Parsed (po_Policy st)))) \<Longrightarrow> refreshConfig u e r force st = st"
  using assms by (simp_all add: refreshConfig_def Let_def refresh_loop_attempt)

text \<open>The poll interval of a validated document, in nanoseconds of 64 bits.\<close>

lemma poll_interval_range:
  "1 \<le> us_PollIntervalMinutes us \<Longrightarrow> us_PollIntervalMinutes us \<le> 153722867 \<Longrightarrow>
     us_PollInterval us = us_PollIntervalMinutes us * Minute \<and> Minute \<le> us_PollInterval us"
  by (simp add: us_PollInterval_def wrap64_def Minute_def)

text \<open>A validated interval may wrap to a negative one, with which the loop does not wait at all.\<close>

lemma poll_interval_wraps:
  assumes "153722868 \<le> us_PollIntervalMinutes us" "us_PollIntervalMinutes us \<le> 307445734"
  shows "us_PollInterval us < 0"
proof -
  let ?x = "us_PollIntervalMinutes us * Minute + 2 ^ 63"
  have x: "2 ^ 64 \<le> ?x" "?x - 2 ^ 64 < 2 ^ 63" using assms by (simp_all add: Minute_def)
  then have "?x mod 2 ^ 64 = ?x - 2 ^ 64"
    using mod_pos_pos_trivial [of "?x - 2 ^ 64" "2 ^ 64"] minus_mod_self2 [of ?x "2 ^ 64"] by simp
  then show ?thesis using x(2) by (simp add: us_PollInterval_def wrap64_def)
qed

lemma execute_loop_spec:
  assumes "x' = execute_loop in_time cs x" "before = takeWhile (\<lambda>c. c \<noteq> Stop \<and> c \<noteq> Shutdown) cs"
    and "stops = (\<exists>c \<in> set cs. c = Stop \<or> c = Shutdown)"
  shows "ex_statuses x' = ex_statuses x @ concat (map (\<lambda>c. case c of Interrogate s \<Rightarrow> [s] | _ \<Rightarrow> []) before) @
      (if stops then [StopPending] else [])"
    and "ex_queued x' = ex_queued x @ concat (map (\<lambda>c. case c of
      SessionChange t d now \<Rightarrow> (case ParseSessionChange t d now of None \<Rightarrow> [] | Some y \<Rightarrow> [y]) | _ \<Rightarrow> []) before)"
    and "ex_cancelled x' \<longleftrightarrow> ex_cancelled x \<or> stops"
    and "ex_returned x' = (if stops then Some (False, 0) else ex_returned x)"
  unfolding assms
  by (induction in_time cs x rule: execute_loop.induct) (auto split: option.splits)

section \<open>Properties\<close>

text \<open>
  Every deed of the service over any number of rounds belongs to one of its cycles and fits
  what that cycle, an earlier one or the record pending at the start names, as long as the
  setups of the updater are stored apart from the cached policy.
\<close>

theorem RunLoop_runs_verified:
  assumes "RunLoop u s rs w = (fin, calls, st)"
    and "pending_wf (ls_service u) w" "\<forall>v. apart (ls_service u) (SetupPath (se_selfDownloads (ls_service u)) v)"
  shows "\<exists>dss. wd_did (up_world st) = wd_did w @ concat dss \<and> length calls \<le> length rs \<and>
    list_all2 (\<lambda>(c, v) ds. deeds_fit (ls_service u)
      (\<lambda>r. pending_release w = Some r \<or> (\<exists>(c, v) \<in> set calls. cycle_offers (ls_service u) c v r)) c v ds) calls dss"
proof -
  obtain cyc st0 where s: "start u s w = (cyc, st0)" "rounds u (Some cyc) rs st0 = (fin, calls, st)"
    using assms(1) by (auto simp: RunLoop_def Let_def case_prod_unfold prod_eq_iff)
  have "uc.history (ls_service u) w [] (up_world st0)"
    by (rule uc.history_between [OF uc.history_start start_facts(4) [OF s(1)]])
  from rounds_history [OF s(2) this] have h: "uc.history (ls_service u) w calls (up_world st)" "length calls \<le> length rs"
    by simp_all
  have "cycle_ok (ls_service u) w" using assms(2,3) by (simp add: cycle_ok_def)
  from uc.history_fits [OF h(1) this] show ?thesis using h(2) unfolding uc.offered_def by blast
qed

text \<open>
  C17: Every cycle of the service runs under the policy derived from \<^verbatim>\<open>config.ini\<close> or a document of
  at most 1 MiB that passed validation in full, at the start and after any number of
  refreshes whatever the servers answer; its settings and its server chain are the ones that
  policy gives for the host as it was seen before the cycle; and once a cycle has run under a
  document, the later ones run under documents whose revision never goes down.
\<close>

theorem RunLoop_policy_validated:
  assumes "RunLoop u s rs w = (fin, calls, st)"
  shows "(\<forall>call \<in> set calls. decided u (call_cycle call) \<and> validated u (cy_snap (call_cycle call))) \<and>
    sorted_wrt (\<lambda>a b. succeeds (cy_snap (call_cycle a)) (cy_snap (call_cycle b))) calls"
proof -
  obtain cyc st0 where s: "start u s w = (cyc, st0)" "rounds u (Some cyc) rs st0 = (fin, calls, st)"
    using assms by (auto simp: RunLoop_def Let_def case_prod_unfold prod_eq_iff)
  have "\<And>c. Some cyc = Some c \<Longrightarrow> decided u c \<and> cy_snap c = po_Policy (up_policy st0)"
    using start_facts(1,2) [OF s(1)] by simp
  from rounds_policy [OF s(2) start_facts(3) [OF s(1)] this] show ?thesis by blast
qed


text \<open>
  The service control manager is told the truth: the service reports that it is starting, then
  running; until the first stop or shutdown every interrogation is answered with the status
  it carries and every known session change is handed on, in order; the stop is announced,
  cancels the loop and ends \<^verbatim>\<open>Execute\<close>, and nothing else does.
\<close>

theorem Execute_reports:
  "ex_statuses (Execute in_time cs) = [StartPending, Running] @
     concat (map (\<lambda>c. case c of Interrogate s \<Rightarrow> [s] | _ \<Rightarrow> []) (takeWhile (\<lambda>c. c \<noteq> Stop \<and> c \<noteq> Shutdown) cs)) @
     (if Stop \<in> set cs \<or> Shutdown \<in> set cs then [StopPending] else []) \<and>
   ex_queued (Execute in_time cs) = concat (map (\<lambda>c. case c of
      SessionChange t d now \<Rightarrow> (case ParseSessionChange t d now of None \<Rightarrow> [] | Some y \<Rightarrow> [y]) | _ \<Rightarrow> [])
      (takeWhile (\<lambda>c. c \<noteq> Stop \<and> c \<noteq> Shutdown) cs)) \<and>
   (ex_cancelled (Execute in_time cs) \<longleftrightarrow> Stop \<in> set cs \<or> Shutdown \<in> set cs) \<and>
   ex_returned (Execute in_time cs) = (if Stop \<in> set cs \<or> Shutdown \<in> set cs then Some (False, 0) else None)"
proof -
  have stops: "(\<exists>c \<in> set cs. c = Stop \<or> c = Shutdown) \<longleftrightarrow> Stop \<in> set cs \<or> Shutdown \<in> set cs" by blast
  show ?thesis
    unfolding Execute_def by (subst execute_loop_spec [OF refl refl stops [symmetric]] )+ simp
qed

section \<open>A concrete service\<close>

definition demo_loop :: "string loop_setup" where
  "demo_loop =
     \<lparr>ls_service = demo_setup\<lparr>se_cfg := (se_cfg demo_setup)\<lparr>cf_RemoteConfigEnabled := False, cf_SelfUpdateEnabled := False\<rparr>\<rparr>,
      ls_codec = \<lparr>cx_marshal = (\<lambda>_. []), cx_unmarshal = (\<lambda>_. None), cx_json = (\<lambda>_. []), cx_indent = id\<rparr>,
      ls_badPath = ''rc.bad'', ls_machine = \<lparr>mc_HWID = ''h'', mc_Hostname = ''pc'', mc_ADDomain = []\<rparr>,
      ls_netString = (\<lambda>_. []), ls_consoleDebug = False, ls_joinPath = (\<lambda>d n. d @ n)\<rparr>"

definition demo_host :: host_env where
  "demo_host = \<lparr>he_now = 5, he_ips = None, he_dc = (\<lambda>_. None), he_stop = (\<lambda>_. False)\<rparr>"

definition demo_refresh :: refresh_env where
  "demo_refresh = \<lparr>rq_now = 5, rq_fetch = (\<lambda>_ _. None), rq_cancelled = (\<lambda>_. False)\<rparr>"

definition demo_start :: "string start_env" where
  "demo_start = \<lparr>so_files = xe_sys demo_cyc_env, so_refresh = demo_refresh, so_host = demo_host, so_state_ok = True, so_log = demo_logger\<rparr>"

definition demo_round :: "string round_env" where
  "demo_round = \<lparr>ro_before = [], ro_files = xe_sys demo_cyc_env, ro_refresh = demo_refresh, ro_host = demo_host,
     ro_commands = id, ro_cycle = demo_cyc_env, ro_during = [], ro_wait = TimerEnds\<rparr>"

definition demo_life :: "loop_end \<times> string cycle_call list \<times> (string, nat) updater" where
  "demo_life = RunLoop demo_loop demo_start [demo_round] World.demo_world"

lemma demo_life_calls: "length (fst (snd demo_life)) = 1"
  by (simp add: demo_life_def RunLoop_def demo_round_def run_cycle_def Let_def case_prod_unfold wait_select_def)

lemma demo_life_run: "RunLoop demo_loop demo_start [demo_round] World.demo_world = (fst demo_life, fst (snd demo_life), snd (snd demo_life))"
  by (simp add: demo_life_def)

theorem RunLoop_policy_validated_witness:
  "length (fst (snd demo_life)) = 1 \<and> decided demo_loop (call_cycle (hd (fst (snd demo_life)))) \<and>
   validated demo_loop (cy_snap (call_cycle (hd (fst (snd demo_life)))))"
proof -
  obtain call where call: "fst (snd demo_life) = [call]" using demo_life_calls by (auto simp: length_Suc_conv)
  then show ?thesis using RunLoop_policy_validated [OF demo_life_run] by simp
qed

definition demo_service :: "(string, nat) updater" where
  "demo_service = (snd (snd demo_life))\<lparr>up_notify := \<lparr>nt_forceConfig = False, nt_last = 0, nt_scheduled = [], nt_wake = None\<rparr>\<rparr>"

definition demo_notified :: "string round_env" where
  "demo_notified = demo_round\<lparr>ro_before := [Notified (demo_notify_env 1) demo_notify]\<rparr>"

definition demo_remote_loop :: "string loop_setup" where
  "demo_remote_loop = demo_loop\<lparr>ls_service := (ls_service demo_loop)\<lparr>se_cfg := (se_cfg demo_setup)\<lparr>cf_RemoteConfigEnabled := True\<rparr>\<rparr>\<rparr>"


end
