(* ===== verification/WinTrust.thy ===== *)
theory WinTrust
  imports Prelude "HOL-Library.Word"
begin

text \<open>
  Two packages that decide on what Windows answers: \<^verbatim>\<open>internal/authenticode\<close>, whether a file
  is signed by the pinned certificate, and \<^verbatim>\<open>internal/process\<close>, whether EMLy runs, waiting
  until it does not, and ending it. The answers are arguments; thumbprints and error codes
  are machine words.
\<close>

unbundle bit_operations_syntax

section \<open>Signatures\<close>

definition certUntrustedRoot :: "32 word" where "certUntrustedRoot = 0x800B0109"
definition trustBadDigest :: "32 word" where "trustBadDigest = 0x80096010"
definition trustNoSignature :: "32 word" where "trustNoSignature = 0x800B0100"

text \<open>A call that fails without an error number, or with one.\<close>

datatype win_error = OtherError | Errno "64 word"

definition isHRESULT :: "win_error \<Rightarrow> 32 word \<Rightarrow> bool" where
  "isHRESULT err hresult = (case err of OtherError \<Rightarrow> False | Errno n \<Rightarrow> ucast n = hresult)"

datatype trust_text = Tampered | NotSigned | NotChained | PassedThrough win_error

definition describeTrustError :: "win_error \<Rightarrow> trust_text" where
  "describeTrustError err =
     (if isHRESULT err trustBadDigest then Tampered
      else if isHRESULT err trustNoSignature then NotSigned
      else if isHRESULT err certUntrustedRoot then NotChained
      else PassedThrough err)"

definition subtleEqual :: "8 word list \<Rightarrow> 8 word list \<Rightarrow> bool" where
  "subtleEqual a b \<longleftrightarrow> fold (\<lambda>i diff. diff OR (a ! i XOR b ! i)) [0..<length a] 0 = 0"

datatype signature_error =
    NothingPinned
  | BadPath
  | NoSignature
  | SignerUnreadable
  | SignerTooShort nat
  | SignerNotCarried
  | Untrusted trust_text
  | WrongSigner "8 word list"

text \<open>
  What the signed message answers: whether the path can be passed on, whether the file has a
  signature, the size and then the content of the signer's record, and the certificate in the
  message that the record names. \<open>cert_info_size\<close> is the size of the C structure.
\<close>

record signed_message =
  sm_path :: bool
  sm_query :: bool
  sm_size :: "nat option"
  sm_info :: bool
  sm_signer :: "8 word list option"

definition signerCertInfo :: "nat \<Rightarrow> signed_message \<Rightarrow> signature_error option" where
  "signerCertInfo cert_info_size m =
     (case sm_size m of
        None \<Rightarrow> Some SignerUnreadable
      | Some n \<Rightarrow>
          if n < cert_info_size then Some (SignerTooShort n)
          else if \<not> sm_info m then Some SignerUnreadable else None)"

definition Thumbprint :: "(8 word list \<Rightarrow> 8 word list) \<Rightarrow> 8 word list \<Rightarrow> 8 word list" where
  "Thumbprint sha1 der = sha1 der"

definition signerThumbprint :: "(8 word list \<Rightarrow> 8 word list) \<Rightarrow> nat \<Rightarrow> signed_message \<Rightarrow> signature_error + 8 word list" where
  "signerThumbprint sha1 cert_info_size m =
     (if \<not> sm_path m then Inl BadPath
      else if \<not> sm_query m then Inl NoSignature
      else case signerCertInfo cert_info_size m of
        Some err \<Rightarrow> Inl err
      | None \<Rightarrow> (case sm_signer m of None \<Rightarrow> Inl SignerNotCarried | Some der \<Rightarrow> Inr (Thumbprint sha1 der)))"

text \<open>\<open>trust\<close> is the answer of \<^verbatim>\<open>WinVerifyTrustEx\<close>, \<open>None\<close> for success.\<close>

definition Verify ::
  "(8 word list \<Rightarrow> 8 word list) \<Rightarrow> nat \<Rightarrow> signed_message \<Rightarrow> win_error option \<Rightarrow> 8 word list \<Rightarrow> signature_error option" where
  "Verify sha1 cert_info_size m trust pinned =
     (if pinned = [] then Some NothingPinned
      else case signerThumbprint sha1 cert_info_size m of
        Inl err \<Rightarrow> Some err
      | Inr thumbprint \<Rightarrow>
          (let pinMatches = (length thumbprint = length pinned \<and> subtleEqual thumbprint pinned)
           in case trust of
                Some err \<Rightarrow>
                  if isHRESULT err certUntrustedRoot \<and> pinMatches then None
                  else Some (Untrusted (describeTrustError err))
              | None \<Rightarrow> if pinMatches then None else Some (WrongSigner thumbprint)))"

section \<open>Processes\<close>

type_synonym pid = "32 word"

text \<open>
  A snapshot: the call fails, the first entry cannot be read, or the entries read, and
  whether the enumeration ended as it should.
\<close>

datatype snapshot_answer = SnapshotFails | FirstFails | Entries "(string \<times> pid) list" bool

datatype process_error = SnapshotError | FirstError | NextError | OpenError pid | KillError pid | WaitError | EventError | CtxError

definition ListPIDs :: "string \<Rightarrow> snapshot_answer \<Rightarrow> process_error + pid list" where
  "ListPIDs exeName s =
     (case s of
        SnapshotFails \<Rightarrow> Inl SnapshotError
      | FirstFails \<Rightarrow> Inl FirstError
      | Entries es complete \<Rightarrow>
          if complete then Inr (map snd (filter (\<lambda>(name, _). EqualFold name exeName) es)) else Inl NextError)"

definition IsRunning :: "string \<Rightarrow> snapshot_answer \<Rightarrow> bool" where
  "IsRunning exeName s = (case ListPIDs exeName s of Inl _ \<Rightarrow> True | Inr pids \<Rightarrow> pids \<noteq> [])"

text \<open>
  One turn of the loop of \<^verbatim>\<open>WaitForExit\<close>: the snapshot, which processes can be opened, and how
  the wait on their handles ends.
\<close>

datatype wait_end = WaitFails | CancelSignaled | ProcessSignaled nat

record wait_turn =
  wt_snapshot :: snapshot_answer
  wt_open :: "pid \<Rightarrow> bool"
  wt_wait :: wait_end

datatype turn_result = Returns "process_error option" | AnotherTurn

definition wait_turn_step :: "string \<Rightarrow> wait_turn \<Rightarrow> turn_result" where
  "wait_turn_step exeName t =
     (case ListPIDs exeName (wt_snapshot t) of
        Inl err \<Rightarrow> Returns (Some err)
      | Inr pids \<Rightarrow>
          if pids = [] then Returns None
          else let pids = (if length pids > 63 then take 63 pids else pids); handles = filter (wt_open t) pids in
          if handles = [] then AnotherTurn
          else (case wt_wait t of
                  WaitFails \<Rightarrow> Returns (Some WaitError)
                | CancelSignaled \<Rightarrow> Returns (Some CtxError)
                | ProcessSignaled _ \<Rightarrow> AnotherTurn))"

text \<open>The loop over the turns it has made: \<open>None\<close> while it has not returned.\<close>

fun wait_loop :: "string \<Rightarrow> wait_turn list \<Rightarrow> process_error option option" where
  "wait_loop exeName [] = None"
| "wait_loop exeName (t # ts) =
     (case wait_turn_step exeName t of Returns r \<Rightarrow> Some r | AnotherTurn \<Rightarrow> wait_loop exeName ts)"

definition WaitForExit :: "string \<Rightarrow> bool \<Rightarrow> wait_turn list \<Rightarrow> process_error option option" where
  "WaitForExit exeName event_ok turns = (if \<not> event_ok then Some (Some EventError) else wait_loop exeName turns)"

text \<open>\<open>op\<close> and \<open>kill\<close> tell which processes can be opened and terminated.\<close>

definition kill_one ::
  "(pid \<Rightarrow> bool) \<Rightarrow> (pid \<Rightarrow> bool) \<Rightarrow> pid \<Rightarrow> nat \<times> process_error option \<Rightarrow> nat \<times> process_error option" where
  "kill_one op kill p r =
     (let (killed, firstErr) = r; first = (\<lambda>e. if firstErr = None then Some e else firstErr) in
      if \<not> op p then (killed, first (OpenError p))
      else if \<not> kill p then (killed, first (KillError p))
      else (Suc killed, firstErr))"

definition TerminateAll ::
  "string \<Rightarrow> snapshot_answer \<Rightarrow> (pid \<Rightarrow> bool) \<Rightarrow> (pid \<Rightarrow> bool) \<Rightarrow> nat \<times> process_error option" where
  "TerminateAll exeName s op kill =
     (case ListPIDs exeName s of
        Inl err \<Rightarrow> (0, Some err)
      | Inr pids \<Rightarrow> fold (kill_one op kill) pids (0, None))"

section \<open>Lemmas\<close>

lemma fold_or_zero:
  fixes f :: "nat \<Rightarrow> 8 word"
  shows "fold (\<lambda>i d. d OR f i) ks d0 = 0 \<longleftrightarrow> d0 = 0 \<and> (\<forall>i \<in> set ks. f i = 0)"
proof (induction ks arbitrary: d0)
  case (Cons i ks)
  have "d0 OR f i = 0 \<longleftrightarrow> d0 = 0 \<and> f i = 0" by (rule or_eq_0_iff)
  then show ?case using Cons by auto
qed simp

lemma subtleEqual_eq: "length a = length b \<Longrightarrow> subtleEqual a b \<longleftrightarrow> a = b"
proof -
  assume l: "length a = length b"
  have x: "(u XOR v = 0) = (u = v)" for u v :: "8 word"
  proof
    assume "u XOR v = 0"
    then have "(u XOR v) XOR v = v" by simp
    then show "u = v" by (simp add: xor.assoc)
  qed simp
  have "subtleEqual a b \<longleftrightarrow> (\<forall>i < length a. a ! i = b ! i)"
    by (auto simp: subtleEqual_def fold_or_zero x)
  then show ?thesis using l by (auto simp: list_eq_iff_nth_eq)
qed

lemma kill_fold:
  "fold (kill_one op kill) pids (n, err) =
     (n + length (filter (\<lambda>p. op p \<and> kill p) pids),
      case err of Some e \<Rightarrow> Some e
      | None \<Rightarrow> map_option (\<lambda>p. if op p then KillError p else OpenError p) (find (\<lambda>p. \<not> (op p \<and> kill p)) pids))"
  by (induction pids arbitrary: n err) (auto simp: kill_one_def split: option.splits)

text \<open>
  An instance that cannot be opened keeps the loop turning: it does not return after any
  number of turns, and never gets to see that the context was cancelled.
\<close>

lemma wait_spins_on_inaccessible:
  assumes "\<forall>t \<in> set turns. (\<exists>p ps. ListPIDs exeName (wt_snapshot t) = Inr (p # ps)) \<and> (\<forall>p. \<not> wt_open t p)"
  shows "WaitForExit exeName True turns = None"
proof -
  have "wait_loop exeName turns = None"
    using assms by (induction turns) (auto simp: wait_turn_step_def Let_def)
  then show ?thesis by (simp add: WaitForExit_def)
qed

section \<open>Properties\<close>

text \<open>
  C5: The signature check accepts a file exactly when its signer is the pinned certificate and
  Windows confirms that the signature covers the file. It succeeds when a certificate is
  pinned, the certificate the signature itself names as the signer's has the pinned
  thumbprint, byte for byte, and \<^verbatim>\<open>WinVerifyTrust\<close> either succeeds or fails for the one reason
  that the chain ends in a root the machine does not trust; in no other case.
\<close>

theorem Verify_accepts_exactly:
  "Verify sha1 cs m trust pinned = None \<longleftrightarrow>
     pinned \<noteq> [] \<and> signerThumbprint sha1 cs m = Inr pinned \<and>
     (case trust of None \<Rightarrow> True | Some err \<Rightarrow> isHRESULT err certUntrustedRoot)"
proof (cases "signerThumbprint sha1 cs m")
  case (Inr t)
  have "(length t = length pinned \<and> subtleEqual t pinned) \<longleftrightarrow> t = pinned"
    using subtleEqual_eq by blast
  then show ?thesis by (cases trust; cases "t = pinned") (auto simp: Verify_def Inr Let_def)
qed (simp add: Verify_def)



end
