(* ===== verification/Trust.thy ===== *)
theory Trust
  imports Launch Service WinTrust
begin

text \<open>
  The trust in a self-update, end to end: \<^verbatim>\<open>cert.Embedded\<close> and \<^verbatim>\<open>verifySelfSetup\<close> (\<^verbatim>\<open>selfupdate.go\<close>)
  join the signature check of \<^verbatim>\<open>WinTrust\<close> to the handler of \<^verbatim>\<open>SelfApply\<close> and through it to the rounds
  of \<^verbatim>\<open>Service\<close>.
\<close>

section \<open>The check\<close>

text \<open>\<open>valid\<close> tells whether the bytes parse as a certificate.\<close>

definition Embedded :: "(8 word list \<Rightarrow> bool) \<Rightarrow> 8 word list \<Rightarrow> 8 word list option" where
  "Embedded valid embedded = (if valid embedded then Some embedded else None)"

datatype self_setup_error = NoEmbedded | BadSignature signature_error

text \<open>
  What the check rests on: the certificate of this build, SHA-1, the size of a \<^verbatim>\<open>CERT_INFO\<close>, and for
  each file what crypt32 reads from its signature and what \<^verbatim>\<open>WinVerifyTrust\<close> says.
\<close>

record 'b trust =
  tr_valid :: "8 word list \<Rightarrow> bool"
  tr_embedded :: "8 word list"
  tr_sha1 :: "8 word list \<Rightarrow> 8 word list"
  tr_certInfo :: nat
  tr_message :: "'b \<Rightarrow> signed_message"
  tr_verdict :: "'b \<Rightarrow> win_error option"

definition verifySelfSetup :: "'b trust \<Rightarrow> 'b \<Rightarrow> self_setup_error option" where
  "verifySelfSetup t b =
     (case Embedded (tr_valid t) (tr_embedded t) of
        None \<Rightarrow> Some NoEmbedded
      | Some der \<Rightarrow>
          map_option BadSignature
            (Verify (tr_sha1 t) (tr_certInfo t) (tr_message t b) (tr_verdict t b) (Thumbprint (tr_sha1 t) der)))"

text \<open>A cycle whose signature check is this one.\<close>

definition checking_signatures :: "'b trust \<Rightarrow> 'b cyc_env \<Rightarrow> 'b cyc_env" where
  "checking_signatures t e = e\<lparr>xe_signed := \<lambda>b. verifySelfSetup t b = None\<rparr>"

section \<open>Lemmas\<close>

text \<open>
  What acceptance means: the certificate the signature names as its signer has the thumbprint
  of the embedded one, and Windows found the signature to cover the file.
\<close>

definition signed_by_embedded :: "'b trust \<Rightarrow> 'b \<Rightarrow> bool" where
  "signed_by_embedded t b \<longleftrightarrow>
     tr_valid t (tr_embedded t) \<and>
     (\<exists>der. sm_query (tr_message t b) \<and> sm_signer (tr_message t b) = Some der \<and> tr_sha1 t der = tr_sha1 t (tr_embedded t)) \<and>
     (case tr_verdict t b of None \<Rightarrow> True | Some err \<Rightarrow> isHRESULT err certUntrustedRoot)"

lemma signerThumbprint_Inr:
  "signerThumbprint sha1 cs m = Inr p \<Longrightarrow> sm_query m \<and> (\<exists>der. sm_signer m = Some der \<and> sha1 der = p)"
  by (auto simp: signerThumbprint_def Thumbprint_def split: if_splits option.splits)

lemma Verify_None:
  assumes "Verify sha1 cs m verdict pinned = None"
  shows "signerThumbprint sha1 cs m = Inr pinned \<and> (case verdict of None \<Rightarrow> True | Some err \<Rightarrow> isHRESULT err certUntrustedRoot)"
proof (cases "signerThumbprint sha1 cs m")
  case (Inl err)
  then show ?thesis using assms by (simp add: Verify_def split: if_splits)
next
  case (Inr p)
  then have "length p = length pinned \<and> subtleEqual p pinned"
    using assms by (auto simp: Verify_def Let_def split: if_splits option.splits)
  then have "p = pinned" using subtleEqual_eq by blast
  then show ?thesis using Inr assms by (auto simp: Verify_def Let_def split: if_splits option.splits)
qed

lemma verifySelfSetup_accepts:
  assumes "verifySelfSetup t b = None"
  shows "signed_by_embedded t b"
proof -
  let ?pin = "tr_sha1 t (tr_embedded t)"
  have valid: "tr_valid t (tr_embedded t)"
    and v: "Verify (tr_sha1 t) (tr_certInfo t) (tr_message t b) (tr_verdict t b) ?pin = None"
    using assms by (simp_all add: verifySelfSetup_def Embedded_def Thumbprint_def split: if_splits)
  note ok = Verify_None [OF v]
  show ?thesis
    unfolding signed_by_embedded_def
    using valid ok signerThumbprint_Inr [OF conjunct1 [OF ok]] by auto
qed

lemma rounds_environments:
  "rounds u cyc rs st = (fin, calls, st') \<Longrightarrow> map (\<lambda>c. fst (fst c)) calls = map ro_cycle (take (length calls) rs)"
proof (induction rs arbitrary: cyc st fin calls st')
  case (Cons r rs)
  from Cons.prems show ?case
  proof (cases rule: rounds_Cons)
    case (cycle n c st1 call st2 rest fin' st3)
    have "fst (fst call) = ro_cycle r" using cycle(3) by (auto simp: run_cycle_def Let_def)
    moreover have "map (\<lambda>c. fst (fst c)) rest = map ro_cycle (take (length rest) rs)"
      using cycle(9) Cons.IH by auto
    ultimately show ?thesis using cycle(4) by simp
  qed simp
qed simp

lemma deeds_fit_launch:
  "deeds_fit u K (e, wake, cyc) w ds \<Longrightarrow> LaunchedSelf v b \<in> set ds \<Longrightarrow>
   xe_signed e b \<and> Less (se_lib u) (se_version u) v = Inr True"
  by (simp add: deeds_fit_def)

lemma RunLoop_environments:
  "RunLoop u s rs w = (fin, calls, st) \<Longrightarrow> ((e, wake, cyc), v) \<in> set calls \<Longrightarrow> \<exists>r \<in> set rs. e = ro_cycle r"
proof -
  assume run: "RunLoop u s rs w = (fin, calls, st)" and call: "((e, wake, cyc), v) \<in> set calls"
  obtain c st0 where "rounds u (Some c) rs st0 = (fin, calls, st)"
    using run by (auto simp: RunLoop_def Let_def case_prod_unfold)
  then have "map (\<lambda>c. fst (fst c)) calls = map ro_cycle (take (length calls) rs)" by (rule rounds_environments)
  moreover have "e \<in> set (map (\<lambda>c. fst (fst c)) calls)" using call by force
  ultimately show "\<exists>r \<in> set rs. e = ro_cycle r" by (auto dest: in_set_takeD)
qed

section \<open>Properties\<close>

text \<open>
  C2: The updater only ever replaces itself by what the holder of its certificate signed. Over
  any number of rounds of a service on its own directories, whatever servers, files and
  Windows answer, each setup it launches for itself was found by Windows to be covered by its
  signature, at most with an untrusted root; the certificate the signature names as its
  signer has the thumbprint of the certificate embedded in this build, which parses; and its
  version is newer than the running one.
\<close>

theorem self_updates_signed_by_embedded:
  assumes "ls_service u = on_standard_paths programData su" "RunLoop u s rs w = (fin, calls, st)"
    and "pending_wf (ls_service u) w" "\<forall>r \<in> set rs. \<exists>e. ro_cycle r = checking_signatures t e"
  shows "\<exists>ds. wd_did (up_world st) = wd_did w @ ds \<and>
    (\<forall>v b. LaunchedSelf v b \<in> set ds \<longrightarrow>
       signed_by_embedded t b \<and> Less (se_lib (ls_service u)) (se_version (ls_service u)) v = Inr True)"
proof -
  have "\<forall>v. apart (ls_service u) (SetupPath (se_selfDownloads (ls_service u)) v)"
    unfolding assms(1) using standard_paths_apart by blast
  from RunLoop_runs_verified [OF assms(2,3) this] obtain dss K where d: "wd_did (up_world st) = wd_did w @ concat dss"
    "list_all2 (\<lambda>(c, v) ds. deeds_fit (ls_service u) K c v ds) calls dss" by blast
  have "signed_by_embedded t b \<and> Less (se_lib (ls_service u)) (se_version (ls_service u)) v = Inr True"
    if launched: "LaunchedSelf v b \<in> set (concat dss)" for v b
  proof -
    obtain ds where "ds \<in> set dss" "LaunchedSelf v b \<in> set ds" using launched by auto
    then obtain i where i: "i < length dss" "LaunchedSelf v b \<in> set (dss ! i)" by (metis in_set_conv_nth)
    obtain e wake cyc wo where c: "calls ! i = ((e, wake, cyc), wo)" by (metis surj_pair)
    have "deeds_fit (ls_service u) K (e, wake, cyc) wo (dss ! i)"
      using list_all2_nthD2 [OF d(2) i(1)] c by simp
    note launch = deeds_fit_launch [OF this i(2)]
    have "((e, wake, cyc), wo) \<in> set calls"
      using c i(1) d(2) by (metis list_all2_lengthD nth_mem)
    then obtain r where "r \<in> set rs" "e = ro_cycle r" using RunLoop_environments [OF assms(2)] by blast
    then have "verifySelfSetup t b = None" using assms(4) launch by (auto simp: checking_signatures_def)
    then have "signed_by_embedded t b" by (rule verifySelfSetup_accepts)
    then show ?thesis using launch by simp
  qed
  then show ?thesis using d(1) by blast
qed

section \<open>A concrete signature\<close>

definition demo_trust :: "string trust" where
  "demo_trust = \<lparr>tr_valid = (\<lambda>d. d = [3]), tr_embedded = [3], tr_sha1 = id, tr_certInfo = 8,
     tr_message = (\<lambda>b. \<lparr>sm_path = True, sm_query = b = ''ab'', sm_size = Some 8, sm_info = True, sm_signer = Some [3]\<rparr>),
     tr_verdict = (\<lambda>_. Some (Errno 0x800B0109))\<rparr>"

definition demo_trusting :: "string loop_setup" where
  "demo_trusting = demo_loop\<lparr>ls_service := on_standard_paths [] demo_setup\<rparr>"

definition demo_trusting_round :: "string round_env" where
  "demo_trusting_round = demo_round\<lparr>ro_cycle := checking_signatures demo_trust demo_cyc_env\<rparr>"

definition demo_trusting_life :: "loop_end \<times> string cycle_call list \<times> (string, nat) updater" where
  "demo_trusting_life = RunLoop demo_trusting demo_start [demo_trusting_round] World.demo_world"

lemma demo_signed: "verifySelfSetup demo_trust ''ab'' = None" "verifySelfSetup demo_trust ''ac'' \<noteq> None"
  by (simp_all add: verifySelfSetup_def Embedded_def demo_trust_def Verify_def signerThumbprint_def signerCertInfo_def
      Thumbprint_def subtleEqual_def isHRESULT_def certUntrustedRoot_def)

theorem self_updates_signed_by_embedded_witness:
  "verifySelfSetup demo_trust ''ab'' = None \<and>
   (\<exists>ds. wd_did (up_world (snd (snd demo_trusting_life))) = ds \<and>
      (\<forall>v. LaunchedSelf v ''ac'' \<notin> set ds))"
proof -
  have wf: "pending_wf (ls_service demo_trusting) World.demo_world" "wd_did World.demo_world = []"
    by (simp_all add: pending_wf_def World.demo_world_def)
  have paths: "ls_service demo_trusting = on_standard_paths [] demo_setup" by (simp add: demo_trusting_def)
  have run: "RunLoop demo_trusting demo_start [demo_trusting_round] World.demo_world =
      (fst demo_trusting_life, fst (snd demo_trusting_life), snd (snd demo_trusting_life))"
    by (simp add: demo_trusting_life_def)
  have env: "\<forall>r \<in> set [demo_trusting_round]. \<exists>e. ro_cycle r = checking_signatures demo_trust e"
    by (auto simp: demo_trusting_round_def)
  have "\<not> signed_by_embedded demo_trust ''ac''" by (simp add: signed_by_embedded_def demo_trust_def)
  with self_updates_signed_by_embedded [OF paths run wf(1) env] show ?thesis
    using wf(2) demo_signed(1) by auto
qed

end
