(* ===== verification/Inventory.thy ===== *)
theory Inventory
  imports Telemetry ClientCmd "HOL-Library.Sublist"
begin

text \<open>
  The read-only commands of the client channel (\<^verbatim>\<open>internal/service/clientcmd.go\<close>) and the
  list of upgradable packages behind one of them (\<^verbatim>\<open>internal/winget\<close>): running
  PowerShell and reading its output, merging what the machine and the logged-on user see,
  cutting the list to the size of a frame, and the two dry runs of the update decision.
\<close>

section \<open>winget\<close>

record package =
  wp_Name :: string
  wp_ID :: string
  wp_InstalledVersion :: string
  wp_Available :: string
  wp_Source :: string

definition package_fields :: "package fields" where
  "package_fields =
     [(''Name'', fld dec_string wp_Name wp_Name_update), (''Id'', fld dec_string wp_ID wp_ID_update),
      (''InstalledVersion'', fld dec_string wp_InstalledVersion wp_InstalledVersion_update),
      (''Available'', fld dec_string wp_Available wp_Available_update),
      (''Source'', fld dec_string wp_Source wp_Source_update)]"

definition zero_package :: package where
  "zero_package = \<lparr>wp_Name = [], wp_ID = [], wp_InstalledVersion = [], wp_Available = [], wp_Source = []\<rparr>"

datatype winget_error =
    ErrModuleNotInstalled
  | ErrPowerShellNotFound
  | ErrPowerShell7Required
  | InvalidPackageJSON
  | ExitError int string
  | RunTimedOut
  | RunFailed

text \<open>How a process ended, as \<^verbatim>\<open>cmd.Run\<close> reports it; \<open>late\<close> tells whether the context is over.\<close>

datatype proc_end = ProcOk string | ProcNotFound | ProcExit int string | ProcOther

definition PowerShell :: "proc_end \<Rightarrow> bool \<Rightarrow> winget_error + string" where
  "PowerShell p late =
     (case p of
        ProcOk stdout \<Rightarrow> Inr stdout
      | ProcNotFound \<Rightarrow> Inl ErrPowerShellNotFound
      | ProcExit code stderr \<Rightarrow> if late then Inl RunTimedOut else Inl (ExitError code stderr)
      | ProcOther \<Rightarrow> if late then Inl RunTimedOut else Inl RunFailed)"

text \<open>The process started in the user's session: \<open>None\<close> when it could not be run.\<close>

definition sessionRunner :: "(int \<times> string \<times> string) option \<Rightarrow> winget_error + string" where
  "sessionRunner out =
     (case out of
        None \<Rightarrow> Inl RunFailed
      | Some (code, stdout, stderr) \<Rightarrow> if code \<noteq> 0 then Inl (ExitError code stderr) else Inr stdout)"

text \<open>\<open>stat\<close> and \<open>look\<close> are the file system and the search path.\<close>

definition powerShellExe :: "string \<Rightarrow> (string \<Rightarrow> bool) \<Rightarrow> string option \<Rightarrow> string" where
  "powerShellExe pf stat look =
     (let p = pf @ [CHR 0x5C] @ ''PowerShell'' @ [CHR 0x5C] @ ''7'' @ [CHR 0x5C] @ ''pwsh.exe'' in
      if pf \<noteq> [] \<and> stat p then p else case look of Some q \<Rightarrow> q | None \<Rightarrow> ''powershell.exe'')"

definition withoutPSModulePath :: "string list \<Rightarrow> string list" where
  "withoutPSModulePath env = filter (\<lambda>kv. \<not> EqualFold (fst (Cut (CHR ''='') kv)) ''PSModulePath'') env"

definition isModuleMissing :: "string \<Rightarrow> bool" where
  "isModuleMissing stderr \<longleftrightarrow> Contains stderr ''Get-WinGetPackage'' \<and> Contains stderr ''CommandNotFoundException''"

definition Parse_packages :: "golib \<Rightarrow> string \<Rightarrow> winget_error + package list" where
  "Parse_packages L out =
     (let data = TrimSpace (TrimPrefix out [CHR 0xEF, CHR 0xBB, CHR 0xBF]) in
      if data = [] then Inr []
      else case ParseJSON L data of
        None \<Rightarrow> Inl InvalidPackageJSON
      | Some j \<Rightarrow>
          if hd data = CHR 0x7B
          then (case dec_struct package_fields j zero_package of None \<Rightarrow> Inl InvalidPackageJSON | Some p \<Rightarrow> Inr [p])
          else (case dec_slice zero_package (dec_struct package_fields) j [] of
                  None \<Rightarrow> Inl InvalidPackageJSON | Some ps \<Rightarrow> Inr ps))"

definition ListUpgradableWith :: "golib \<Rightarrow> winget_error + string \<Rightarrow> winget_error + package list" where
  "ListUpgradableWith L run =
     (case run of
        Inr out \<Rightarrow> Parse_packages L out
      | Inl (ExitError code stderr) \<Rightarrow>
          if isModuleMissing stderr then Inl ErrModuleNotInstalled
          else if Contains stderr ''WindowsPowerShellNotSupported'' then Inl ErrPowerShell7Required
          else Inl (ExitError code stderr)
      | Inl err \<Rightarrow> Inl err)"

definition ListUpgradable :: "golib \<Rightarrow> proc_end \<Rightarrow> bool \<Rightarrow> winget_error + package list" where
  "ListUpgradable L p late = ListUpgradableWith L (PowerShell p late)"

definition FilterBySource :: "package list \<Rightarrow> string \<Rightarrow> package list" where
  "FilterBySource pkgs src = (if src = [] then pkgs else filter (\<lambda>p. EqualFold (wp_Source p) src) pkgs)"

section \<open>Merging\<close>

definition ScopeMachine :: string where "ScopeMachine = ''machine''"
definition ScopeUser :: string where "ScopeUser = ''user''"

record upgradable =
  ug_Name :: string
  ug_ID :: string
  ug_InstalledVersion :: string
  ug_AvailableVersion :: string
  ug_Source :: string
  ug_Scope :: string

definition package_key :: "package \<Rightarrow> string" where
  "package_key k = ToLower (wp_ID k) @ [CHR 0x00] @ wp_InstalledVersion k"

definition upgradable_of :: "string \<Rightarrow> package \<Rightarrow> upgradable" where
  "upgradable_of scope k =
     \<lparr>ug_Name = wp_Name k, ug_ID = wp_ID k, ug_InstalledVersion = wp_InstalledVersion k, ug_AvailableVersion = wp_Available k,
      ug_Source = wp_Source k, ug_Scope = scope\<rparr>"

definition add_package :: "string \<Rightarrow> package \<Rightarrow> upgradable list \<times> string set \<Rightarrow> upgradable list \<times> string set" where
  "add_package scope k os =
     (let (out, seen) = os; key = package_key k in
      if key \<in> seen then os else (out @ [upgradable_of scope k], insert key seen))"

definition mergeUpgradable :: "package list \<Rightarrow> package list \<Rightarrow> upgradable list" where
  "mergeUpgradable machine user =
     fst (fold (add_package ScopeUser) user (fold (add_package ScopeMachine) machine ([], {})))"

section \<open>apps.list_upgradable\<close>

definition maxUserScopeError :: nat where "maxUserScopeError = 1000"

record list_payload =
  lp_Packages :: "upgradable list"
  lp_UserScope :: bool
  lp_User :: string
  lp_UserScopeError :: string
  lp_CollectedAt :: string

text \<open>The user's half: nobody logged on, or the account and what its session answered.\<close>

datatype user_half = NoInteractiveUser | UserHalf string "winget_error + package list"

text \<open>
  The loop that cuts the list, on the size of the marshalled payload; it is not clear from
  its text that it ends.
\<close>

partial_function (option) fit_loop :: "(upgradable list \<Rightarrow> nat) \<Rightarrow> upgradable list \<Rightarrow> bool \<Rightarrow> (upgradable list \<times> bool) option" where
  "fit_loop size_of pkgs truncated =
     (if size_of pkgs \<le> resultPayloadBudget \<or> pkgs = [] then Some (pkgs, truncated)
      else let cut = length pkgs div 10; cut = (if cut = 0 then 1 else cut)
           in fit_loop size_of (take (length pkgs - cut) pkgs) True)"

declare fit_loop.simps [code]

definition listUpgradable_error :: "bool \<Rightarrow> winget_error \<Rightarrow> error_code" where
  "listUpgradable_error late err =
     (case err of
        ErrModuleNotInstalled \<Rightarrow> ErrWingetModuleMissing
      | winget_error.ErrPowerShellNotFound \<Rightarrow> error_code.ErrPowerShellNotFound
      | ErrPowerShell7Required \<Rightarrow> error_code.ErrPowerShellNotFound
      | _ \<Rightarrow> if late then ErrTimeout else ErrInternal)"

text \<open>
  \<open>txt\<close> is the text of an error, \<open>sz\<close> the length of a marshalled payload, \<open>late\<close> whether the
  context is over when the two halves are in.
\<close>

definition list_payload_of ::
  "(winget_error \<Rightarrow> string) \<Rightarrow> bool \<Rightarrow> string \<Rightarrow> package list \<Rightarrow> user_half \<Rightarrow> list_payload" where
  "list_payload_of txt late at pkgs user =
     (case user of
        NoInteractiveUser \<Rightarrow>
          \<lparr>lp_Packages = mergeUpgradable pkgs [], lp_UserScope = False, lp_User = [],
           lp_UserScopeError = ''no user is logged on'', lp_CollectedAt = at\<rparr>
      | UserHalf name (Inr upkgs) \<Rightarrow>
          \<lparr>lp_Packages = mergeUpgradable pkgs upkgs, lp_UserScope = True, lp_User = name, lp_UserScopeError = [],
           lp_CollectedAt = at\<rparr>
      | UserHalf name (Inl err) \<Rightarrow>
          (let msg = (if late then ''winget did not answer in time in the user's session'' else txt err)
           in \<lparr>lp_Packages = mergeUpgradable pkgs [], lp_UserScope = False, lp_User = name,
               lp_UserScopeError = (if length msg > maxUserScopeError then take maxUserScopeError msg @ ''...'' else msg),
               lp_CollectedAt = at\<rparr>))"

definition listUpgradable ::
  "(winget_error \<Rightarrow> string) \<Rightarrow> (list_payload \<Rightarrow> nat) \<Rightarrow> bool \<Rightarrow> string \<Rightarrow> winget_error + package list \<Rightarrow> user_half \<Rightarrow>
   (error_code + list_payload \<times> bool) option" where
  "listUpgradable txt sz late at machine user =
     (case machine of
        Inl err \<Rightarrow> Some (Inl (listUpgradable_error late err))
      | Inr pkgs \<Rightarrow>
          (let p = list_payload_of txt late at pkgs user
           in map_option (\<lambda>(ps, truncated). Inr (p\<lparr>lp_Packages := ps\<rparr>, truncated))
                (fit_loop (\<lambda>ps. sz (p\<lparr>lp_Packages := ps\<rparr>)) (lp_Packages p) False)))"

section \<open>Dry runs\<close>

record manifest_check =
  mk_Target :: string
  mk_InstalledVersion :: string
  mk_Channel :: string
  mk_AvailableVersion :: string
  mk_UpdateAvailable :: bool
  mk_Critical :: bool
  mk_MinRequiredVersion :: string
  mk_Decision :: string
  mk_Pending :: "pending_info option"
  mk_Source :: "server_ref option"
  mk_CheckedAt :: string
  mk_Error :: "error_code option"

definition new_check :: "string \<Rightarrow> string \<Rightarrow> string \<Rightarrow> string \<Rightarrow> manifest_check" where
  "new_check target installed channel at =
     \<lparr>mk_Target = target, mk_InstalledVersion = installed, mk_Channel = channel, mk_AvailableVersion = [],
      mk_UpdateAvailable = False, mk_Critical = False, mk_MinRequiredVersion = [], mk_Decision = [], mk_Pending = None,
      mk_Source = None, mk_CheckedAt = at, mk_Error = None\<rparr>"

definition emlyDecision :: "bool \<Rightarrow> bool \<Rightarrow> bool \<Rightarrow> bool \<Rightarrow> string" where
  "emlyDecision newer forced running paused =
     (if \<not> newer then ''up_to_date'' else if paused then ''paused'' else if forced then ''forced''
      else if running then ''waiting_for_emly_exit'' else ''install_next_cycle'')"

text \<open>\<open>deadline\<close> tells whether a cancelled context had reached its deadline.\<close>

definition manifestError :: "bool \<Rightarrow> fetch_error option \<Rightarrow> error_code" where
  "manifestError deadline err =
     (case err of
        Some Resolver.ErrNotFound \<Rightarrow> error_code.ErrNotFound
      | Some ErrContext \<Rightarrow> if deadline then ErrTimeout else ErrSourcesUnreachable
      | _ \<Rightarrow> ErrSourcesUnreachable)"

definition ok_or :: "'a \<Rightarrow> 'e + 'a \<Rightarrow> 'a" where
  "ok_or d r = (case r of Inl _ \<Rightarrow> d | Inr x \<Rightarrow> x)"

record check_env =
  ke_lib :: golib
  ke_cfg :: config
  ke_join :: "url \<Rightarrow> string"
  ke_emly :: "(string \<Rightarrow> string) option"
  ke_state :: "state option"
  ke_manifest :: "(string, manifest) renv"
  ke_updater :: "(string, updater_manifest) renv"
  ke_deadline :: bool
  ke_running :: bool
  ke_now :: time
  ke_pref :: "string option"
  ke_version :: string
  ke_rfc :: "time \<Rightarrow> string"

definition emlyManifestCheck :: "check_env \<Rightarrow> cycle_state \<Rightarrow> manifest_check" where
  "emlyManifestCheck e cyc =
     (let L = ke_lib e;
          emly = ResolveEMLyWithChannel (ke_emly e) (us_Channel (d_Updater (e_Doc (cy_eff cyc))));
          mc = (new_check ''emly'' (if ei_FreshInstall emly then [] else ei_InstalledVersion emly) (ei_Channel emly)
                  (ke_rfc e (ke_now e)))
                 \<lparr>mk_Pending := (case ke_state e of None \<Rightarrow> None | Some st \<Rightarrow> map_option (pendingInfo (ke_rfc e)) (st_Pending st))\<rparr>
      in case fst (resolveTargetWith L (ke_manifest e) cyc (ei_Channel emly) False (ke_pref e)) of
           Inl err \<Rightarrow>
             mc\<lparr>mk_Decision := ''up_to_date'',
                mk_Error := Some (case err of FetchFailure f \<Rightarrow> manifestError (ke_deadline e) f
                                    | TargetFailure _ \<Rightarrow> ErrSourcesUnreachable)\<rparr>
         | Inr (src, m, target) \<Rightarrow>
             (let newer = ok_or False (Less L (ei_InstalledVersion emly) (t_Version target));
                  forced = ok_or False (Forced L m (ei_InstalledVersion emly));
                  enabled = fst (UpdaterEnabled L (cy_eff cyc) (ke_now e))
              in mc\<lparr>mk_AvailableVersion := t_Version target, mk_MinRequiredVersion := m_MinRequiredVersion m,
                    mk_Source := serverRef cyc src, mk_UpdateAvailable := newer, mk_Critical := forced,
                    mk_Decision := emlyDecision newer forced (ke_running e) (\<not> enabled)\<rparr>))"

definition updaterManifestCheck :: "check_env \<Rightarrow> cycle_state \<Rightarrow> manifest_check" where
  "updaterManifestCheck e cyc =
     (let L = ke_lib e; running = ke_version e; mc = new_check ''updater'' running [] (ke_rfc e (ke_now e)) in
      if \<not> tg_Enabled (us_SelfUpdate (d_Updater (e_Doc (cy_eff cyc)))) then mc\<lparr>mk_Decision := ''disabled''\<rparr>
      else case fst (resolveUpdaterManifestWith L (ke_join e) (ke_cfg e) (ke_updater e) cyc False (ke_pref e)) of
        Inl err \<Rightarrow> mc\<lparr>mk_Decision := ''up_to_date'', mk_Error := Some (manifestError (ke_deadline e) err)\<rparr>
      | Inr (src, m, servedBy) \<Rightarrow>
          (let newer = ok_or False (Less L running (um_Version m));
               rec = (case ke_state e of None \<Rightarrow> None | Some st \<Rightarrow> st_SelfUpdate st);
               d = ok_or (no_install NoReleasePublished) (Decide L running (Some m) rec (ke_now e));
               same = (case rec of None \<Rightarrow> False | Some r \<Rightarrow> su_Version r = um_Version m)
           in mc\<lparr>mk_AvailableVersion := um_Version m, mk_Source := serverRef cyc servedBy, mk_UpdateAvailable := newer,
                 mk_Decision :=
                   (if \<not> newer then ''up_to_date''
                    else if de_GiveUp d \<or> (same \<and> (\<exists>r. rec = Some r \<and> su_GaveUp r)) then ''gave_up''
                    else if de_Install d then ''install_next_cycle''
                    else if same then ''cooldown''
                    else ''up_to_date'')\<rparr>))"

section \<open>Lemmas\<close>

definition up_key :: "upgradable \<Rightarrow> string" where
  "up_key u = ToLower (ug_ID u) @ [CHR 0x00] @ ug_InstalledVersion u"

lemma up_key_of [simp]: "up_key (upgradable_of scope k) = package_key k" "ug_Scope (upgradable_of scope k) = scope"
  by (simp_all add: up_key_def package_key_def upgradable_of_def)

text \<open>What the two loops keep: the list has each key once, and \<open>seen\<close> is its keys.\<close>

definition merged :: "package set \<Rightarrow> upgradable list \<times> string set \<Rightarrow> bool" where
  "merged ks os \<longleftrightarrow> distinct (map up_key (fst os)) \<and> snd os = up_key ` set (fst os) \<and> snd os = package_key ` ks \<and>
     (\<forall>u \<in> set (fst os). \<exists>k \<in> ks. u = upgradable_of (ug_Scope u) k)"

lemma merged_add: "merged ks os \<Longrightarrow> merged (insert k ks) (add_package scope k os)"
  by (auto simp: merged_def add_package_def Let_def split: prod.splits)

lemma merged_fold: "merged ks os \<Longrightarrow> merged (ks \<union> set ps) (fold (add_package scope) ps os)"
proof (induction ps arbitrary: ks os)
  case (Cons p ps)
  from Cons.IH [OF merged_add [OF Cons.prems, of p scope]] show ?case by simp
qed simp

lemma fold_scope:
  "snd os = up_key ` set (fst os) \<Longrightarrow>
   \<exists>more. fst (fold (add_package scope) ps os) = fst os @ more \<and> (\<forall>u \<in> set more. ug_Scope u = scope \<and> up_key u \<notin> snd os)"
proof (induction ps arbitrary: os)
  case (Cons p ps)
  let ?os = "add_package scope p os"
  have "snd ?os = up_key ` set (fst ?os)" using Cons.prems by (auto simp: add_package_def Let_def split: prod.splits)
  from Cons.IH [OF this] obtain more where m: "fst (fold (add_package scope) ps ?os) = fst ?os @ more"
    "\<forall>u \<in> set more. ug_Scope u = scope \<and> up_key u \<notin> snd ?os" by blast
  show ?case
  proof (cases "package_key p \<in> snd os")
    case True
    then have "?os = os" by (simp add: add_package_def case_prod_beta Let_def)
    then show ?thesis using m by auto
  next
    case False
    then have "?os = (fst os @ [upgradable_of scope p], insert (package_key p) (snd os))"
      by (simp add: add_package_def case_prod_beta Let_def)
    then show ?thesis using m False by auto
  qed
qed simp

text \<open>The loop returns on every input, with a prefix of what it was given.\<close>

lemma fit_loop_returns:
  "\<exists>ps t. fit_loop size_of pkgs truncated = Some (ps, t) \<and> prefix ps pkgs \<and>
     (ps = [] \<or> size_of ps \<le> resultPayloadBudget) \<and> (t \<longleftrightarrow> truncated \<or> ps \<noteq> pkgs)"
proof (induction "length pkgs" arbitrary: pkgs truncated rule: less_induct)
  case less
  show ?case
  proof (cases "size_of pkgs \<le> resultPayloadBudget \<or> pkgs = []")
    case True
    then show ?thesis by (subst fit_loop.simps) auto
  next
    case False
    define cut where "cut = (if length pkgs div 10 = 0 then 1 else length pkgs div 10)"
    have c: "0 < cut" "cut \<le> length pkgs" using False by (auto simp: cut_def Suc_le_eq)
    then have lt: "length (take (length pkgs - cut) pkgs) < length pkgs" using False by simp
    from less [OF lt, of True] obtain ps t where
      r: "fit_loop size_of (take (length pkgs - cut) pkgs) True = Some (ps, t)" "prefix ps (take (length pkgs - cut) pkgs)"
        "ps = [] \<or> size_of ps \<le> resultPayloadBudget" "t"
      by auto
    have "prefix ps pkgs" using r(2) take_is_prefix prefix_order.trans by blast
    moreover have "ps \<noteq> pkgs" using r(2) lt prefix_length_le by fastforce
    moreover have "fit_loop size_of pkgs truncated = Some (ps, t)"
      using False r(1) by (subst fit_loop.simps) (simp add: Let_def cut_def)
    ultimately show ?thesis using r(3,4) by blast
  qed
qed

lemma Decide_reconciled:
  "Decide L running m (fst (reconcileSelfUpdate L running True ok rec)) now = Decide L running m rec now"
proof (cases rec)
  case (Some r)
  show ?thesis
    using Some
    by (cases "Less L running (su_Version r)"; cases "Offered m"; cases m)
      (auto simp: reconcileSelfUpdate_def Reconcile_def Decide_def Offered_def Let_def split: sum.splits)
qed (simp add: reconcileSelfUpdate_def)

lemma invalid_manifest_reported_unreachable:
  assumes "fst (resolveTargetWith (ke_lib e) (ke_manifest e) cyc
      (ei_Channel (ResolveEMLyWithChannel (ke_emly e) (us_Channel (d_Updater (e_Doc (cy_eff cyc)))))) False (ke_pref e)) =
    Inl (TargetFailure err)"
  shows "mk_Error (emlyManifestCheck e cyc) = Some ErrSourcesUnreachable"
  using assms by (simp add: emlyManifestCheck_def Let_def)

section \<open>Properties\<close>

text \<open>
  C31: The list of upgradable packages always comes back, and fits. Whatever the two halves
  answered and however long the marshalled payload is, the command returns; it fails
  exactly when the machine's half failed; otherwise its packages are a first part of the
  merged list, marked as truncated exactly when something was cut, and the payload is
  within the budget unless nothing is left to cut; and the payload claims the user's
  packages only when the user's session was asked and answered.
\<close>

theorem listUpgradable_returns:
  "\<exists>r. listUpgradable txt sz late at machine user = Some r \<and>
     (case r of
        Inl code \<Rightarrow> \<exists>err. machine = Inl err \<and> code = listUpgradable_error late err
      | Inr (p, truncated) \<Rightarrow>
          \<exists>pkgs. machine = Inr pkgs \<and>
            prefix (lp_Packages p) (lp_Packages (list_payload_of txt late at pkgs user)) \<and>
            (truncated \<longleftrightarrow> lp_Packages p \<noteq> lp_Packages (list_payload_of txt late at pkgs user)) \<and>
            (sz p \<le> resultPayloadBudget \<or> lp_Packages p = []) \<and>
            (lp_UserScope p \<longleftrightarrow> (\<exists>name upkgs. user = UserHalf name (Inr upkgs))))"
proof (cases machine)
  case (Inr pkgs)
  let ?p = "list_payload_of txt late at pkgs user"
  obtain ps t where f: "fit_loop (\<lambda>ps. sz (?p\<lparr>lp_Packages := ps\<rparr>)) (lp_Packages ?p) False = Some (ps, t)"
    "prefix ps (lp_Packages ?p)" "ps = [] \<or> sz (?p\<lparr>lp_Packages := ps\<rparr>) \<le> resultPayloadBudget" "t \<longleftrightarrow> ps \<noteq> lp_Packages ?p"
    using fit_loop_returns [of "\<lambda>ps. sz (?p\<lparr>lp_Packages := ps\<rparr>)" "lp_Packages ?p" False] by auto
  have "lp_UserScope ?p \<longleftrightarrow> (\<exists>name upkgs. user = UserHalf name (Inr upkgs))"
    by (auto simp: list_payload_of_def Let_def split: user_half.splits sum.splits)
  then show ?thesis
    using Inr f by (intro exI [of _ "Inr (?p\<lparr>lp_Packages := ps\<rparr>, t)"]) (auto simp: listUpgradable_def Let_def)
qed (simp add: listUpgradable_def)

text \<open>
  The merged list has every package once. Its keys, the id without case and the installed
  version, are distinct and are those of the two lists together; a package is listed with
  the machine's scope exactly when the machine's half saw it; and every entry is one of
  the packages that were reported.
\<close>

theorem mergeUpgradable_sound:
  "distinct (map up_key (mergeUpgradable machine user)) \<and>
   up_key ` set (mergeUpgradable machine user) = package_key ` (set machine \<union> set user) \<and>
   (\<forall>u \<in> set (mergeUpgradable machine user).
      (ug_Scope u = ScopeMachine \<longleftrightarrow> up_key u \<in> package_key ` set machine) \<and>
      (\<exists>k \<in> set machine \<union> set user. u = upgradable_of (ug_Scope u) k))"
proof -
  let ?os = "fold (add_package ScopeMachine) machine ([], {})"
  have "merged {} ([], {})" by (simp add: merged_def)
  then have m1: "merged (set machine) ?os" using merged_fold [of "{}" "([], {})" machine ScopeMachine] by simp
  then have m2: "merged (set machine \<union> set user) (fold (add_package ScopeUser) user ?os)" by (rule merged_fold)
  obtain more where more: "mergeUpgradable machine user = fst ?os @ more"
    "\<forall>u \<in> set more. ug_Scope u = ScopeUser \<and> up_key u \<notin> snd ?os"
    using fold_scope [of ?os ScopeUser user] m1 unfolding mergeUpgradable_def merged_def by blast
  obtain front where front: "fst ?os = front" "\<forall>u \<in> set front. ug_Scope u = ScopeMachine"
    using fold_scope [of "([], {})" ScopeMachine machine] by auto
  have ne: "ScopeMachine \<noteq> ScopeUser" by (simp add: ScopeMachine_def ScopeUser_def)
  have key1: "snd ?os = package_key ` set machine" using m1 unfolding merged_def by (elim conjE)
  have key2: "snd ?os = up_key ` set front" using m1 unfolding merged_def front(1) [symmetric] by (elim conjE)
  have "ug_Scope u = ScopeMachine \<longleftrightarrow> up_key u \<in> package_key ` set machine"
    if "u \<in> set (mergeUpgradable machine user)" for u
    using that more front ne key1 key2 by auto
  then show ?thesis using m2 unfolding merged_def mergeUpgradable_def by blast
qed

text \<open>
  C32: The updater's dry run predicts the next cycle. When the channel command reports
  \<^verbatim>\<open>install_next_cycle\<close>, the decision a cycle takes at that moment, on the record it
  first reconciles, is to install, and the other way round; it reports that an update was
  given up exactly when the cycle gives up or has given up on the offered version.
\<close>

theorem updater_check_predicts_cycle:
  assumes "tg_Enabled (us_SelfUpdate (d_Updater (e_Doc (cy_eff cyc))))"
    and "fst (resolveUpdaterManifestWith (ke_lib e) (ke_join e) (ke_cfg e) (ke_updater e) cyc False (ke_pref e)) = Inr (src, m, url)"
    and "ke_state e = Some st"
    and "d = Decide (ke_lib e) (ke_version e) (Some m)
           (fst (reconcileSelfUpdate (ke_lib e) (ke_version e) True ok (st_SelfUpdate st))) (ke_now e)"
  shows "(mk_Decision (updaterManifestCheck e cyc) = ''install_next_cycle'' \<longleftrightarrow> (\<exists>x. d = Inr x \<and> de_Install x)) \<and>
    (Offered (Some m) \<longrightarrow> (mk_Decision (updaterManifestCheck e cyc) = ''gave_up'' \<longleftrightarrow>
       (\<exists>x. d = Inr x \<and> (de_GiveUp x \<or> (\<exists>n. de_Reason x = Abandoned (um_Version m) n)))))"
proof -
  have d: "d = Decide (ke_lib e) (ke_version e) (Some m) (st_SelfUpdate st) (ke_now e)"
    unfolding assms(4) by (rule Decide_reconciled)
  show ?thesis
    using assms(1-3) unfolding d
    by (cases "Less (ke_lib e) (ke_version e) (um_Version m)"; cases "st_SelfUpdate st")
      (auto simp: updaterManifestCheck_def Let_def Decide_def ok_or_def no_install_def new_check_def)
qed

section \<open>Witnesses\<close>

definition demo_package :: "string \<Rightarrow> package" where
  "demo_package i = zero_package\<lparr>wp_ID := i, wp_InstalledVersion := ''1''\<rparr>"

theorem mergeUpgradable_sound_witness:
  "\<forall>u \<in> set (mergeUpgradable [demo_package ''7''] [demo_package ''7'', demo_package ''8'']).
     ug_Scope u = ScopeMachine \<longleftrightarrow> up_key u \<in> package_key ` {demo_package ''7''}"
  using mergeUpgradable_sound [of "[demo_package ''7'']" "[demo_package ''7'', demo_package ''8'']"] by simp

definition demo_check_env :: check_env where
  "demo_check_env = \<lparr>ke_lib = demo_config_lib, ke_cfg = demo_config\<lparr>cf_SelfUpdateManifestURL := ''https://u''\<rparr>, ke_join = (\<lambda>_. []),
     ke_emly = None, ke_state = Some empty_state,
     ke_manifest = \<lparr>re_fetch = (\<lambda>_ _. Inl Resolver.ErrNotFound), re_done = (\<lambda>_. False), re_wait = (\<lambda>_. False)\<rparr>,
     ke_updater = \<lparr>re_fetch = (\<lambda>_ _. Inr (zero_updater_manifest\<lparr>um_Version := ''1.10''\<rparr>)), re_done = (\<lambda>_. False), re_wait = (\<lambda>_. False)\<rparr>,
     ke_deadline = False, ke_running = False, ke_now = 1, ke_pref = None, ke_version = ''1.0'', ke_rfc = (\<lambda>_. [])\<rparr>"

lemma demo_check_served:
  "fst (resolveUpdaterManifestWith (ke_lib demo_check_env) (ke_join demo_check_env) (ke_cfg demo_check_env)
     (ke_updater demo_check_env) demo_cycle_state False (ke_pref demo_check_env)) =
   Inr (''https://i/m'', zero_updater_manifest\<lparr>um_Version := ''1.10''\<rparr>, ''https://u'')"
  by code_simp

theorem updater_check_predicts_cycle_witness:
  "mk_Decision (updaterManifestCheck demo_check_env demo_cycle_state) = ''install_next_cycle''"
proof -
  have e: "tg_Enabled (us_SelfUpdate (d_Updater (e_Doc (cy_eff demo_cycle_state))))" by code_simp
  have s: "ke_state demo_check_env = Some empty_state" by (simp add: demo_check_env_def)
  have "\<exists>x. Decide (ke_lib demo_check_env) (ke_version demo_check_env) (Some (zero_updater_manifest\<lparr>um_Version := ''1.10''\<rparr>))
      (fst (reconcileSelfUpdate (ke_lib demo_check_env) (ke_version demo_check_env) True True (st_SelfUpdate empty_state)))
      (ke_now demo_check_env) = Inr x \<and> de_Install x"
    by (simp add: demo_check_env_def demo_config_lib_def empty_state_def reconcileSelfUpdate_def Decide_def Offered_def Less_def)
  then show ?thesis using updater_check_predicts_cycle [OF e demo_check_served s refl, of True] by blast
qed

end
