(* ===== verification/ReadOnly.thy ===== *)
theory ReadOnly
  imports Inventory
begin

text \<open>
  \<^verbatim>\<open>runReadOnly\<close> of \<^verbatim>\<open>clientcmd.go\<close> and the result built from it: the four read-only commands on the
  handlers of \<^verbatim>\<open>Telemetry\<close> and \<^verbatim>\<open>Inventory\<close>, run by the command execution of \<^verbatim>\<open>ClientCmd\<close>.
\<close>

section \<open>Running a command\<close>

datatype read_only = InfoPayload machine_payload | CheckPayload manifest_check | ListPayload list_payload

text \<open>
  What the handlers read: the facts of the machine, of the dry runs and of the package lists,
  the policy of the cycle the command met, and whether a payload can be marshalled.
\<close>

record read_env =
  rn_info :: info_env
  rn_check :: check_env
  rn_cyc :: cycle_state
  rn_txt :: "winget_error \<Rightarrow> string"
  rn_size :: "list_payload \<Rightarrow> nat"
  rn_late :: bool
  rn_at :: string
  rn_machine :: "winget_error + package list"
  rn_user :: user_half
  rn_marshals :: "read_only \<Rightarrow> bool"

text \<open>The arguments of \<^verbatim>\<open>machine.info\<close> as the handler reads them, ignoring a decode error.\<close>

definition infoSections :: "json option \<Rightarrow> string list" where
  "infoSections raw = (case DecodeArgs section_fields raw [] of None \<Rightarrow> [] | Some s \<Rightarrow> s)"

text \<open>\<^verbatim>\<open>runReadOnly\<close>: payload or error, and whether the payload was cut; \<open>None\<close> while it has not returned.\<close>

definition runReadOnly :: "read_env \<Rightarrow> command \<Rightarrow> ((error_code + read_only) \<times> bool) option" where
  "runReadOnly e cmd =
     (if cm_Name cmd = CmdMachineInfo then
        Some (Inr (InfoPayload (machineInfo (rn_info e) (infoSections (cm_Args cmd)))), False)
      else if cm_Name cmd = CmdEMLyManifestCheck then
        Some (Inr (CheckPayload (emlyManifestCheck (rn_check e) (rn_cyc e))), False)
      else if cm_Name cmd = CmdUpdaterManifestCheck then
        Some (Inr (CheckPayload (updaterManifestCheck (rn_check e) (rn_cyc e))), False)
      else if cm_Name cmd = CmdAppsListUpgradable then
        map_option (\<lambda>r. case r of Inl err \<Rightarrow> (Inl err, False) | Inr (p, truncated) \<Rightarrow> (Inr (ListPayload p), truncated))
          (listUpgradable (rn_txt e) (rn_size e) (rn_late e) (rn_at e) (rn_machine e) (rn_user e))
      else Some (Inl ErrUnsupportedCommand, False))"

text \<open>The result \<^verbatim>\<open>executeCommand\<close> stores and sends.\<close>

definition read_only_result :: "read_env \<Rightarrow> command \<Rightarrow> read_only result option" where
  "read_only_result e cmd =
     map_option (\<lambda>(r, truncated).
       case r of
         Inl err \<Rightarrow> \<lparr>rs_Status = False, rs_Payload = None, rs_Error = Some err, rs_Truncated = truncated\<rparr>
       | Inr p \<Rightarrow>
           if rn_marshals e p
           then \<lparr>rs_Status = True, rs_Payload = Some p, rs_Error = None, rs_Truncated = truncated\<rparr>
           else \<lparr>rs_Status = False, rs_Payload = None, rs_Error = Some ErrInternal, rs_Truncated = truncated\<rparr>)
       (runReadOnly e cmd)"

text \<open>The whole of \<^verbatim>\<open>executeCommand\<close> for a read-only command.\<close>

definition execute_read_only ::
  "golib \<Rightarrow> read_only cmd_env \<Rightarrow> read_env \<Rightarrow> envelope \<Rightarrow> command \<Rightarrow> read_only cmd_world \<Rightarrow> read_only cmd_world option" where
  "execute_read_only L e re msg cmd w =
     map_option (\<lambda>res. executeCommand L (e\<lparr>ce_result := res\<rparr>) msg cmd w) (read_only_result re cmd)"

section \<open>Lemmas\<close>

lemma listUpgradable_total:
  "\<exists>r. listUpgradable txt sz late at machine user = Some r \<and> r \<noteq> Inl ErrUnsupportedCommand"
proof (cases machine)
  case (Inl err)
  then show ?thesis by (cases err) (simp_all add: listUpgradable_def listUpgradable_error_def)
next
  case (Inr pkgs)
  let ?p = "list_payload_of txt late at pkgs user"
  obtain ps t where "fit_loop (\<lambda>ps. sz (?p\<lparr>lp_Packages := ps\<rparr>)) (lp_Packages ?p) False = Some (ps, t)"
    using fit_loop_returns [of "\<lambda>ps. sz (?p\<lparr>lp_Packages := ps\<rparr>)" "lp_Packages ?p" False] by blast
  then show ?thesis using Inr by (simp add: listUpgradable_def Let_def)
qed

lemma command_names_apart:
  "CmdMachineInfo \<noteq> CmdEMLyManifestCheck" "CmdMachineInfo \<noteq> CmdUpdaterManifestCheck" "CmdMachineInfo \<noteq> CmdAppsListUpgradable"
  "CmdEMLyManifestCheck \<noteq> CmdUpdaterManifestCheck" "CmdEMLyManifestCheck \<noteq> CmdAppsListUpgradable"
  "CmdUpdaterManifestCheck \<noteq> CmdAppsListUpgradable"
  by (simp_all add: command_defs)

text \<open>The payload a command is answered with.\<close>

definition answers :: "read_env \<Rightarrow> command \<Rightarrow> read_only \<Rightarrow> bool \<Rightarrow> bool" where
  "answers e cmd p truncated \<longleftrightarrow>
     cm_Name cmd = CmdMachineInfo \<and> p = InfoPayload (machineInfo (rn_info e) (infoSections (cm_Args cmd))) \<and> \<not> truncated \<or>
     cm_Name cmd = CmdEMLyManifestCheck \<and> p = CheckPayload (emlyManifestCheck (rn_check e) (rn_cyc e)) \<and> \<not> truncated \<or>
     cm_Name cmd = CmdUpdaterManifestCheck \<and> p = CheckPayload (updaterManifestCheck (rn_check e) (rn_cyc e)) \<and> \<not> truncated \<or>
     cm_Name cmd = CmdAppsListUpgradable \<and>
       (\<exists>l. p = ListPayload l \<and>
          listUpgradable (rn_txt e) (rn_size e) (rn_late e) (rn_at e) (rn_machine e) (rn_user e) = Some (Inr (l, truncated)))"

lemma runReadOnly_answers:
  assumes "cm_Name cmd \<in> set CommandNames" "\<not> Destructive (cm_Name cmd)"
  shows "\<exists>r t. runReadOnly e cmd = Some (r, t) \<and> r \<noteq> Inl ErrUnsupportedCommand \<and> (\<forall>p. r = Inr p \<longrightarrow> answers e cmd p t)"
proof (cases "cm_Name cmd = CmdAppsListUpgradable")
  case True
  obtain r where "listUpgradable (rn_txt e) (rn_size e) (rn_late e) (rn_at e) (rn_machine e) (rn_user e) = Some r"
    "r \<noteq> Inl ErrUnsupportedCommand" using listUpgradable_total by blast
  then show ?thesis using True command_names_apart
    by (cases r) (auto simp: runReadOnly_def answers_def)
next
  case False
  then have "cm_Name cmd = CmdMachineInfo \<or> cm_Name cmd = CmdEMLyManifestCheck \<or> cm_Name cmd = CmdUpdaterManifestCheck"
    using assms by (auto simp: CommandNames_def Destructive_def)
  then show ?thesis using command_names_apart
    by (elim disjE) (auto simp: runReadOnly_def answers_def)
qed

lemma executeCommand_read_only:
  assumes "ms_ID msg \<noteq> []" "\<not> seen (cw_ring w) (ms_ID msg)" "\<not> Destructive (cm_Name cmd)"
    and "fst (admitCommand L (ce_admit e) msg cmd (pw_gate (cw_power w))) = None"
    and "cm_Name cmd \<notin> cw_running w" "ce_ack_ok e"
  shows "cw_sent (executeCommand L e msg cmd w) =
      cw_sent w @ [SentAck (ms_ID msg) (accepted_ack False), SentResult (ms_ID msg) (ce_result e)]"
    "cw_ring (executeCommand L e msg cmd w) = ring_store (ms_ID msg) (ce_result e) (ring_add (ms_ID msg) (cw_ring w))"
proof -
  obtain g gone where a: "admitCommand L (ce_admit e) msg cmd (pw_gate (cw_power w)) = (None, g, gone)"
    using assms(4) by (metis prod_cases3 fst_conv)
  show "cw_sent (executeCommand L e msg cmd w) =
      cw_sent w @ [SentAck (ms_ID msg) (accepted_ack False), SentResult (ms_ID msg) (ce_result e)]"
    "cw_ring (executeCommand L e msg cmd w) = ring_store (ms_ID msg) (ce_result e) (ring_add (ms_ID msg) (cw_ring w))"
    using assms a by (simp_all add: executeCommand_def ring_lookup_seen executeFresh_def Let_def send_def claimCommand_def)
qed

section \<open>Properties\<close>

text \<open>
  C15: An admitted read-only command is answered with the truth. When a new command that is not
  destructive passes admission, is not running already and its acceptance can be sent, then
  handling it returns; exactly the acceptance and one result are sent, in this order, and the
  result is the one stored for a redelivery; it is never the refusal of an unknown command;
  and it either carries an error and no payload, or the payload the command's own handler
  computed from the machine, with the mark that it was cut when it was.
\<close>

theorem read_only_answered:
  assumes "ms_ID msg \<noteq> []" "\<not> seen (cw_ring w) (ms_ID msg)" "\<not> Destructive (cm_Name cmd)"
    and "fst (admitCommand L (ce_admit e) msg cmd (pw_gate (cw_power w))) = None"
    and "cm_Name cmd \<notin> cw_running w" "ce_ack_ok e"
  shows "\<exists>w' res. execute_read_only L e re msg cmd w = Some w' \<and>
    cw_sent w' = cw_sent w @ [SentAck (ms_ID msg) (accepted_ack False), SentResult (ms_ID msg) res] \<and>
    cw_ring w' = ring_store (ms_ID msg) res (ring_add (ms_ID msg) (cw_ring w)) \<and>
    rs_Error res \<noteq> Some ErrUnsupportedCommand \<and>
    (rs_Status res \<longleftrightarrow> rs_Error res = None) \<and> (rs_Status res \<longleftrightarrow> rs_Payload res \<noteq> None) \<and>
    (\<forall>p. rs_Payload res = Some p \<longrightarrow> answers re cmd p (rs_Truncated res))"
proof -
  have "cm_Name cmd \<in> set CommandNames"
    using admitCommand_None [OF assms(4)] ValidateArgs_known by blast
  from runReadOnly_answers [OF this assms(3)] obtain r t where r: "runReadOnly re cmd = Some (r, t)"
    "r \<noteq> Inl ErrUnsupportedCommand" "\<forall>p. r = Inr p \<longrightarrow> answers re cmd p t" by blast
  obtain res where res: "read_only_result re cmd = Some res" "rs_Error res \<noteq> Some ErrUnsupportedCommand"
    "rs_Status res \<longleftrightarrow> rs_Error res = None" "rs_Status res \<longleftrightarrow> rs_Payload res \<noteq> None"
    "\<forall>p. rs_Payload res = Some p \<longrightarrow> answers re cmd p (rs_Truncated res)"
    using r by (cases r) (auto simp: read_only_result_def)
  let ?w = "executeCommand L (e\<lparr>ce_result := res\<rparr>) msg cmd w"
  have "cw_sent ?w = cw_sent w @ [SentAck (ms_ID msg) (accepted_ack False), SentResult (ms_ID msg) res]"
    "cw_ring ?w = ring_store (ms_ID msg) res (ring_add (ms_ID msg) (cw_ring w))"
    using executeCommand_read_only [of msg w cmd L "e\<lparr>ce_result := res\<rparr>"] assms by simp_all
  moreover have "execute_read_only L e re msg cmd w = Some ?w" using res(1) by (simp add: execute_read_only_def)
  ultimately show ?thesis using res(2-5) by (intro exI [of _ ?w] exI [of _ res] conjI)
qed

section \<open>A concrete command\<close>

definition demo_read_env :: read_env where
  "demo_read_env = \<lparr>rn_info = demo_info_env, rn_check = demo_check_env, rn_cyc = demo_cycle_state, rn_txt = (\<lambda>_. []),
     rn_size = (\<lambda>p. length (lp_Packages p)), rn_late = False, rn_at = [], rn_machine = Inr [demo_package ''a''],
     rn_user = NoInteractiveUser, rn_marshals = (\<lambda>_. True)\<rparr>"

definition demo_read_cmd_env :: "read_only cmd_env" where
  "demo_read_cmd_env = \<lparr>ce_admit = ce_admit demo_cmd_env, ce_ack_ok = True, ce_power = demo_power_env,
     ce_result = \<lparr>rs_Status = False, rs_Payload = None, rs_Error = None, rs_Truncated = False\<rparr>\<rparr>"

definition demo_read_world :: "read_only cmd_world" where
  "demo_read_world = \<lparr>cw_ring = empty_ring, cw_running = {}, cw_power = demo_power_world, cw_sent = [], cw_executed = []\<rparr>"

theorem read_only_answered_witness:
  "\<exists>w' res. execute_read_only demo_lib demo_read_cmd_env demo_read_env demo_msg demo_command demo_read_world = Some w' \<and>
     cw_sent w' = [SentAck ''c1'' (accepted_ack False), SentResult ''c1'' res] \<and> rs_Error res \<noteq> Some ErrUnsupportedCommand"
proof -
  have new: "ms_ID demo_msg \<noteq> []" "\<not> seen (cw_ring demo_read_world) (ms_ID demo_msg)"
    by (simp_all add: demo_msg_def demo_read_world_def seen_def empty_ring_def)
  have adm: "fst (admitCommand demo_lib (ce_admit demo_read_cmd_env) demo_msg demo_command (pw_gate (cw_power demo_read_world))) = None"
    using demo_admitted
    by (simp add: admitCommand_def admitDestructive_def demo_read_cmd_env_def demo_cmd_env_def Allows_def
        DefaultClientWSCommands_def demo_command_def command_defs)
  have free: "cm_Name demo_command \<notin> cw_running demo_read_world" "ce_ack_ok demo_read_cmd_env"
    by (simp_all add: demo_read_world_def demo_read_cmd_env_def)
  have "cw_sent demo_read_world = []" "ms_ID demo_msg = ''c1''" by (simp_all add: demo_read_world_def demo_msg_def)
  then show ?thesis
    using read_only_answered [OF new demo_admitted(2) adm free, of demo_read_env] by auto
qed

end
