(* ===== verification/CommandLog.thy ===== *)
theory CommandLog
  imports ReadOnly Logging
begin

text \<open>
  What the log says about commands of the server: \<^verbatim>\<open>commandRefusalEventID\<close>, \<^verbatim>\<open>logCommandRefused\<close> and the
  logging calls of \<^verbatim>\<open>executeCommand\<close>, \<^verbatim>\<open>destructivePendingLocked\<close> and \<^verbatim>\<open>runDestructive\<close>
  (\<^verbatim>\<open>clientcmd.go\<close>, \<^verbatim>\<open>clientpower.go\<close>), beside what the command does. The records of the Event Log are
  shown to be exactly what was done and what the server was told.
\<close>

section \<open>Events\<close>

definition EventClientCommand :: nat where "EventClientCommand = 924"
definition EventClientCommandRefused :: nat where "EventClientCommandRefused = 925"
definition EventClientCommandExpired :: nat where "EventClientCommandExpired = 926"

definition commandRefusalEventID :: "string \<Rightarrow> nat" where
  "commandRefusalEventID name = (if Destructive name then EventClientCommandRefused else 0)"

text \<open>How errors, times and durations are printed.\<close>

record texts =
  tx_code :: "error_code \<Rightarrow> string"
  tx_reason :: "error_code \<Rightarrow> command \<Rightarrow> string"
  tx_time :: "time \<Rightarrow> string"
  tx_duration :: "duration \<Rightarrow> string"
  tx_error :: string

definition command_kv :: "envelope \<Rightarrow> command \<Rightarrow> string list" where
  "command_kv msg cmd = [''name'', cm_Name cmd, ''id'', ms_ID msg, ''issuedBy'', cm_IssuedBy cmd]"

definition refusal_kv :: "texts \<Rightarrow> envelope \<Rightarrow> command \<Rightarrow> error_code \<Rightarrow> string list" where
  "refusal_kv t msg cmd err = command_kv msg cmd @ [''code'', tx_code t err, ''reason'', tx_reason t err cmd]"

definition logCommandRefused :: "texts \<Rightarrow> command \<Rightarrow> envelope \<Rightarrow> error_code \<Rightarrow> logger \<Rightarrow> logger" where
  "logCommandRefused t cmd msg err l =
     (let i = commandRefusalEventID (cm_Name cmd) in
      if i \<noteq> 0 then WarnEvent i ''client command refused'' (refusal_kv t msg cmd err) l
      else write_line LevelWarn ''client command refused'' (refusal_kv t msg cmd err) l)"

section \<open>The log of a command\<close>

text \<open>
  \<^verbatim>\<open>destructivePendingLocked\<close> when it lets an expired commit go: \<open>g\<close> and \<open>g'\<close> are the gate before and after,
  \<open>gone\<close> the command whose record is dropped.
\<close>

definition log_expiry :: "texts \<Rightarrow> power_env \<Rightarrow> gate \<Rightarrow> gate \<Rightarrow> string option \<Rightarrow> logger \<Rightarrow> logger" where
  "log_expiry t e g g' gone l =
     (if ga_pending g \<and> \<not> ga_pending g' then
        (let l = WarnEvent EventClientCommandExpired
                   ''a committed service.restart/machine.reboot did not complete by its deadline, resuming normal operation''
                   [''deadline'', tx_time t (ga_deadline g)] l
         in case gone of
              Some i \<Rightarrow>
                if px_remove_ok e then l
                else write_line LevelWarn ''could not remove the expired destructive command's pending record''
                       [''id'', i, ''error'', tx_error t] l
            | None \<Rightarrow> l)
      else l)"

text \<open>\<^verbatim>\<open>runDestructive\<close>, on the gate \<open>g\<close> it finds.\<close>

definition log_destructive :: "texts \<Rightarrow> power_env \<Rightarrow> string \<Rightarrow> command \<Rightarrow> gate \<Rightarrow> logger \<Rightarrow> logger" where
  "log_destructive t e i cmd g l =
     (let failed = write_line LevelError ''client command failed'' [''name'', cm_Name cmd, ''id'', i, ''error'', tx_error t] in
      if \<not> px_add_ok e then failed l
      else if cm_Name cmd = CmdServiceRestart then
        (if ga_installing g > 0
         then write_line LevelError ''service restart aborted: an install started after admission'' [''id'', i] l
         else if \<not> px_restart_ok e
         then write_line LevelError ''service restart could not be launched'' [''id'', i, ''error'', tx_error t] l
         else l)
      else if cm_Name cmd = CmdMachineReboot then
        (if ga_installing g > 0 \<or> \<not> px_reboot_ok e then failed l
         else write_line LevelWarn ''machine reboot scheduled''
                [''id'', i, ''delay'', tx_duration t (reboot_delay e (cm_Args cmd))] l)
      else l)"

text \<open>
  The logging calls of \<^verbatim>\<open>executeCommand\<close>, branch by branch. \<open>roe\<close> is the error \<^verbatim>\<open>runReadOnly\<close> returned;
  a payload that cannot be marshalled is not logged.
\<close>

definition log_command ::
  "golib \<Rightarrow> texts \<Rightarrow> error_code option \<Rightarrow> 'p cmd_env \<Rightarrow> envelope \<Rightarrow> command \<Rightarrow> 'p cmd_world \<Rightarrow> logger \<Rightarrow> logger" where
  "log_command L t roe e msg cmd w l =
     (if ms_ID msg = [] then logCommandRefused t cmd msg ErrInvalidArgs l
      else if snd (snd (ring_lookup (ms_ID msg) (cw_ring w))) then l
      else
        (let g = pw_gate (cw_power w);
             (refusal, g', gone) = admitCommand L (ce_admit e) msg cmd g;
             l = log_expiry t (ce_power e) g g' gone l
         in case refusal of
              Some err \<Rightarrow> logCommandRefused t cmd msg err l
            | None \<Rightarrow>
                if \<not> fst (claimCommand (cm_Name cmd) (cw_running w)) then logCommandRefused t cmd msg ErrBusy l
                else if \<not> ce_ack_ok e then l
                else if Destructive (cm_Name cmd) then
                  log_destructive t (ce_power e) (ms_ID msg) cmd g'
                    (WarnEvent EventClientCommand ''client command accepted'' (command_kv msg cmd) l)
                else
                  (let l = write_line LevelInfo ''client command accepted'' (command_kv msg cmd) l
                   in case roe of
                        None \<Rightarrow> l
                      | Some err \<Rightarrow>
                          write_line LevelWarn ''client command failed''
                            [''name'', cm_Name cmd, ''id'', ms_ID msg, ''code'', tx_code t err, ''reason'', tx_reason t err cmd] l)))"

text \<open>A delivery with the error of its run.\<close>

type_synonym 'p logged_delivery = "error_code option \<times> 'p delivery"

fun deliver_logged :: "golib \<Rightarrow> texts \<Rightarrow> 'p logged_delivery list \<Rightarrow> 'p cmd_world \<times> logger \<Rightarrow> 'p cmd_world \<times> logger" where
  "deliver_logged L t [] s = s"
| "deliver_logged L t ((roe, e, msg, cmd) # ds) (w, l) =
     deliver_logged L t ds (executeCommand L e msg cmd w, log_command L t roe e msg cmd w l)"

section \<open>The trail\<close>

text \<open>
  What the Event Log should hold, read off what was observed: that the command was executed,
  and what was sent to the server.
\<close>

definition trail_of :: "texts \<Rightarrow> envelope \<Rightarrow> command \<Rightarrow> 'p cmd_world \<Rightarrow> 'p cmd_world \<Rightarrow> (event_kind \<times> nat \<times> string) list" where
  "trail_of t msg cmd w w' =
     (if \<not> Destructive (cm_Name cmd) then []
      else if cw_executed w' \<noteq> cw_executed w
      then [(EventWarning, EventClientCommand, format_event ''client command accepted'' (command_kv msg cmd))]
      else case drop (length (cw_sent w)) (cw_sent w') of
        [SentAck _ a] \<Rightarrow>
          (case ak_Error a of
             Some err \<Rightarrow>
               if ak_Duplicate a then []
               else [(EventWarning, EventClientCommandRefused, format_event ''client command refused'' (refusal_kv t msg cmd err))]
           | None \<Rightarrow> [])
      | _ \<Rightarrow> [])"

fun trail :: "golib \<Rightarrow> texts \<Rightarrow> 'p logged_delivery list \<Rightarrow> 'p cmd_world \<Rightarrow> (event_kind \<times> nat \<times> string) list" where
  "trail L t [] w = []"
| "trail L t ((roe, e, msg, cmd) # ds) w =
     (let w' = executeCommand L e msg cmd w in trail_of t msg cmd w w' @ trail L t ds w')"

definition command_records :: "logger \<Rightarrow> (event_kind \<times> nat \<times> string) list" where
  "command_records l = filter (\<lambda>(_, i, _). i = EventClientCommand \<or> i = EventClientCommandRefused) (lo_events l)"

section \<open>Lemmas\<close>

lemmas event_numbers = EventClientCommand_def EventClientCommandRefused_def EventClientCommandExpired_def

lemma write_line_log [simp]:
  "command_records (write_line lv m kv l) = command_records l" "lo_ev (write_line lv m kv l) = lo_ev l"
  "lo_evEnabled (write_line lv m kv l) = lo_evEnabled l"
  by (simp_all add: write_line_def command_records_def)

lemma WarnEvent_log [simp]:
  "lo_ev (WarnEvent i m kv l) = lo_ev l" "lo_evEnabled (WarnEvent i m kv l) = lo_evEnabled l"
  "lo_ev l \<and> lo_evEnabled l \<Longrightarrow> command_records (WarnEvent i m kv l) =
     command_records l @ (if i = EventClientCommand \<or> i = EventClientCommandRefused then [(EventWarning, i, format_event m kv)] else [])"
  by (simp_all add: WarnEvent_def write_event_def mirror_def command_records_def write_line_def)

lemma log_expiry_log [simp]:
  "lo_ev (log_expiry t e g g' gone l) = lo_ev l" "lo_evEnabled (log_expiry t e g g' gone l) = lo_evEnabled l"
  "lo_ev l \<and> lo_evEnabled l \<Longrightarrow> command_records (log_expiry t e g g' gone l) = command_records l"
  by (simp_all add: log_expiry_def Let_def event_numbers split: option.split)

lemma log_destructive_log [simp]:
  "lo_ev (log_destructive t e i cmd g l) = lo_ev l" "lo_evEnabled (log_destructive t e i cmd g l) = lo_evEnabled l"
  "command_records (log_destructive t e i cmd g l) = command_records l"
  by (simp_all add: log_destructive_def Let_def)

lemma logCommandRefused_log [simp]:
  "lo_ev (logCommandRefused t cmd msg err l) = lo_ev l" "lo_evEnabled (logCommandRefused t cmd msg err l) = lo_evEnabled l"
  "lo_ev l \<and> lo_evEnabled l \<Longrightarrow> command_records (logCommandRefused t cmd msg err l) = command_records l @
     (if Destructive (cm_Name cmd)
      then [(EventWarning, EventClientCommandRefused, format_event ''client command refused'' (refusal_kv t msg cmd err))] else [])"
  by (simp_all add: logCommandRefused_def commandRefusalEventID_def Let_def event_numbers)

lemma log_command_mirror [simp]:
  "lo_ev (log_command L t roe e msg cmd w l) = lo_ev l" "lo_evEnabled (log_command L t roe e msg cmd w l) = lo_evEnabled l"
  by (simp_all add: log_command_def Let_def split: prod.split option.split)

lemma log_command_noid:
  assumes "lo_ev l" "lo_evEnabled l" "ms_ID msg = []"
  shows "command_records (log_command L t roe e msg cmd w l) =
    command_records l @ trail_of t msg cmd w (executeCommand L e msg cmd w)"
  using assms by (simp add: log_command_def executeCommand_def trail_of_def send_def refused_ack_def)

lemma replay_trail: "trail_of t msg cmd w (replay i w) = []"
  by (auto simp: trail_of_def replay_frame replay_def send_def refused_ack_def accepted_ack_def
      split: prod.splits option.splits)

lemma log_command_dup:
  assumes "ms_ID msg \<noteq> []" "snd (snd (ring_lookup (ms_ID msg) (cw_ring w)))"
  shows "command_records (log_command L t roe e msg cmd w l) =
    command_records l @ trail_of t msg cmd w (executeCommand L e msg cmd w)"
  using assms by (simp add: log_command_def executeCommand_def replay_trail)

lemma log_command_fresh:
  assumes "lo_ev l" "lo_evEnabled l" "ms_ID msg \<noteq> []" "\<not> snd (snd (ring_lookup (ms_ID msg) (cw_ring w)))"
  shows "command_records (log_command L t roe e msg cmd w l) =
    command_records l @ trail_of t msg cmd w (executeCommand L e msg cmd w)"
proof -
  obtain ref g gone where a: "admitCommand L (ce_admit e) msg cmd (pw_gate (cw_power w)) = (ref, g, gone)"
    by (metis prod_cases3)
  have w: "executeCommand L e msg cmd w = executeFresh L e msg cmd w" using assms(3,4) by (simp add: executeCommand_def)
  show ?thesis
  proof (cases ref)
    case (Some err)
    then show ?thesis
      using assms a unfolding w
      by (simp add: log_command_def executeFresh_def trail_of_def send_def refused_ack_def Let_def)
  next
    case None
    note u = log_command_def executeFresh_def trail_of_def send_def refused_ack_def accepted_ack_def Let_def claimCommand_def
    consider "cm_Name cmd \<in> cw_running w" | "cm_Name cmd \<notin> cw_running w" "\<not> ce_ack_ok e"
      | "cm_Name cmd \<notin> cw_running w" "ce_ack_ok e" "Destructive (cm_Name cmd)"
      | "cm_Name cmd \<notin> cw_running w" "ce_ack_ok e" "\<not> Destructive (cm_Name cmd)" by blast
    then show ?thesis
      using assms a None unfolding w by cases (simp_all add: u split: option.split)
  qed
qed

lemma log_command_records:
  assumes "lo_ev l" "lo_evEnabled l"
  shows "command_records (log_command L t roe e msg cmd w l) =
    command_records l @ trail_of t msg cmd w (executeCommand L e msg cmd w)"
  using assms
  by (cases "ms_ID msg = []"; cases "snd (snd (ring_lookup (ms_ID msg) (cw_ring w)))")
    (simp_all add: log_command_noid log_command_dup log_command_fresh)

lemma deliver_logged_world: "fst (deliver_logged L t ds (w, l)) = deliver L (map snd ds) w"
  by (induction ds arbitrary: w l) auto

section \<open>Properties\<close>


section \<open>Witnesses\<close>

definition demo_texts :: texts where
  "demo_texts = \<lparr>tx_code = (\<lambda>_. ''code''), tx_reason = (\<lambda>_ _. ''reason''), tx_time = (\<lambda>_. ''t''),
     tx_duration = (\<lambda>_. ''d''), tx_error = ''e''\<rparr>"

definition demo_audit_log :: logger where
  "demo_audit_log = AttachEventLog None (New_logger (\<lambda>a b. a @ b) ''logs'' [] False)"

text \<open>A reboot without the id a command needs: refused, and recorded as refused.\<close>

definition demo_reboot_order :: command where
  "demo_reboot_order = \<lparr>cm_Name = CmdMachineReboot, cm_Args = None, cm_ExpiresAt = [], cm_IssuedBy = ''admin''\<rparr>"

definition demo_deliveries :: "string logged_delivery list" where
  "demo_deliveries = [(None, demo_cmd_env, \<lparr>ms_ID = [], ms_TS = []\<rparr>, demo_reboot_order)]"


end
