(* ===== verification/Tools.thy ===== *)
theory Tools
  imports Inventory
begin

text \<open>
  The two programs under \<^verbatim>\<open>tools/\<close>: \<^verbatim>\<open>genversion\<close>, which carries the version of \<^verbatim>\<open>versioninfo.json\<close> to
  the Go constant and to the installer script, with the regular expression it searches and the
  template it replaces with written out as \<^verbatim>\<open>regexp\<close> runs them, and \<^verbatim>\<open>winget-update-parser\<close>. Texts are
  bytes; what is said of \<^verbatim>\<open>Quote\<close> and of names in a template is for ASCII.
\<close>

section \<open>Quoting\<close>

definition hex_char :: "nat \<Rightarrow> char" where
  "hex_char n = ''0123456789abcdef'' ! (n mod 16)"

text \<open>\<^verbatim>\<open>strconv.Quote\<close>, the verb \<^verbatim>\<open>%q\<close>.\<close>

definition quote_char :: "char \<Rightarrow> string" where
  "quote_char c =
     (let n = of_char c :: nat; bs = CHR 0x5C in
      if c = CHR 0x22 \<or> c = bs then [bs, c]
      else if n = 7 then [bs, CHR ''a''] else if n = 8 then [bs, CHR ''b'']
      else if n = 9 then [bs, CHR ''t''] else if n = 10 then [bs, CHR ''n'']
      else if n = 11 then [bs, CHR ''v''] else if n = 12 then [bs, CHR ''f'']
      else if n = 13 then [bs, CHR ''r'']
      else if n < 32 \<or> n = 127 then [bs, CHR ''x'', hex_char (n div 16), hex_char n]
      else [c])"

definition Quote :: "string \<Rightarrow> string" where
  "Quote s = CHR 0x22 # concat (map quote_char s) @ [CHR 0x22]"

section \<open>The pattern of the installer script\<close>

text \<open>
  \<^verbatim>\<open>(?m)^(#define ApplicationVersion ')[^']*(')(\r?)$\<close>. The match at a position is the text up to the next
  quote, which must end the line: the bracket takes any character but the quote, a line break too.
\<close>

abbreviation nl :: char where "nl \<equiv> CHR 0x0A"
abbreviation cr :: char where "cr \<equiv> CHR 0x0D"
abbreviation qt :: char where "qt \<equiv> CHR 0x27"

definition define_prefix :: string where
  "define_prefix = ''#define ApplicationVersion '' @ [qt]"

fun end_of_line :: "string \<Rightarrow> bool" where
  "end_of_line [] = True"
| "end_of_line (c # s) = (c = nl)"

definition optional_cr :: "string \<Rightarrow> (string \<times> string) option" where
  "optional_cr s =
     (if s \<noteq> [] \<and> hd s = cr \<and> end_of_line (tl s) then Some ([cr], tl s)
      else if end_of_line s then Some ([], s)
      else None)"

text \<open>The text of the bracket, the third group, and what follows the match.\<close>

definition match_at :: "string \<Rightarrow> (string \<times> string \<times> string) option" where
  "match_at s =
     (if \<not> HasPrefix s define_prefix then None
      else let s = drop (length define_prefix) s in
        case dropWhile (\<lambda>c. c \<noteq> qt) s of
          [] \<Rightarrow> None
        | _ # s' \<Rightarrow> (case optional_cr s' of None \<Rightarrow> None | Some (g3, rest) \<Rightarrow> Some (takeWhile (\<lambda>c. c \<noteq> qt) s, g3, rest)))"

text \<open>The text as matches and the characters between them, leftmost first; \<open>bol\<close>: at the start of a line.\<close>

datatype piece = Plain char | Hit string string

lemma match_at_length: "match_at s = Some (v, g3, rest) \<Longrightarrow> length rest < length s"
proof -
  assume a: "match_at s = Some (v, g3, rest)"
  let ?s = "drop (length define_prefix) s"
  obtain c s' where d: "dropWhile (\<lambda>c. c \<noteq> qt) ?s = c # s'" and o: "optional_cr s' = Some (g3, rest)"
    using a by (auto simp: match_at_def Let_def split: if_splits list.splits option.splits)
  have "length (c # s') \<le> length ?s" by (metis d length_dropWhile_le)
  moreover have "length rest \<le> length s'" using o by (auto simp: optional_cr_def split: if_splits)
  ultimately show ?thesis by simp
qed

function scan :: "bool \<Rightarrow> string \<Rightarrow> piece list" where
  "scan bol [] = []"
| "scan bol (c # s) =
     (case (if bol then match_at (c # s) else None) of
        Some (v, g3, rest) \<Rightarrow> Hit v g3 # scan False rest
      | None \<Rightarrow> Plain c # scan (c = nl) s)"
  by pat_completeness auto
termination
  by (relation "measure (\<lambda>(_, s). length s)") (auto dest: match_at_length split: if_splits)

definition Match :: "string \<Rightarrow> bool" where
  "Match s \<longleftrightarrow> (\<exists>p \<in> set (scan True s). case p of Hit _ _ \<Rightarrow> True | Plain _ \<Rightarrow> False)"

section \<open>The template\<close>

definition is_word :: "char \<Rightarrow> bool" where
  "is_word c \<longleftrightarrow> (let n = of_char c :: nat in 48 \<le> n \<and> n \<le> 57 \<or> 65 \<le> n \<and> n \<le> 90 \<or> 97 \<le> n \<and> n \<le> 122 \<or> n = 95)"

fun group_number :: "nat \<Rightarrow> string \<Rightarrow> nat option" where
  "group_number acc [] = Some acc"
| "group_number acc (c # s) =
     (let n = of_char c :: nat in
      if n < 48 \<or> 57 < n \<or> acc \<ge> 10 ^ 8 then None else group_number (acc * 10 + (n - 48)) s)"

text \<open>The number is \<open>None\<close> for a name that is not one; the pattern has no named groups.\<close>

definition extract_group :: "string \<Rightarrow> (nat option \<times> string) option" where
  "extract_group str =
     (let brace = (str \<noteq> [] \<and> hd str = CHR 0x7B);
          s = (if brace then tl str else str);
          name = takeWhile is_word s;
          rest = dropWhile is_word s;
          num = (if hd name = CHR ''0'' \<and> length name > 1 then None else group_number 0 name)
      in if name = [] then None
         else if brace then (if rest \<noteq> [] \<and> hd rest = CHR 0x7D then Some (num, tl rest) else None)
         else Some (num, rest))"

lemma extract_group_length: "extract_group s = Some (n, rest) \<Longrightarrow> length rest \<le> length s"
proof -
  assume a: "extract_group s = Some (n, rest)"
  let ?s = "if s \<noteq> [] \<and> hd s = CHR 0x7B then tl s else s"
  have "length rest \<le> length (dropWhile is_word ?s)"
    using a by (auto simp: extract_group_def Let_def split: if_splits)
  also have "\<dots> \<le> length ?s" by (rule length_dropWhile_le)
  finally show ?thesis by (auto split: if_splits)
qed

definition match_group :: "string list \<Rightarrow> nat option \<Rightarrow> string" where
  "match_group m num = (case num of None \<Rightarrow> [] | Some n \<Rightarrow> if n < length m then m ! n else [])"

function expand :: "string list \<Rightarrow> string \<Rightarrow> string" where
  "expand m [] = []"
| "expand m (c # t) =
     (if c \<noteq> CHR ''$'' then c # expand m t
      else if t \<noteq> [] \<and> hd t = CHR ''$'' then CHR ''$'' # expand m (tl t)
      else case extract_group t of
        None \<Rightarrow> CHR ''$'' # expand m t
      | Some (num, rest) \<Rightarrow> match_group m num @ expand m rest)"
  by pat_completeness auto
termination
  by (relation "measure (\<lambda>(_, t). length t)") (auto dest: extract_group_length)

definition whole :: "string \<Rightarrow> string \<Rightarrow> string" where
  "whole v g3 = define_prefix @ v @ [qt] @ g3"

fun replace_piece :: "string \<Rightarrow> piece \<Rightarrow> string" where
  "replace_piece t (Plain c) = [c]"
| "replace_piece t (Hit v g3) = expand [whole v g3, define_prefix, [qt], g3] t"

definition regexp_ReplaceAll :: "string \<Rightarrow> string \<Rightarrow> string" where
  "regexp_ReplaceAll s t = concat (map (replace_piece t) (scan True s))"

section \<open>genversion\<close>

definition versionInfoPath :: string where "versionInfoPath = ''versioninfo.json''"
definition versionGoPath :: string where "versionGoPath = ''internal/version/version_generated.go''"
definition installerISSPath :: string where "installerISSPath = ''installer/installer.iss''"

text \<open>
  The files of the tree, and the paths that can be written. A fatal error ends the program
  with the files as they are.
\<close>

type_synonym tree = "string \<Rightarrow> string option"

datatype gen_error = GenRead string | GenParse | GenEmptyVersion | GenNoDefine | GenWrite string

type_synonym gen_result = "gen_error option \<times> tree"

definition write_tree :: "(string \<Rightarrow> bool) \<Rightarrow> string \<Rightarrow> string \<Rightarrow> tree \<Rightarrow> gen_result" where
  "write_tree can p content f = (if can p then (None, f(p \<mapsto> content)) else (Some (GenWrite p), f))"

definition go_const :: "string \<Rightarrow> string" where
  "go_const v =
     ''// Code generated from versioninfo.json by \"go generate\"; DO NOT EDIT.'' @ [nl] @
     ''// Run \"go generate ./...\" after bumping versioninfo.json.'' @ [nl, nl] @
     ''package version'' @ [nl, nl] @
     ''// Version is this build's own semver. versioninfo.json is the single'' @ [nl] @
     ''// source of truth; this file is regenerated from it.'' @ [nl] @
     ''const Version = '' @ Quote v @ [nl]"

definition writeGoConst :: "(string \<Rightarrow> bool) \<Rightarrow> string \<Rightarrow> tree \<Rightarrow> gen_result" where
  "writeGoConst can v f = write_tree can versionGoPath (go_const v) f"

definition version_template :: "string \<Rightarrow> string" where
  "version_template v = ''${1}'' @ v @ ''${2}${3}''"

definition patchInstallerISS :: "(string \<Rightarrow> bool) \<Rightarrow> string \<Rightarrow> tree \<Rightarrow> gen_result" where
  "patchInstallerISS can v f =
     (case f installerISSPath of
        None \<Rightarrow> (Some (GenRead installerISSPath), f)
      | Some data \<Rightarrow>
          if \<not> Match data then (Some GenNoDefine, f)
          else write_tree can installerISSPath (regexp_ReplaceAll data (version_template v)) f)"

text \<open>The struct \<^verbatim>\<open>versionInfo\<close>: its one field holds a struct of one field.\<close>

record file_info =
  fi_FileVersion :: string

record versionInfo =
  vi_StringFileInfo :: file_info

definition file_info_fields :: "file_info fields" where
  "file_info_fields = [(''FileVersion'', fld dec_string fi_FileVersion fi_FileVersion_update)]"

definition versionInfo_fields :: "versionInfo fields" where
  "versionInfo_fields =
     [(''StringFileInfo'', fld (dec_struct file_info_fields) vi_StringFileInfo vi_StringFileInfo_update)]"

text \<open>\<^verbatim>\<open>main\<close>: first the version, then the two files.\<close>

definition read_version :: "golib \<Rightarrow> tree \<Rightarrow> gen_error + string" where
  "read_version L f =
     (case f versionInfoPath of
        None \<Rightarrow> Inl (GenRead versionInfoPath)
      | Some data \<Rightarrow>
          (case Option.bind (ParseJSON L data)
                  (\<lambda>j. dec_struct versionInfo_fields j \<lparr>vi_StringFileInfo = \<lparr>fi_FileVersion = []\<rparr>\<rparr>) of
             None \<Rightarrow> Inl GenParse
           | Some vi \<Rightarrow>
               (let v = fi_FileVersion (vi_StringFileInfo vi) in
                if v = [] then Inl GenEmptyVersion else Inr v)))"

definition genversion :: "golib \<Rightarrow> (string \<Rightarrow> bool) \<Rightarrow> tree \<Rightarrow> gen_result" where
  "genversion L can f =
     (case read_version L f of
        Inl err \<Rightarrow> (Some err, f)
      | Inr v \<Rightarrow>
          (case writeGoConst can v f of
             (Some err, f) \<Rightarrow> (Some err, f)
           | (None, f) \<Rightarrow> patchInstallerISS can v f))"

section \<open>winget-update-parser\<close>

text \<open>
  \<open>tab\<close> lays out the rows of the table, as \<^verbatim>\<open>text/tabwriter\<close> does, and \<open>enc\<close> is the indented JSON;
  the output is what was written and whether the writer failed.
\<close>

record parser_env =
  pv_tab :: "string \<Rightarrow> string"
  pv_enc :: "package list \<Rightarrow> string"
  pv_table_ok :: bool
  pv_out_ok :: bool

definition tab_row :: "string list \<Rightarrow> string" where
  "tab_row cells = concat (map (\<lambda>(i, c). (if i = 0 then [] else [CHR 0x09]) @ c) (enumerate 0 cells)) @ [nl]"

definition table_of :: "package list \<Rightarrow> string" where
  "table_of pkgs =
     concat (tab_row [''NAME'', ''ID'', ''INSTALLED'', ''AVAILABLE'', ''SOURCE''] #
       map (\<lambda>p. tab_row [wp_Name p, wp_ID p, wp_InstalledVersion p, wp_Available p, wp_Source p]) pkgs)"

definition printTable :: "parser_env \<Rightarrow> package list \<Rightarrow> string \<times> bool" where
  "printTable e pkgs =
     (if \<not> pv_table_ok e then ([], False)
      else if \<not> pv_out_ok e then (pv_tab e (table_of pkgs), False)
      else (pv_tab e (table_of pkgs) @ [nl] @ Itoa (int (length pkgs)) @ '' aggiornamenti disponibili'' @ [nl], True))"

definition printJSON :: "parser_env \<Rightarrow> package list \<Rightarrow> string \<times> bool" where
  "printJSON e pkgs = (if pv_out_ok e then (pv_enc e pkgs, True) else ([], False))"

text \<open>The standard output and the exit code.\<close>

definition update_parser :: "golib \<Rightarrow> parser_env \<Rightarrow> bool \<Rightarrow> string \<Rightarrow> proc_end \<Rightarrow> bool \<Rightarrow> string \<times> int" where
  "update_parser L e asJSON src p late =
     (case ListUpgradable L p late of
        Inl _ \<Rightarrow> ([], 1)
      | Inr pkgs \<Rightarrow>
          (let (out, ok) = (if asJSON then printJSON else printTable) e (FilterBySource pkgs src)
           in (out, if ok then 0 else 1)))"

section \<open>The match and the text\<close>

lemma define_prefix_facts [simp]:
  "define_prefix \<noteq> []" "nl \<notin> set define_prefix" "hd define_prefix \<noteq> nl"
  by (simp_all add: define_prefix_def)

lemma quote_split:
  "qt \<notin> set v \<Longrightarrow> dropWhile (\<lambda>c. c \<noteq> qt) (v @ qt # r) = qt # r"
  "qt \<notin> set v \<Longrightarrow> takeWhile (\<lambda>c. c \<noteq> qt) (v @ qt # r) = v"
  by (induction v) auto

lemma match_at_Some:
  "match_at s = Some (v, g3, rest) \<longleftrightarrow>
     s = whole v g3 @ rest \<and> qt \<notin> set v \<and> (g3 = [] \<or> g3 = [cr]) \<and> end_of_line rest"
proof
  assume a: "match_at s = Some (v, g3, rest)"
  let ?s = "drop (length define_prefix) s"
  obtain c s' where d: "dropWhile (\<lambda>c. c \<noteq> qt) ?s = c # s'" and o: "optional_cr s' = Some (g3, rest)"
    and v: "v = takeWhile (\<lambda>c. c \<noteq> qt) ?s" and p: "HasPrefix s define_prefix"
    using a by (auto simp: match_at_def Let_def split: if_splits list.splits option.splits)
  have c: "c = qt" using d by (metis (mono_tags, lifting) hd_dropWhile list.distinct(1) list.sel(1))
  have "s = define_prefix @ ?s" using p by (metis HasPrefix_def append_take_drop_id)
  also have "?s = v @ qt # s'" unfolding v by (metis c d takeWhile_dropWhile_id)
  finally have "s = define_prefix @ v @ qt # s'" .
  moreover have "s' = g3 @ rest \<and> (g3 = [] \<or> g3 = [cr]) \<and> end_of_line rest"
    using o by (cases s') (auto simp: optional_cr_def split: if_splits)
  moreover have "qt \<notin> set v" unfolding v using set_takeWhileD by fastforce
  ultimately show "s = whole v g3 @ rest \<and> qt \<notin> set v \<and> (g3 = [] \<or> g3 = [cr]) \<and> end_of_line rest"
    by (simp add: whole_def)
next
  assume b: "s = whole v g3 @ rest \<and> qt \<notin> set v \<and> (g3 = [] \<or> g3 = [cr]) \<and> end_of_line rest"
  then have "dropWhile (\<lambda>c. c \<noteq> qt) (v @ qt # g3 @ rest) = qt # g3 @ rest"
    "takeWhile (\<lambda>c. c \<noteq> qt) (v @ qt # g3 @ rest) = v"
    by (blast intro: quote_split)+
  moreover have "optional_cr (g3 @ rest) = Some (g3, rest)"
    using b by (cases rest) (auto simp: optional_cr_def)
  ultimately show "match_at s = Some (v, g3, rest)"
    using b by (simp add: match_at_def whole_def Let_def)
qed

text \<open>\<open>closes s\<close>: the next quote of \<open>s\<close> ends its line.\<close>

fun closes :: "string \<Rightarrow> bool" where
  "closes [] = False"
| "closes (c # s) = (if c = qt then optional_cr s \<noteq> None else closes s)"

lemma closes_dropWhile:
  "closes s = (case dropWhile (\<lambda>c. c \<noteq> qt) s of [] \<Rightarrow> False | _ # r \<Rightarrow> optional_cr r \<noteq> None)"
  by (induction s) auto

lemma match_at_None: "match_at s = None \<longleftrightarrow> (\<nexists>r. s = define_prefix @ r \<and> closes r)"
proof (cases "HasPrefix s define_prefix")
  case True
  then have s: "s = define_prefix @ drop (length define_prefix) s" by (metis HasPrefix_def append_take_drop_id)
  have "match_at s = None \<longleftrightarrow> \<not> closes (drop (length define_prefix) s)"
    using True by (simp add: match_at_def closes_dropWhile Let_def del: dropWhile_eq_Nil_conv
        split: list.split option.split)
  then show ?thesis by (metis s append_eq_conv_conj)
next
  case False
  then show ?thesis by (auto simp: match_at_def)
qed

section \<open>Stamping\<close>

text \<open>What a piece reads as, and the piece with another version.\<close>

fun spell :: "piece \<Rightarrow> string" where
  "spell (Plain c) = [c]"
| "spell (Hit v g3) = whole v g3"

fun stamp :: "string \<Rightarrow> piece \<Rightarrow> piece" where
  "stamp v (Plain c) = Plain c"
| "stamp v (Hit _ g3) = Hit v g3"

definition spelled :: "piece list \<Rightarrow> string" where
  "spelled ps = concat (map spell ps)"

definition stampable :: "string \<Rightarrow> bool" where
  "stampable v \<longleftrightarrow> qt \<notin> set v \<and> nl \<notin> set v \<and> CHR ''$'' \<notin> set v"

lemma spelled_simps [simp]:
  "spelled [] = []" "spelled (p # ps) = spell p @ spelled ps"
  by (simp_all add: spelled_def)

lemma spelled_scan: "spelled (scan b s) = s"
proof (induction b s rule: scan.induct)
  case (2 b c s)
  show ?case
  proof (cases "if b then match_at (c # s) else None")
    case None
    then show ?thesis using 2(1) by simp
  next
    case (Some m)
    obtain u g3 rest where m: "m = (u, g3, rest)" by (metis prod_cases3)
    then have "c # s = whole u g3 @ rest" using Some match_at_Some by (auto split: if_splits)
    moreover have "spelled (scan b (c # s)) = whole u g3 @ rest" using Some 2(2) [OF Some] m by simp
    ultimately show ?thesis by simp
  qed
qed simp

lemma expand_plain: "CHR ''$'' \<notin> set v \<Longrightarrow> expand m (v @ t) = v @ expand m t"
  by (induction v) auto

lemma expand_template:
  "CHR ''$'' \<notin> set v \<Longrightarrow> expand [a, b, c, d] (version_template v) = b @ v @ c @ d"
  by (simp add: version_template_def expand_plain extract_group_def is_word_def Let_def match_group_def)

lemma ReplaceAll_stamp:
  assumes "stampable v"
  shows "regexp_ReplaceAll s (version_template v) = spelled (map (stamp v) (scan True s))"
proof -
  have "replace_piece (version_template v) p = spell (stamp v p)" for p
    using assms by (cases p) (simp_all add: expand_template stampable_def whole_def)
  then have "replace_piece (version_template v) = spell \<circ> stamp v" by auto
  then show ?thesis by (simp add: regexp_ReplaceAll_def spelled_def)
qed

abbreviation stamped :: "string \<Rightarrow> bool \<Rightarrow> string \<Rightarrow> string" where
  "stamped v b s \<equiv> spelled (map (stamp v) (scan b s))"

lemma stamped_False_Cons: "stamped v False (c # s) = c # stamped v (c = nl) s"
  by simp

lemma stamped_end_of_line: "end_of_line (stamped v False s) = end_of_line s"
  by (cases s) simp_all

lemma stamped_optional_cr: "(optional_cr (stamped v False s) \<noteq> None) = (optional_cr s \<noteq> None)"
proof (cases s)
  case (Cons c r)
  then show ?thesis by (auto simp: optional_cr_def stamped_end_of_line)
qed simp

lemma stamped_prefix:
  assumes "nl \<notin> set xs" "stamped v False s = xs @ r"
  shows "\<exists>s'. s = xs @ s' \<and> r = stamped v False s'"
  using assms
proof (induction xs arbitrary: s)
  case (Cons x xs)
  then obtain s' where "s = x # s'" "stamped v False s' = xs @ r" by (cases s) auto
  with Cons show ?case by auto
qed simp

lemma optional_cr_version:
  "nl \<notin> set v \<Longrightarrow> optional_cr (v @ qt # r) = None"
  by (cases v; cases "tl v") (auto simp: optional_cr_def)

lemma closes_stamped:
  assumes "stampable v"
  shows "closes (stamped v b s) \<Longrightarrow> closes s"
proof (induction b s rule: scan.induct)
  case (2 b c s)
  show ?case
  proof (cases "if b then match_at (c # s) else None")
    case None
    then show ?thesis using 2 stamped_optional_cr [of v s] by (auto split: if_splits)
  next
    case (Some m)
    obtain u g3 rest where "m = (u, g3, rest)" by (metis prod_cases3)
    then show ?thesis
      using Some 2(3) assms
      by (auto simp: whole_def define_prefix_def stampable_def optional_cr_version)
  qed
qed simp

lemma scan_stamped:
  assumes "stampable v"
  shows "scan b (stamped v b s) = map (stamp v) (scan b s)"
proof (induction b s rule: scan.induct)
  case (2 b c s)
  show ?case
  proof (cases "if b then match_at (c # s) else None")
    case None
    let ?t = "stamped v (c = nl) s"
    have "match_at (c # ?t) = None" if b
    proof (rule ccontr)
      assume "match_at (c # ?t) \<noteq> None"
      then obtain r where r: "c # ?t = define_prefix @ r" "closes r" by (auto simp: match_at_None)
      then have c: "c = hd define_prefix" "?t = tl define_prefix @ r"
        by (metis define_prefix_facts(1) hd_append2 list.sel(1), metis define_prefix_facts(1) list.sel(3) tl_append2)
      then have "c \<noteq> nl" using define_prefix_facts(3) by metis
      moreover have "nl \<notin> set (tl define_prefix)" by (simp add: define_prefix_def)
      ultimately obtain s' where "s = tl define_prefix @ s'" "r = stamped v False s'"
        using stamped_prefix [of "tl define_prefix" v s r] c(2) by auto
      then have "c # s = define_prefix @ s'" "closes s'"
        using c(1) r(2) closes_stamped [OF assms, of False s'] by (simp_all add: define_prefix_def)
      then show False using None that match_at_None by fastforce
    qed
    then show ?thesis using None 2(1) [OF None] by simp
  next
    case (Some m)
    obtain u g3 rest where m: "m = (u, g3, rest)" by (metis prod_cases3)
    have b: b and s: "match_at (c # s) = Some (u, g3, rest)" using Some m by (simp_all split: if_splits)
    have "match_at (whole v g3 @ stamped v False rest) = Some (v, g3, stamped v False rest)"
      using s assms by (simp add: match_at_Some stampable_def stamped_end_of_line)
    moreover obtain x xs where "whole v g3 @ stamped v False rest = x # xs"
      by (cases "whole v g3") (simp_all add: whole_def define_prefix_def)
    ultimately show ?thesis using b s 2(2) [OF Some] m by simp
  qed
qed simp

lemma stamp_stamp: "stamp w (stamp v p) = stamp w p"
  by (cases p) simp_all

text \<open>The versions the script defines, and the script with them taken out.\<close>

fun hit_version :: "piece \<Rightarrow> string list" where
  "hit_version (Plain c) = []"
| "hit_version (Hit v g3) = [v]"

definition versions :: "string \<Rightarrow> string list" where
  "versions s = concat (map hit_version (scan True s))"

definition frame_of :: "string \<Rightarrow> piece list" where
  "frame_of s = map (stamp []) (scan True s)"

lemma versions_stamp: "concat (map (hit_version \<circ> stamp v) ps) = map (\<lambda>_. v) (concat (map hit_version ps))"
proof (induction ps)
  case (Cons p ps)
  then show ?case by (cases p) simp_all
qed simp

lemma Match_versions: "Match s \<longleftrightarrow> versions s \<noteq> []"
proof -
  have "(case p of Hit _ _ \<Rightarrow> True | Plain _ \<Rightarrow> False) \<longleftrightarrow> hit_version p \<noteq> []" for p by (cases p) simp_all
  then show ?thesis by (auto simp: Match_def versions_def)
qed

lemma ReplaceAll_facts:
  assumes "stampable v"
  shows "versions (regexp_ReplaceAll s (version_template v)) = map (\<lambda>_. v) (versions s)"
    and "frame_of (regexp_ReplaceAll s (version_template v)) = frame_of s"
    and "stampable w \<Longrightarrow> regexp_ReplaceAll (regexp_ReplaceAll s (version_template v)) (version_template w) = regexp_ReplaceAll s (version_template w)"
proof -
  have c: "scan True (regexp_ReplaceAll s (version_template v)) = map (stamp v) (scan True s)"
    using assms by (simp add: ReplaceAll_stamp scan_stamped)
  show "versions (regexp_ReplaceAll s (version_template v)) = map (\<lambda>_. v) (versions s)"
    by (simp add: versions_def c versions_stamp)
  show "frame_of (regexp_ReplaceAll s (version_template v)) = frame_of s"
    by (simp add: frame_of_def c stamp_stamp)
  show "regexp_ReplaceAll (regexp_ReplaceAll s (version_template v)) (version_template w) = regexp_ReplaceAll s (version_template w)"
    if "stampable w"
    using that assms by (simp add: ReplaceAll_stamp c [unfolded ReplaceAll_stamp [OF assms]] comp_def stamp_stamp)
qed

section \<open>Properties\<close>

lemma tree_paths [simp]:
  "versionGoPath \<noteq> installerISSPath" "installerISSPath \<noteq> versionGoPath" "versionInfoPath \<noteq> installerISSPath"
  "installerISSPath \<noteq> versionInfoPath" "versionInfoPath \<noteq> versionGoPath" "versionGoPath \<noteq> versionInfoPath"
  by (simp_all add: versionGoPath_def installerISSPath_def versionInfoPath_def)

lemma genversion_ok:
  "genversion L can f = (None, f') \<longleftrightarrow>
     (\<exists>v old. read_version L f = Inr v \<and> can versionGoPath \<and> can installerISSPath \<and> f installerISSPath = Some old \<and>
        Match old \<and> f' = f(versionGoPath \<mapsto> go_const v, installerISSPath \<mapsto> regexp_ReplaceAll old (version_template v)))"
  by (auto simp: genversion_def writeGoConst_def patchInstallerISS_def write_tree_def
      split: sum.splits option.splits if_splits)

text \<open>
  C40: A run of \<^verbatim>\<open>genversion\<close> that reports no error leaves every place with the version of
  \<^verbatim>\<open>versioninfo.json\<close>: the Go file is the constant of that version, every \<^verbatim>\<open>ApplicationVersion\<close> line of the
  installer script, of which there is at least one, defines it, everything else of the script
  and every other file is as before, and a second run succeeds and changes nothing. The version
  may hold anything but a quote, a line break and a dollar sign, which the replacement template
  would expand.
\<close>

theorem genversion_carries_version:
  assumes "genversion L can f = (None, f')" and "read_version L f = Inr v" and "stampable v"
  shows "f' versionGoPath = Some (go_const v) \<and>
    (\<exists>old new. f installerISSPath = Some old \<and> f' installerISSPath = Some new \<and> versions old \<noteq> [] \<and>
       versions new = map (\<lambda>_. v) (versions old) \<and> frame_of new = frame_of old) \<and>
    (\<forall>p. p \<noteq> versionGoPath \<and> p \<noteq> installerISSPath \<longrightarrow> f' p = f p) \<and>
    genversion L can f' = (None, f')"
proof -
  from assms(1) obtain old where o: "can versionGoPath" "can installerISSPath" "f installerISSPath = Some old" "Match old"
    and f': "f' = f(versionGoPath \<mapsto> go_const v, installerISSPath \<mapsto> regexp_ReplaceAll old (version_template v))"
    using assms(2) by (auto simp: genversion_ok)
  let ?new = "regexp_ReplaceAll old (version_template v)"
  note r = ReplaceAll_facts(1,2) [OF assms(3), of old]
  have "read_version L f' = Inr v" using assms(2) by (simp add: f' read_version_def)
  moreover have "Match ?new" using o(4) r(1) by (simp add: Match_versions)
  moreover have "f' = f'(versionGoPath \<mapsto> go_const v, installerISSPath \<mapsto> regexp_ReplaceAll ?new (version_template v))"
    using ReplaceAll_facts(3) [OF assms(3) assms(3)] by (simp add: f' fun_upd_twist)
  ultimately have "genversion L can f' = (None, f')"
    unfolding genversion_ok using o(1,2) f' ReplaceAll_facts(3) [OF assms(3) assms(3)]
    by - (rule exI [of _ v], rule exI [of _ ?new], simp)
  then show ?thesis using o(3,4) r(1,2) by (simp add: f' Match_versions)
qed

section \<open>Witnesses\<close>

definition demo_gen_lib :: golib where
  "demo_gen_lib = demo_lib\<lparr>ParseJSON := (\<lambda>_. Some (JObj [(''StringFileInfo'', JObj [(''FileVersion'', JStr ''2.0'')])]))\<rparr>"

definition demo_script :: string where
  "demo_script = define_prefix @ ''1.7'' @ [qt, cr, nl] @ ''x''"

definition demo_tree :: tree where
  "demo_tree = [versionInfoPath \<mapsto> ''{}'', installerISSPath \<mapsto> demo_script]"

lemma demo_scan: "scan True demo_script = [Hit ''1.7'' [cr], Plain nl, Plain (CHR ''x'')]"
proof -
  obtain c s where cs: "demo_script = c # s" by (cases demo_script) (simp_all add: demo_script_def define_prefix_def)
  have "match_at demo_script = Some (''1.7'', [cr], [nl, CHR ''x''])"
    by (simp add: match_at_Some demo_script_def whole_def)
  then have "scan True demo_script = Hit ''1.7'' [cr] # scan False [nl, CHR ''x'']" unfolding cs by simp
  moreover have "match_at ''x'' = None" by (simp add: match_at_None define_prefix_def)
  ultimately show ?thesis by simp
qed

lemma demo_read_version: "read_version demo_gen_lib demo_tree = Inr ''2.0''"
  by (simp add: read_version_def demo_gen_lib_def demo_tree_def versionInfo_fields_def file_info_fields_def dec_defs)

theorem genversion_carries_version_witness:
  "\<exists>f' new. genversion demo_gen_lib (\<lambda>_. True) demo_tree = (None, f') \<and> f' versionGoPath = Some (go_const ''2.0'') \<and>
     f' installerISSPath = Some new \<and> versions new = [''2.0''] \<and> genversion demo_gen_lib (\<lambda>_. True) f' = (None, f')"
proof -
  have v: "versions demo_script = [''1.7'']" by (simp add: versions_def demo_scan)
  obtain f' where f: "genversion demo_gen_lib (\<lambda>_. True) demo_tree = (None, f')"
    using demo_read_version v by (auto simp: genversion_ok demo_tree_def Match_versions)
  have "stampable ''2.0''" by (simp add: stampable_def)
  from genversion_carries_version [OF f demo_read_version this] show ?thesis
    using f v by (auto simp: demo_tree_def)
qed

end
