(* ===== verification/Ownership.thy ===== *)
theory Ownership
  imports Sources
begin

text \<open>
  \<^verbatim>\<open>ownedEffective\<close> and \<^verbatim>\<open>current\<close> of \<^verbatim>\<open>service/sourcepolicy.go\<close>. What the copy is for is a matter of
  aliasing, so the structs live in an explicit store: documents, effective policies and the
  arrays behind slices have addresses. The commands of the \<^verbatim>\<open>clientWs\<close> section stand for the slices
  and maps of a document; the other fields are in the document's cell.
\<close>

section \<open>The store\<close>

record doc_cell =
  dl_value :: document
  dl_commands :: nat

record eff_cell =
  ec_Doc :: "nat option"
  ec_Applied :: "string list"

record heap =
  hp_docs :: "nat \<rightharpoonup> doc_cell"
  hp_effs :: "nat \<rightharpoonup> eff_cell"
  hp_arrays :: "nat \<Rightarrow> string list"
  hp_next :: nat

text \<open>The document read through its address.\<close>

definition with_commands :: "string list \<Rightarrow> document \<Rightarrow> document" where
  "with_commands cs d = d\<lparr>d_ClientWS := (d_ClientWS d)\<lparr>cs_Commands := cs\<rparr>\<rparr>"

definition view :: "heap \<Rightarrow> nat \<Rightarrow> document option" where
  "view h a = map_option (\<lambda>c. with_commands (hp_arrays h (dl_commands c)) (dl_value c)) (hp_docs h a)"

definition doc_of :: "heap \<Rightarrow> nat option \<Rightarrow> nat option" where
  "doc_of h e = Option.bind e (\<lambda>a. Option.bind (hp_effs h a) ec_Doc)"

section \<open>The copy\<close>

text \<open>Nothing is copied of a nil policy or a policy with a nil document.\<close>

definition ownedEffective :: "heap \<Rightarrow> nat option \<Rightarrow> heap \<times> nat option" where
  "ownedEffective h e =
     (case Option.bind e (hp_effs h) of
        None \<Rightarrow> (h, e)
      | Some eff \<Rightarrow>
          (case Option.bind (ec_Doc eff) (hp_docs h) of
             None \<Rightarrow> (h, e)
           | Some doc \<Rightarrow>
               (let d = hp_next h; owned = Suc d in
                (h\<lparr>hp_docs := (hp_docs h)(d \<mapsto> doc),
                   hp_effs := (hp_effs h)(owned \<mapsto> eff\<lparr>ec_Doc := Some d\<rparr>),
                   hp_next := Suc owned\<rparr>, Some owned))))"

text \<open>Assignments through the policy's document: a field, a new slice, an element of the slice it has.\<close>

datatype doc_write = SetField "document \<Rightarrow> document" | NewCommands "string list" | SetElement nat string

definition write_doc :: "nat option \<Rightarrow> heap \<Rightarrow> doc_write \<Rightarrow> heap" where
  "write_doc e h w =
     (case doc_of h e of
        None \<Rightarrow> h
      | Some d \<Rightarrow>
          (case hp_docs h d of
             None \<Rightarrow> h
           | Some c \<Rightarrow>
               (case w of
                  SetField f \<Rightarrow> h\<lparr>hp_docs := (hp_docs h)(d \<mapsto> c\<lparr>dl_value := f (dl_value c)\<rparr>)\<rparr>
                | NewCommands cs \<Rightarrow>
                    h\<lparr>hp_docs := (hp_docs h)(d \<mapsto> c\<lparr>dl_commands := hp_next h\<rparr>),
                      hp_arrays := (hp_arrays h)(hp_next h := cs), hp_next := Suc (hp_next h)\<rparr>
                | SetElement i s \<Rightarrow>
                    h\<lparr>hp_arrays := (hp_arrays h)(dl_commands c := (hp_arrays h (dl_commands c))[i := s])\<rparr>)))"

text \<open>An element is assigned only once the slice has been replaced.\<close>

fun own_elements :: "bool \<Rightarrow> doc_write list \<Rightarrow> bool" where
  "own_elements own [] = True"
| "own_elements own (SetField f # ws) = own_elements own ws"
| "own_elements own (NewCommands cs # ws) = own_elements True ws"
| "own_elements own (SetElement i s # ws) = (own \<and> own_elements own ws)"

section \<open>The current state\<close>

text \<open>\<^verbatim>\<open>current\<close>: the last cycle's state, or one built from the snapshot with no facts but the machine's.\<close>

definition current :: "golib \<Rightarrow> machine \<Rightarrow> time \<Rightarrow> snapshot \<Rightarrow> cycle_state option \<Rightarrow> cycle_state" where
  "current L mc now snap cur =
     (case cur of
        Some cyc \<Rightarrow> cyc
      | None \<Rightarrow>
          (let host = \<lparr>h_HWID = mc_HWID mc, h_Hostname = mc_Hostname mc, h_DC = [], h_Domain = [], h_IPs = [], h_Now = now\<rparr>;
               eff = fst (Effective L (sn_Parsed snap) host);
               (site, chain) = Chain L eff host
           in \<lparr>cy_snap = snap, cy_host = host, cy_eff = eff, cy_site = site, cy_chain = chain\<rparr>))"

section \<open>Isolation\<close>

definition heap_ok :: "heap \<Rightarrow> bool" where
  "heap_ok h \<longleftrightarrow> (\<forall>a c. hp_docs h a = Some c \<longrightarrow> a < hp_next h \<and> dl_commands c < hp_next h)"

text \<open>
  \<open>h\<close> has grown from \<open>h0\<close>: what \<open>h0\<close> held is there unchanged, and the policy \<open>e\<close> has a document of
  its own, with an array of its own when \<open>own\<close>.
\<close>

definition isolated :: "heap \<Rightarrow> nat option \<Rightarrow> bool \<Rightarrow> heap \<Rightarrow> bool" where
  "isolated h0 e own h \<longleftrightarrow>
     hp_next h0 \<le> hp_next h \<and> (\<forall>a < hp_next h0. hp_docs h a = hp_docs h0 a \<and> hp_arrays h a = hp_arrays h0 a) \<and>
     (\<exists>d c. doc_of h e = Some d \<and> hp_docs h d = Some c \<and> hp_next h0 \<le> d \<and> (own \<longrightarrow> hp_next h0 \<le> dl_commands c))"

lemma isolated_view:
  assumes "heap_ok h0" "isolated h0 e own h" "view h0 a \<noteq> None"
  shows "view h a = view h0 a"
  using assms by (auto simp: heap_ok_def isolated_def view_def)

lemma isolated_write:
  assumes "isolated h0 e own h" "own_elements own (w # ws)"
  shows "\<exists>own'. isolated h0 e own' (write_doc e h w) \<and> own_elements own' ws"
proof -
  obtain d c where d: "doc_of h e = Some d" "hp_docs h d = Some c" "hp_next h0 \<le> d" "own \<longrightarrow> hp_next h0 \<le> dl_commands c"
    using assms(1) by (auto simp: isolated_def)
  have same: "doc_of (write_doc e h w) e = Some d"
    using d by (cases w) (simp_all add: write_doc_def doc_of_def)
  show ?thesis
  proof (cases w)
    case (SetField f)
    then have "isolated h0 e own (write_doc e h w)"
      using assms(1) d same by (simp add: isolated_def write_doc_def)
    then show ?thesis using assms(2) SetField by auto
  next
    case (NewCommands cs)
    then have "isolated h0 e True (write_doc e h w)"
      using assms(1) d same by (simp add: isolated_def write_doc_def)
    then show ?thesis using assms(2) NewCommands by auto
  next
    case (SetElement i s)
    then have "isolated h0 e own (write_doc e h w)"
      using assms d same by (simp add: isolated_def write_doc_def)
    then show ?thesis using assms(2) SetElement by auto
  qed
qed

lemma isolated_writes:
  assumes "isolated h0 e own h" "own_elements own ws"
  shows "\<exists>own'. isolated h0 e own' (foldl (write_doc e) h ws)"
  using assms
proof (induction ws arbitrary: own h)
  case (Cons w ws)
  then show ?case using isolated_write [of h0 e own h w ws] by auto
qed auto

lemma isolated_owned:
  assumes "doc_of h e = Some d" "hp_docs h d = Some c"
  shows "isolated h (snd (ownedEffective h e)) False (fst (ownedEffective h e))"
    and "Option.bind (doc_of (fst (ownedEffective h e)) (snd (ownedEffective h e))) (view (fst (ownedEffective h e))) = view h d"
  using assms
  by (auto simp: ownedEffective_def isolated_def doc_of_def view_def Let_def bind_eq_Some_conv)

text \<open>
  C39: A cycle's policy is apart from the shared snapshot. \<^verbatim>\<open>ownedEffective\<close> gives a policy that reads
  as the one it was made from, and whatever is then assigned through it - fields, new slices,
  and elements of slices it was given itself - no document that was there before changes.
\<close>

theorem owned_policy_isolated:
  assumes "heap_ok h" and "doc_of h e = Some d" and "hp_docs h d \<noteq> None" and "own_elements False ws"
    and "ownedEffective h e = (h', e')"
  shows "(\<exists>d'. doc_of h' e' = Some d' \<and> view h' d' = view h d) \<and>
    (\<forall>a. view h a \<noteq> None \<longrightarrow> view (foldl (write_doc e') h' ws) a = view h a)"
proof
  obtain c where c: "hp_docs h d = Some c" using assms(3) by blast
  note o = isolated_owned [OF assms(2) c, unfolded assms(5) fst_conv snd_conv]
  have "view h d \<noteq> None" using c by (simp add: view_def)
  then show "\<exists>d'. doc_of h' e' = Some d' \<and> view h' d' = view h d"
    using o(2) by (cases "doc_of h' e'") auto
  obtain own where "isolated h e' own (foldl (write_doc e') h' ws)" using isolated_writes [OF o(1) assms(4)] by blast
  then show "\<forall>a. view h a \<noteq> None \<longrightarrow> view (foldl (write_doc e') h' ws) a = view h a"
    using isolated_view [OF assms(1)] by blast
qed

text \<open>
  The copy is shallow: an element assigned through the copy, whose slice is still the shared
  one, is seen through the original.
\<close>

theorem owned_policy_shares_elements:
  assumes "doc_of h e = Some d" "hp_docs h d = Some c" "d < hp_next h"
    and "ownedEffective h e = (h', e')"
  shows "view (write_doc e' h' (SetElement i s)) d =
    Some (with_commands ((hp_arrays h (dl_commands c))[i := s]) (dl_value c))"
  using assms by (auto simp: ownedEffective_def doc_of_def view_def write_doc_def Let_def bind_eq_Some_conv)

section \<open>Witnesses\<close>

definition demo_heap :: "document \<Rightarrow> heap" where
  "demo_heap d = \<lparr>hp_docs = [1 \<mapsto> \<lparr>dl_value = d, dl_commands = 0\<rparr>], hp_effs = [2 \<mapsto> \<lparr>ec_Doc = Some 1, ec_Applied = []\<rparr>],
     hp_arrays = (\<lambda>_. [''machine.info'']), hp_next = 3\<rparr>"

theorem owned_policy_isolated_witness:
  "view (foldl (write_doc (Some 4)) (fst (ownedEffective (demo_heap zero_document) (Some 2)))
     [SetField (d_Revision_update (\<lambda>_. 7)), NewCommands [''machine.reboot''], SetElement 0 ''service.restart'']) 1 =
   view (demo_heap zero_document) 1"
proof -
  let ?h = "demo_heap zero_document"
  let ?ws = "[SetField (d_Revision_update (\<lambda>_. 7)), NewCommands [''machine.reboot''], SetElement 0 ''service.restart'']"
  have h: "heap_ok ?h" "doc_of ?h (Some 2) = Some 1" "hp_docs ?h 1 \<noteq> None" "own_elements False ?ws"
    by (simp_all add: demo_heap_def heap_ok_def doc_of_def)
  have o: "ownedEffective ?h (Some 2) = (fst (ownedEffective ?h (Some 2)), Some 4)"
    by (simp add: ownedEffective_def demo_heap_def Let_def)
  have "view ?h 1 \<noteq> None" by (simp add: view_def demo_heap_def)
  then show ?thesis using owned_policy_isolated [OF h o] by blast
qed

end
