(* ===== verification/Sessions.thy ===== *)
theory Sessions
  imports Machine "HOL-Library.State_Monad"
begin

text \<open>
  The queries behind the logged-on user (\<^verbatim>\<open>internal/machineinfo/loggeduser.go\<close>), over the memory
  Windows hands out: each answer is a buffer that has to be released once and not read
  afterwards. The functions thread that memory through the state monad; they are shown to return
  what the pure definitions of \<open>Machine\<close> say and to leave no buffer behind.
\<close>

section \<open>Memory\<close>

text \<open>\<open>wm_faults\<close> counts reads of released memory and second releases.\<close>

record winmem =
  wm_live :: "nat set"
  wm_next :: nat
  wm_faults :: nat

type_synonym 'a win = "(winmem, 'a) state"

definition allocated :: "nat win" where
  "allocated = State (\<lambda>m. (wm_next m, m\<lparr>wm_live := insert (wm_next m) (wm_live m), wm_next := Suc (wm_next m)\<rparr>))"

definition WTSFreeMemory :: "nat \<Rightarrow> unit win" where
  "WTSFreeMemory p = State (\<lambda>m.
     ((), if p \<in> wm_live m then m\<lparr>wm_live := wm_live m - {p}\<rparr> else m\<lparr>wm_faults := Suc (wm_faults m)\<rparr>))"

text \<open>Reading the buffer at \<open>p\<close>, whose bytes are \<open>bs\<close>.\<close>

definition read_buffer :: "nat \<Rightarrow> 'b \<Rightarrow> 'b win" where
  "read_buffer p bs = State (\<lambda>m. (bs, if p \<in> wm_live m then m else m\<lparr>wm_faults := Suc (wm_faults m)\<rparr>))"

section \<open>Queries\<close>

text \<open>
  What Windows answers: the sessions with their states, the bytes of a query (\<open>None\<close>: the call fails
  or gives no buffer), the console session; \<open>wq_text\<close> turns the code units before the first zero
  into a string.
\<close>

datatype info_class = WtsName wts_class | WtsSessionInfoEx

record wts_raw =
  wq_sessions :: "(32 word \<times> 32 word) list option"
  wq_query :: "32 word \<Rightarrow> info_class \<Rightarrow> 8 word list option"
  wq_console :: "32 word"
  wq_text :: "16 word list \<Rightarrow> string"

definition querySession :: "wts_raw \<Rightarrow> 32 word \<Rightarrow> info_class \<Rightarrow> (nat \<times> 8 word list) option win" where
  "querySession w i cls =
     (case wq_query w i cls of
        None \<Rightarrow> State_Monad.return None
      | Some bs \<Rightarrow>
          do { p \<leftarrow> allocated;
               if bs = [] then do { WTSFreeMemory p; State_Monad.return None }
               else State_Monad.return (Some (p, bs)) })"

fun code_units :: "8 word list \<Rightarrow> 16 word list" where
  "code_units (a # b # bs) = (ucast a OR push_bit 8 (ucast b)) # code_units bs"
| "code_units _ = []"

definition UTF16PtrToString :: "wts_raw \<Rightarrow> 8 word list \<Rightarrow> string" where
  "UTF16PtrToString w bs = wq_text w (takeWhile (\<lambda>u. u \<noteq> 0) (code_units bs))"

definition querySessionString :: "wts_raw \<Rightarrow> 32 word \<Rightarrow> wts_class \<Rightarrow> string win" where
  "querySessionString w i cls =
     do { q \<leftarrow> querySession w i (WtsName cls);
          case q of
            None \<Rightarrow> State_Monad.return []
          | Some (p, bs) \<Rightarrow>
              do { buf \<leftarrow> read_buffer p bs;
                   WTSFreeMemory p;
                   State_Monad.return (TrimSpace (UTF16PtrToString w buf)) } }"

definition querySessionTimes :: "wts_raw \<Rightarrow> 32 word \<Rightarrow> session_times option win" where
  "querySessionTimes w i =
     do { q \<leftarrow> querySession w i WtsSessionInfoEx;
          case q of
            None \<Rightarrow> State_Monad.return None
          | Some (p, bs) \<Rightarrow>
              do { buf \<leftarrow> read_buffer p bs;
                   WTSFreeMemory p;
                   State_Monad.return (parseSessionInfoEx buf) } }"

section \<open>The user\<close>

definition session_user :: "wts_raw \<Rightarrow> 32 word \<Rightarrow> string win" where
  "session_user w i =
     do { u \<leftarrow> querySessionString w i WtsUserName;
          let user = sanitizeHeaderValue u;
          if user = [] then State_Monad.return []
          else do { d \<leftarrow> querySessionString w i WtsDomainName;
                    let domain = sanitizeHeaderValue d;
                    State_Monad.return (if domain = [] \<or> EqualFold domain user then user else domain @ [CHR 0x5C] @ user) } }"

fun session_entries :: "wts_raw \<Rightarrow> (32 word \<times> 32 word) list \<Rightarrow> session_entry list win" where
  "session_entries w [] = State_Monad.return []"
| "session_entries w ((i, s) # ss) =
     do { u \<leftarrow> session_user w i;
          es \<leftarrow> session_entries w ss;
          State_Monad.return (\<lparr>se_ID = i, se_State = s, se_User = u\<rparr> # es) }"

definition session_disconnect :: "wts_raw \<Rightarrow> 32 word \<Rightarrow> time win" where
  "session_disconnect w i =
     do { t \<leftarrow> querySessionTimes w i;
          State_Monad.return (case t of None \<Rightarrow> 0 | Some t \<Rightarrow> st_Disconnect t) }"

text \<open>The list of sessions is itself a buffer, released when the function returns.\<close>

definition interactive_session :: "wts_raw \<Rightarrow> (32 word \<times> user_session) option win" where
  "interactive_session w =
     (case wq_sessions w of
        None \<Rightarrow> State_Monad.return None
      | Some ss0 \<Rightarrow>
          do { p \<leftarrow> allocated;
               ss \<leftarrow> read_buffer p ss0;
               entries \<leftarrow> session_entries w ss;
               r \<leftarrow> (case pickSession entries (wq_console w) of
                       None \<Rightarrow> State_Monad.return None
                     | Some (e, state) \<Rightarrow>
                         do { t \<leftarrow> (if state = SessionDisconnected then session_disconnect w (se_ID e) else State_Monad.return 0);
                              State_Monad.return (Some (se_ID e, \<lparr>us_User = se_User e, us_State = state, us_DisconnectedAt = t\<rparr>)) });
               WTSFreeMemory p;
               State_Monad.return r })"

definition resolve_change :: "wts_raw \<Rightarrow> 32 word \<Rightarrow> (string \<times> user_session) win" where
  "resolve_change w i =
     do { u \<leftarrow> session_user w i;
          l \<leftarrow> interactive_session w;
          State_Monad.return (u, case l of None \<Rightarrow> nobody | Some (_, us) \<Rightarrow> us) }"

section \<open>Clean use of memory\<close>

text \<open>
  \<open>clean P f x\<close>: in any memory where the buffers \<open>P\<close> are live, \<open>f\<close> returns \<open>x\<close> without a fault, and the live
  buffers are the ones that were.
\<close>

definition mem_ok :: "winmem \<Rightarrow> bool" where
  "mem_ok m \<longleftrightarrow> (\<forall>p \<in> wm_live m. p < wm_next m)"

definition clean :: "nat set \<Rightarrow> 'a win \<Rightarrow> 'a \<Rightarrow> bool" where
  "clean P f x \<longleftrightarrow>
     (\<forall>m. mem_ok m \<and> P \<subseteq> wm_live m \<longrightarrow>
        (\<exists>m'. run_state f m = (x, m') \<and> mem_ok m' \<and> wm_live m' = wm_live m \<and> wm_faults m' = wm_faults m))"

named_theorems clean_intros

lemma clean_return [clean_intros]: "clean P (State_Monad.return x) x"
  by (simp add: clean_def State_Monad.return_def)

lemma clean_read [clean_intros]: "p \<in> P \<Longrightarrow> clean P (read_buffer p b) b"
  by (auto simp: clean_def read_buffer_def)

lemma clean_bind [clean_intros]:
  assumes "clean P f x" "clean P (g x) y"
  shows "clean P (State_Monad.bind f g) y"
  unfolding clean_def
proof (intro allI impI)
  fix m
  assume m: "mem_ok m \<and> P \<subseteq> wm_live m"
  then obtain m1 where 1: "run_state f m = (x, m1)" "mem_ok m1" "wm_live m1 = wm_live m" "wm_faults m1 = wm_faults m"
    using assms(1) by (auto simp: clean_def)
  then obtain m2 where "run_state (g x) m1 = (y, m2)" "mem_ok m2" "wm_live m2 = wm_live m1" "wm_faults m2 = wm_faults m1"
    using assms(2) [unfolded clean_def, rule_format, of m1] m by auto
  then show "\<exists>m'. run_state (State_Monad.bind f g) m = (y, m') \<and> mem_ok m' \<and> wm_live m' = wm_live m \<and> wm_faults m' = wm_faults m"
    using 1 by (simp add: State_Monad.bind_def)
qed

text \<open>A buffer that is allocated, used and released.\<close>

lemma clean_hold [clean_intros]:
  assumes "\<And>p. clean (insert p P) (f p) x" "clean P (g x) y"
  shows "clean P (do { p \<leftarrow> allocated; r \<leftarrow> f p; WTSFreeMemory p; g r }) y"
  unfolding clean_def
proof (intro allI impI)
  fix m
  assume m: "mem_ok m \<and> P \<subseteq> wm_live m"
  let ?p = "wm_next m"
  let ?m = "m\<lparr>wm_live := insert ?p (wm_live m), wm_next := Suc ?p\<rparr>"
  have new: "?p \<notin> wm_live m" using m by (auto simp: mem_ok_def)
  have "mem_ok ?m" "insert ?p P \<subseteq> wm_live ?m" using m by (auto simp: mem_ok_def less_Suc_eq)
  then obtain m1 where 1: "run_state (f ?p) ?m = (x, m1)" "mem_ok m1" "wm_live m1 = insert ?p (wm_live m)"
    "wm_faults m1 = wm_faults m"
    using assms(1) [of ?p] by (fastforce simp: clean_def)
  let ?m2 = "m1\<lparr>wm_live := wm_live m\<rparr>"
  have "mem_ok ?m2" using 1 by (auto simp: mem_ok_def)
  then obtain m3 where 3: "run_state (g x) ?m2 = (y, m3)" "mem_ok m3" "wm_live m3 = wm_live m" "wm_faults m3 = wm_faults m"
    using assms(2) m 1(4) by (fastforce simp: clean_def)
  have "run_state (WTSFreeMemory ?p) m1 = ((), ?m2)"
    using 1(3) new by (simp add: WTSFreeMemory_def)
  then show "\<exists>m'. run_state (do { p \<leftarrow> allocated; r \<leftarrow> f p; WTSFreeMemory p; g r }) m = (y, m') \<and>
      mem_ok m' \<and> wm_live m' = wm_live m \<and> wm_faults m' = wm_faults m"
    using 1(1) 3 by (simp add: State_Monad.bind_def allocated_def)
qed

lemma clean_mono: "clean P f x \<Longrightarrow> P \<subseteq> Q \<Longrightarrow> clean Q f x"
  by (auto simp: clean_def)

text \<open>A buffer that is released at once.\<close>

lemma clean_drop: "clean P (g ()) y \<Longrightarrow> clean P (do { p \<leftarrow> allocated; u \<leftarrow> WTSFreeMemory p; g u }) y"
  using clean_hold [of P "\<lambda>_. State_Monad.return ()" "()" g y]
  by (simp add: clean_intros)

text \<open>The answer of a query: copied, released, and what \<open>k\<close> makes of it returned.\<close>

lemma clean_buffer:
  "clean P (do { p \<leftarrow> allocated; buf \<leftarrow> read_buffer p bs; WTSFreeMemory p; State_Monad.return (k buf) }) (k bs)"
  by (rule clean_hold, rule clean_read, simp, rule clean_return)

section \<open>Lemmas\<close>

lemma TrimSpace_Nil [simp]: "TrimSpace [] = []"
  by (simp add: TrimSpace_def)

text \<open>What the pure definitions read of the raw answers.\<close>

definition wts_of :: "wts_raw \<Rightarrow> wts" where
  "wts_of w =
     \<lparr>wt_sessions = wq_sessions w,
      wt_string = (\<lambda>i cls. case wq_query w i (WtsName cls) of
          None \<Rightarrow> [] | Some bs \<Rightarrow> if bs = [] then [] else UTF16PtrToString w bs),
      wt_record = (\<lambda>i. wq_query w i WtsSessionInfoEx),
      wt_console = wq_console w\<rparr>"

lemma clean_string [clean_intros]: "clean P (querySessionString w i cls) (TrimSpace (wt_string (wts_of w) i cls))"
proof (cases "wq_query w i (WtsName cls)")
  case None
  then show ?thesis
    by (simp add: querySessionString_def querySession_def wts_of_def clean_intros)
next
  case (Some bs)
  then show ?thesis
    by (cases "bs = []")
      (simp_all add: querySessionString_def querySession_def wts_of_def clean_return clean_drop
        clean_buffer [of P bs "\<lambda>buf. TrimSpace (UTF16PtrToString w buf)"])
qed

lemma parseSessionInfoEx_Nil: "parseSessionInfoEx [] = None"
  by (simp add: parseSessionInfoEx_def wtsInfoExMinSize_def)

lemma clean_times [clean_intros]:
  "clean P (querySessionTimes w i) (Option.bind (wt_record (wts_of w) i) parseSessionInfoEx)"
proof (cases "wq_query w i WtsSessionInfoEx")
  case None
  then show ?thesis
    by (simp add: querySessionTimes_def querySession_def wts_of_def clean_intros)
next
  case (Some bs)
  then show ?thesis
    by (cases "bs = []")
      (simp_all add: querySessionTimes_def querySession_def wts_of_def clean_return clean_drop
        clean_buffer [of P bs parseSessionInfoEx] parseSessionInfoEx_Nil)
qed

lemma clean_disconnect [clean_intros]:
  "clean P (session_disconnect w i) (sessionDisconnectTime (wt_record (wts_of w)) i)"
proof -
  have "sessionDisconnectTime (wt_record (wts_of w)) i =
      (case Option.bind (wt_record (wts_of w) i) parseSessionInfoEx of None \<Rightarrow> 0 | Some t \<Rightarrow> st_Disconnect t)"
    by (simp add: sessionDisconnectTime_def split: option.split)
  then show ?thesis unfolding session_disconnect_def by (auto intro: clean_intros)
qed

lemma clean_user [clean_intros]: "clean P (session_user w i) (sessionUser (wt_string (wts_of w)) i)"
  unfolding session_user_def sessionUser_def Let_def
  by (rule clean_bind [OF clean_string], auto intro!: clean_return clean_bind [OF clean_string])

lemma clean_entries [clean_intros]:
  "clean P (session_entries w ss)
     (map (\<lambda>(i, s). \<lparr>se_ID = i, se_State = s, se_User = sessionUser (wt_string (wts_of w)) i\<rparr>) ss)"
proof (induction w ss rule: session_entries.induct)
  case (2 w i s ss)
  then show ?case by (auto intro!: clean_bind [OF clean_user] clean_bind [OF 2] clean_return)
qed (simp add: clean_intros)

lemma clean_interactive [clean_intros]: "clean P (interactive_session w) (InteractiveSession (wts_of w))"
proof (cases "wq_sessions w")
  case None
  then show ?thesis by (simp add: interactive_session_def InteractiveSession_def wts_of_def clean_intros)
next
  case (Some ss)
  let ?es = "map (\<lambda>(i, s). \<lparr>se_ID = i, se_State = s, se_User = sessionUser (wt_string (wts_of w)) i\<rparr>) ss"
  let ?pick = "\<lambda>es. (case pickSession es (wq_console w) of
      None \<Rightarrow> State_Monad.return None
    | Some (e, state) \<Rightarrow>
        do { t \<leftarrow> (if state = SessionDisconnected then session_disconnect w (se_ID e) else State_Monad.return 0);
             State_Monad.return (Some (se_ID e, \<lparr>us_User = se_User e, us_State = state, us_DisconnectedAt = t\<rparr>)) })"
  have pick: "clean Q (?pick ?es) (InteractiveSession (wts_of w))" for Q
    using Some
    by (auto simp: InteractiveSession_def wts_of_def split: option.split intro!: clean_return clean_bind
        clean_disconnect [of Q w, unfolded wts_of_def])
  have eq: "interactive_session w =
      do { p \<leftarrow> allocated; r \<leftarrow> do { ss \<leftarrow> read_buffer p ss; es \<leftarrow> session_entries w ss; ?pick es };
           WTSFreeMemory p; State_Monad.return r }"
    using Some by (simp add: interactive_session_def)
  have body: "clean (insert p P) (do { ss \<leftarrow> read_buffer p ss; es \<leftarrow> session_entries w ss; ?pick es })
      (InteractiveSession (wts_of w))" for p
    by (rule clean_bind [OF clean_read], simp, rule clean_bind [OF clean_entries], rule pick)
  show ?thesis unfolding eq by (rule clean_hold, rule body, rule clean_return)
qed

section \<open>Properties\<close>

text \<open>
  C38: Asking Windows who is logged on leaves nothing behind and means what the pure
  definitions say. For any answers, \<^verbatim>\<open>InteractiveSession\<close> and \<^verbatim>\<open>Resolve\<close> over the buffers Windows hands
  out return the session and the user that \<open>InteractiveSession\<close>, \<open>LoggedUser\<close> and \<open>sessionUser\<close> compute from
  the strings and records; no buffer is read after its release or released twice, and the
  buffers still held afterwards are those that were held before.
\<close>

theorem session_queries_refine:
  assumes "mem_ok m"
  shows "\<exists>m1 m2. run_state (interactive_session w) m = (InteractiveSession (wts_of w), m1) \<and>
    wm_live m1 = wm_live m \<and> wm_faults m1 = wm_faults m \<and>
    run_state (resolve_change w i) m = ((sessionUser (wt_string (wts_of w)) i, LoggedUser (wts_of w)), m2) \<and>
    wm_live m2 = wm_live m \<and> wm_faults m2 = wm_faults m"
proof -
  have "clean {} (resolve_change w i) (sessionUser (wt_string (wts_of w)) i, LoggedUser (wts_of w))"
    unfolding resolve_change_def LoggedUser_def by (intro clean_bind [OF clean_user] clean_bind [OF clean_interactive] clean_return)
  then obtain m2 where 2: "run_state (resolve_change w i) m = ((sessionUser (wt_string (wts_of w)) i, LoggedUser (wts_of w)), m2)"
    "wm_live m2 = wm_live m" "wm_faults m2 = wm_faults m"
    using assms by (auto simp: clean_def)
  obtain m1 where "run_state (interactive_session w) m = (InteractiveSession (wts_of w), m1)"
    "wm_live m1 = wm_live m" "wm_faults m1 = wm_faults m"
    using clean_interactive [of "{}" w] assms by (auto simp: clean_def)
  with 2 show ?thesis by blast
qed

section \<open>A concrete machine\<close>

text \<open>One disconnected session of a user, with a name of one character and no domain.\<close>

definition demo_raw :: wts_raw where
  "demo_raw = \<lparr>wq_sessions = Some [(1, WTSDisconnected)],
     wq_query = (\<lambda>_ cls. if cls = WtsName WtsUserName then Some [0x41, 0, 0, 0] else if cls = WtsSessionInfoEx then Some [] else None),
     wq_console = noActiveConsole, wq_text = map (\<lambda>u. char_of (unat u))\<rparr>"

theorem session_queries_refine_witness:
  "\<exists>m1. run_state (interactive_session demo_raw) \<lparr>wm_live = {7}, wm_next = 8, wm_faults = 0\<rparr> =
     (Some (1, \<lparr>us_User = ''A'', us_State = SessionDisconnected, us_DisconnectedAt = 0\<rparr>), m1) \<and>
     wm_live m1 = {7} \<and> wm_faults m1 = 0"
proof -
  let ?m = "\<lparr>wm_live = {7}, wm_next = 8, wm_faults = 0\<rparr> :: winmem"
  have "mem_ok ?m" by (simp add: mem_ok_def)
  moreover have "InteractiveSession (wts_of demo_raw) =
      Some (1, \<lparr>us_User = ''A'', us_State = SessionDisconnected, us_DisconnectedAt = 0\<rparr>)"
    by code_simp
  ultimately show ?thesis using session_queries_refine [of ?m demo_raw 1] by auto
qed

end
