(* ===== verification/Desktop.thy ===== *)
theory Desktop
  imports UserNotify
begin

text \<open>
  The rest of the calls behind a toast: \<^verbatim>\<open>enablePrivilege\<close> (\<^verbatim>\<open>notify/toast_launch.go\<close>) with its callers,
  \<^verbatim>\<open>extractIcons\<close> and the window of \<^verbatim>\<open>Show\<close> (\<^verbatim>\<open>toast/toast.go\<close>): what its procedure does with a message and
  when the loop that hands messages to it ends.
\<close>

section \<open>Privileges\<close>

datatype token_act = OpensToken | ClosesToken | Enables string

datatype privilege_error = PrivToken | PrivName | PrivLookup | PrivAdjust

record privilege_env =
  pr_token :: bool
  pr_name :: bool
  pr_lookup :: bool
  pr_adjust :: bool

definition enablePrivilege :: "privilege_env \<Rightarrow> string \<Rightarrow> token_act list \<times> privilege_error option" where
  "enablePrivilege e name =
     (if \<not> pr_token e then ([], Some PrivToken)
      else
        (let (acts, err) =
           (if \<not> pr_name e then ([], Some PrivName)
            else if \<not> pr_lookup e then ([], Some PrivLookup)
            else if \<not> pr_adjust e then ([], Some PrivAdjust)
            else ([Enables name], None))
         in (OpensToken # acts @ [ClosesToken], err)))"

definition session_privileges :: "string list" where
  "session_privileges = [''SeTcbPrivilege'', ''SeAssignPrimaryTokenPrivilege'', ''SeIncreaseQuotaPrivilege'']"

text \<open>The loop that asks for all of them: an error is dropped.\<close>

definition enable_all :: "(string \<Rightarrow> privilege_env) \<Rightarrow> string list \<Rightarrow> token_act list" where
  "enable_all pe names = concat (map (\<lambda>n. fst (enablePrivilege (pe n) n)) names)"

text \<open>Where the callers of \<open>LaunchToast\<close>, \<open>RunInSession\<close> and \<open>ConsoleUserSID\<close> find them.\<close>

definition launch_toast_privileges :: "(string \<Rightarrow> privilege_env) \<Rightarrow> session_env \<Rightarrow> token_act list" where
  "launch_toast_privileges pe e = (if xs_console e = noConsoleSession then [] else enable_all pe session_privileges)"

definition run_in_session_privileges :: "(string \<Rightarrow> privilege_env) \<Rightarrow> string list \<Rightarrow> token_act list" where
  "run_in_session_privileges pe argv = (if argv = [] then [] else enable_all pe session_privileges)"

definition console_user_privileges :: "(string \<Rightarrow> privilege_env) \<Rightarrow> 32 word \<Rightarrow> token_act list" where
  "console_user_privileges pe session = (if session = noConsoleSession then [] else enable_all pe [''SeTcbPrivilege''])"

section \<open>Icons\<close>

text \<open>\<open>answer\<close>: the number of icons and the two handles \<^verbatim>\<open>ExtractIconEx\<close> gives.\<close>

definition extractIcons :: "bool \<Rightarrow> nat \<times> nat \<times> nat \<Rightarrow> nat \<times> nat \<times> bool" where
  "extractIcons path_ok answer =
     (case answer of (ret, largeH, smallH) \<Rightarrow>
        if \<not> path_ok then (0, 0, False)
        else if ret = 0 then (0, 0, False)
        else (smallH, largeH, True))"

definition with_icons :: "bool \<Rightarrow> nat \<times> nat \<times> nat \<Rightarrow> toast_env \<Rightarrow> toast_env" where
  "with_icons path_ok answer e =
     (case extractIcons path_ok answer of (small, large, ok) \<Rightarrow>
        e\<lparr>te_extract := ok, te_small := (small \<noteq> 0), te_large := (large \<noteq> 0)\<rparr>)"

section \<open>The window\<close>

definition wmDestroy :: nat where "wmDestroy = 0x0002"
definition wmClose :: nat where "wmClose = 0x0010"
definition wmTimer :: nat where "wmTimer = 0x0113"
definition visibleFor :: duration where "visibleFor = 10 * Second"

text \<open>The window procedure: whether the quit message is posted.\<close>

definition wndProc :: "nat \<Rightarrow> bool \<Rightarrow> bool" where
  "wndProc msg quit = (if msg = wmTimer \<or> msg = wmClose \<or> msg = wmDestroy then True else quit)"

text \<open>
  The loop. Messages arrive in batches whenever it waits; a batch of \<open>None\<close> is a \<^verbatim>\<open>GetMessage\<close> that
  fails. The quit message comes once the queue is empty. The result is what was dispatched and
  whether the loop has ended.
\<close>

fun pump :: "nat list option list \<Rightarrow> nat list \<Rightarrow> bool \<Rightarrow> nat list \<times> bool" where
  "pump arrivals (m # q) quit = (let (ms, ended) = pump arrivals q (wndProc m quit) in (m # ms, ended))"
| "pump arrivals [] True = ([], True)"
| "pump [] [] False = ([], False)"
| "pump (None # arrivals) [] False = ([], True)"
| "pump (Some b # arrivals) [] False = pump arrivals b False"

text \<open>The whole of \<^verbatim>\<open>Show\<close>: when a balloon is up, it returns once the loop has ended.\<close>

definition Show_returns :: "toast_env \<Rightarrow> nat list option list \<Rightarrow> bool" where
  "Show_returns e arrivals \<longleftrightarrow> (case snd (snd (Show e)) of None \<Rightarrow> True | Some _ \<Rightarrow> snd (pump arrivals [] False))"

section \<open>Lemmas\<close>

text \<open>Every token that is opened is closed before the next one is opened.\<close>

fun tokens_paired :: "bool \<Rightarrow> token_act list \<Rightarrow> bool" where
  "tokens_paired open [] = (\<not> open)"
| "tokens_paired open (OpensToken # as) = (\<not> open \<and> tokens_paired True as)"
| "tokens_paired open (ClosesToken # as) = (open \<and> tokens_paired False as)"
| "tokens_paired open (Enables n # as) = (open \<and> tokens_paired open as)"

lemma tokens_paired_enable: "tokens_paired False (fst (enablePrivilege e n) @ as) = tokens_paired False as"
  by (simp add: enablePrivilege_def Let_def)

lemma tokens_paired_all: "tokens_paired False (enable_all pe ns)"
  by (induction ns) (simp_all add: enable_all_def tokens_paired_enable)

lemma privileges_paired:
  "tokens_paired False (launch_toast_privileges pe e)" "tokens_paired False (run_in_session_privileges pe argv)"
  "tokens_paired False (console_user_privileges pe session)"
  by (simp_all add: launch_toast_privileges_def run_in_session_privileges_def console_user_privileges_def tokens_paired_all)

definition stops :: "nat list option \<Rightarrow> bool" where
  "stops b = (case b of None \<Rightarrow> True | Some ms \<Rightarrow> \<exists>m \<in> set ms. wndProc m False)"

definition batch :: "nat list option \<Rightarrow> nat list" where
  "batch b = (case b of None \<Rightarrow> [] | Some ms \<Rightarrow> ms)"

lemma pump_queue: "pump arrivals q quit =
    (q @ fst (pump arrivals [] (quit \<or> (\<exists>m \<in> set q. wndProc m False))),
     snd (pump arrivals [] (quit \<or> (\<exists>m \<in> set q. wndProc m False))))"
proof (induction q arbitrary: quit)
  case (Cons m q)
  have "wndProc m quit = (quit \<or> wndProc m False)" by (simp add: wndProc_def)
  then show ?case using Cons.IH [of "wndProc m quit"] by (simp add: Let_def case_prod_unfold disj_assoc)
qed simp

lemma pump_step:
  "pump (b # arrivals) [] False =
     (batch b @ (if stops b then [] else fst (pump arrivals [] False)), stops b \<or> snd (pump arrivals [] False))"
proof (cases b)
  case (Some ms)
  then show ?thesis using pump_queue [of arrivals ms False] by (simp add: stops_def batch_def)
qed (simp add: stops_def batch_def)

text \<open>
  A toast goes away: the loop ends exactly when a batch brings the timer, a close or a destroy, or
  \<^verbatim>\<open>GetMessage\<close> fails, and what it dispatched are the messages up to the end of that batch. Without
  one of these, as when \<^verbatim>\<open>SetTimer\<close> failed, whose result is not looked at, it goes on waiting.
\<close>

theorem toast_loop_ends:
  "pump arrivals [] False =
     (concat (map batch (takeWhile (\<lambda>b. \<not> stops b) arrivals @ take 1 (dropWhile (\<lambda>b. \<not> stops b) arrivals))),
      list_ex stops arrivals)"
proof (induction arrivals)
  case (Cons b arrivals)
  then show ?case using pump_step [of b arrivals] by (simp del: pump.simps)
qed simp

theorem toast_without_timer_waits:
  assumes "te_class e" "te_window e" "te_add e" "te_modify e" and "\<not> list_ex stops arrivals"
  shows "\<not> Show_returns e arrivals"
proof -
  have "snd (snd (Show e)) \<noteq> None"
    using assms by (simp add: Show_def holding_def hold_if_def after_def deferring_def Let_def)
  then show ?thesis using assms(5) toast_loop_ends [of arrivals] by (auto simp: Show_returns_def)
qed

end
