(* ===== verification/Spec2Isabelle.thy ===== *)
theory Spec2Isabelle
  imports PolicyWitness Trust CommandLog Tools Ownership Sessions Desktop
begin

text \<open>
  A model of the EMLy updater, the Windows service that keeps the EMLy application and
  itself up to date (Go, \<^verbatim>\<open>src/\<close>), with the properties that make it correct. This theory
  imports all others.

  \<^bold>\<open>The program.\<close> The service polls. Each round of \<^verbatim>\<open>RunLoop\<close> refreshes the remote configuration
  (\<^verbatim>\<open>internal/policy\<close>, \<^verbatim>\<open>service/remoteconfig.go\<close>), decides from it which servers the machine
  asks and in which order (\<^verbatim>\<open>service/sourcepolicy.go\<close>), repairs the file associations and the
  trusted certificate (\<^verbatim>\<open>internal/assoc\<close>, \<^verbatim>\<open>internal/cert\<close>), updates itself when a newer release
  is offered (\<^verbatim>\<open>internal/selfupdate\<close>, \<^verbatim>\<open>service/selfupdate.go\<close>) and then EMLy (\<^verbatim>\<open>service.go\<close>,
  \<^verbatim>\<open>internal/installer\<close>, \<^verbatim>\<open>internal/download\<close>), keeping what must survive a restart in
  \<^verbatim>\<open>state.json\<close> (\<^verbatim>\<open>internal/state\<close>). Beside it a presence channel (\<^verbatim>\<open>internal/wsclient\<close>,
  \<^verbatim>\<open>service/clientws.go\<close> and its siblings) takes commands from the server, reports events and
  wakes the loop, and a named-pipe server (\<^verbatim>\<open>internal/ipc\<close>) answers EMLy. The parts meet in three
  places: the install gate, which keeps a restart ordered by a command out of an install and
  the other way round; the state file, which every operation writes under one lock; and the
  current cycle, which the channel and the pipe server read.

  \<^bold>\<open>Modelling.\<close> Go strings are byte strings, durations and \<^verbatim>\<open>int64\<close> wrap at 64 bits where they are
  multiplied, addresses, ids and frames are machine words; maps are association lists in
  iteration order. A call that leaves the program (system calls, HTTP, Windows, the clock,
  random numbers) is answered by the environment, an argument of the operation, and
  the theorems hold for every answer. Libraries that are not part of the repository are
  parameters: version comparison, the JSON text parser, URL, CIDR and RFC 3339
  parsing (record \<^verbatim>\<open>golib\<close> of \<^verbatim>\<open>GoLib\<close>), the codecs of the state file, the policy cache and the
  pipe envelopes, the hash of a file. What a theorem needs of them is a named
  hypothesis (\<^verbatim>\<open>version_order\<close>, \<^verbatim>\<open>codec_ok\<close>, \<^verbatim>\<open>cache_codec_ok\<close>, \<^verbatim>\<open>random_below\<close>).

  \<^bold>\<open>Theories.\<close>

  \<^item> \<^verbatim>\<open>Prelude\<close>, \<^verbatim>\<open>Systems\<close>, \<^verbatim>\<open>GoLib\<close>: shared vocabulary, the locale of transition systems with
    reachability and runs, the library functions the program imports.
  \<^item> \<^verbatim>\<open>Json\<close>, \<^verbatim>\<open>Decode\<close>: JSON values, merge patches (\<^verbatim>\<open>policy/merge.go\<close>), decoding into structs.
  \<^item> \<^verbatim>\<open>Manifest\<close>, \<^verbatim>\<open>PolicyDoc\<close>, \<^verbatim>\<open>PolicyParse\<close>, \<^verbatim>\<open>PolicyMatch\<close>, \<^verbatim>\<open>PolicyWitness\<close>: the release manifests and
    the remote document, its validation, its overrides, sites and server chains: what is
    accepted satisfies every rule, for every host, and the chain is never empty.
  \<^item> \<^verbatim>\<open>Files\<close>, \<^verbatim>\<open>StateStore\<close>, \<^verbatim>\<open>Download\<close>: files as sequences of system calls that may be cut off;
    the state file is old or new, never torn; a path handed on has the promised checksum.
  \<^item> \<^verbatim>\<open>Config\<close>, \<^verbatim>\<open>RemoteConfig\<close>, \<^verbatim>\<open>Resolver\<close>, \<^verbatim>\<open>Sources\<close>: the local configuration and the policy derived
    from it, fetching, caching and replacing the document, asking a chain of servers.
  \<^item> \<^verbatim>\<open>SelfUpdate\<close>, \<^verbatim>\<open>World\<close>, \<^verbatim>\<open>SelfApply\<close>, \<^verbatim>\<open>SelfHeal\<close>, \<^verbatim>\<open>Cycle\<close>: the decision on the attempt record and the
    abstract cycle on it; the state of one update cycle and its environment; the handler
    of the self-update, which refines the abstract cycle; associations and certificate;
    \<^verbatim>\<open>Cycle\<close>, \<^verbatim>\<open>apply\<close> and \<^verbatim>\<open>install\<close> with the clean reinstall.
  \<^item> \<^verbatim>\<open>Protocol\<close>, \<^verbatim>\<open>PowerGate\<close>, \<^verbatim>\<open>ClientCmd\<close>: commands of the channel, the gate as a transition
    system, destructive commands, admission, deduplication.
  \<^item> \<^verbatim>\<open>Wire\<close>, \<^verbatim>\<open>EventChannel\<close>, \<^verbatim>\<open>Connection\<close>, \<^verbatim>\<open>Presence\<close>: backoff, message ids and sessions; the event
    buffer and the generations of connections; one connection, whose trace refines the
    protocol automaton; the supervisor, whose log refines a monitor, and the notifies.
  \<^item> \<^verbatim>\<open>Machine\<close>, \<^verbatim>\<open>Telemetry\<close>, \<^verbatim>\<open>Inventory\<close>, \<^verbatim>\<open>ReadOnly\<close>: reading the machine's facts, the reports built from
    them, the package list and the dry runs, and the read-only commands from admission to result.
  \<^item> \<^verbatim>\<open>Ipc\<close>: the pipe server from the bytes of a request to those of the answer.
  \<^item> \<^verbatim>\<open>WinTrust\<close>, \<^verbatim>\<open>Logging\<close>: the decision on a signature and waiting for or ending processes; levels, files and
    Event Log of the logger, whose target is swapped while others write.
  \<^item> \<^verbatim>\<open>Service\<close>: \<^verbatim>\<open>RunLoop\<close> with its start, refreshes, cycles and waits, composed from the theories above,
    and the control loop of the service; the locale \<^verbatim>\<open>update_cycle\<close> carries what one cycle promises
    to any number of rounds.
  \<^item> \<^verbatim>\<open>CommandLine\<close>, \<^verbatim>\<open>UserNotify\<close>, \<^verbatim>\<open>Launch\<close>: the subcommands of \<^verbatim>\<open>main.go\<close> on the state of the service
    manager; messages, toasts, programs in the user's session and the restart of the machine,
    with the life of every handle; the paths, the programs the service starts, the download of
    a setup, the accept loop of the pipe and the domain controller. \<^verbatim>\<open>Desktop\<close>: privileges, icons and
    the message loop of a toast.
  \<^item> \<^verbatim>\<open>Trust\<close>: the signature check of a self-update from the embedded certificate to the rounds of the
    service. \<^verbatim>\<open>CommandLog\<close>: what the log holds of the server's commands, shown to be exactly what was done
    and answered.
  \<^item> \<^verbatim>\<open>Ownership\<close>, \<^verbatim>\<open>Sessions\<close>: two places where sharing matters, on explicit memory: the policy a
    cycle copies out of the shared snapshot, and the buffers Windows hands out for session queries,
    threaded through the state monad.
  \<^item> \<^verbatim>\<open>Tools\<close>: the programs under \<^verbatim>\<open>tools/\<close>; \<^verbatim>\<open>genversion\<close> with its regular expression and template.

  \<^bold>\<open>Bounds.\<close> Recursive definitions follow the data or a measure and are total. The one loop whose end
  is not evident, the cutting of the package list, is a partial function shown to return on
  every input; the message loop of a toast is shown to end exactly when a message ends it. Loops over time (refreshes, cycles, deliveries, frames, iterations of the
  supervisor) run over lists of environments of any length; the interleaving of
  goroutines is a transition system whose steps are what a mutex makes atomic.

  \<^bold>\<open>Not modelled.\<close> The generated protobuf code and the version constant. Of what the service
  does, the bodies of the calls into Windows: the layout of its structures, \<^verbatim>\<open>WinVerifyTrust\<close>
  and the reading of the signer's certificate from a file; and the libraries that rotate and
  format the log. Their outcomes are in the environments. Log lines are modelled where a
  property speaks about them (the commands of the server, events of the Event Log, the warnings
  of the supervisor), otherwise not; the text of errors is a constructor naming the
  branch. What is left of the Go code is accessors, constants, struct declarations whose fields the
  records above split by component, and hooks that tests replace.
\<close>

section \<open>The service on its own paths\<close>

text \<open>
  C1: Over the whole life of the service only verified setups of known releases are run.
  Whatever the servers, the machine and the presence channel do over any number of rounds of a
  service set up on its own directories, every EMLy setup it runs has the non-empty SHA-256
  that the record pending at the start, or a manifest resolved by one of its cycles for the
  channel in use, names for its version; a setup of the updater itself is signed, newer than
  the running build and the only deed of its cycle; EMLy is killed at most once a cycle,
  before any setup, while it is running and for a forced update; a cycle runs at most two
  setups, and none while the policy pauses the updater or a restart or reboot is committed
  when it starts.
\<close>

theorem service_runs_verified:
  assumes "ls_service u = on_standard_paths programData v" "RunLoop u s rs w = (fin, calls, st)" "pending_wf (ls_service u) w"
  shows "\<exists>dss. wd_did (up_world st) = wd_did w @ concat dss \<and> length calls \<le> length rs \<and>
    list_all2 (\<lambda>(c, v) ds. deeds_fit (ls_service u)
      (\<lambda>r. pending_release w = Some r \<or> (\<exists>(c, v) \<in> set calls. cycle_offers (ls_service u) c v r)) c v ds) calls dss"
proof -
  have "\<forall>v. apart (ls_service u) (SetupPath (se_selfDownloads (ls_service u)) v)"
    unfolding assms(1) using standard_paths_apart by blast
  from RunLoop_runs_verified [OF assms(2,3) this] show ?thesis .
qed

definition demo_standard :: "string loop_setup" where
  "demo_standard = demo_loop\<lparr>ls_service := on_standard_paths [] demo_setup\<rparr>"

definition demo_standard_life :: "loop_end \<times> string cycle_call list \<times> (string, nat) updater" where
  "demo_standard_life = RunLoop demo_standard demo_start [demo_round] World.demo_world"

theorem service_runs_verified_witness:
  "length (fst (snd demo_standard_life)) = 1 \<and>
   (\<exists>ds. wd_did (up_world (snd (snd demo_standard_life))) = ds \<and>
      deeds_fit (ls_service demo_standard)
        (\<lambda>r. \<exists>(c, v) \<in> set (fst (snd demo_standard_life)). cycle_offers (ls_service demo_standard) c v r)
        (fst (hd (fst (snd demo_standard_life)))) (snd (hd (fst (snd demo_standard_life)))) ds)"
proof -
  have "length (fst (snd demo_standard_life)) = 1"
    by (simp add: demo_standard_life_def RunLoop_def demo_round_def run_cycle_def Let_def case_prod_unfold wait_select_def)
  then obtain call where call: "fst (snd demo_standard_life) = [call]" by (auto simp: length_Suc_conv)
  have wf: "pending_wf (ls_service demo_standard) World.demo_world" "wd_did World.demo_world = []"
    "pending_release World.demo_world = None"
    by (simp_all add: pending_wf_def World.demo_world_def pending_release_def)
  have paths: "ls_service demo_standard = on_standard_paths [] demo_setup" by (simp add: demo_standard_def)
  have run: "RunLoop demo_standard demo_start [demo_round] World.demo_world =
      (fst demo_standard_life, fst (snd demo_standard_life), snd (snd demo_standard_life))"
    by (simp add: demo_standard_life_def)
  from service_runs_verified [OF paths run wf(1)] show ?thesis
    using wf(2,3) call by (auto simp: list_all2_Cons1 case_prod_unfold)
qed

end
